(* ===== verification/Prelude.thy ===== *)
theory Prelude
  imports Main "HOL-Library.Sublist"
begin

text \<open>
  Shared vocabulary of the development: Python text and exceptions, the error monad on sums in
  which every raise of the source is an \<open>Inl\<close>, the traversal of a list that may raise, the list
  functions the repository code uses on rows (first match, update in place), and the generic lemmas
  the components share. Facts that unfold guards and error branches are collected in
  \<open>res_simps\<close>, facts about table rows in \<open>row_simps\<close>.
\<close>

named_theorems res_simps \<open>rewrite rules for the error monad\<close>
named_theorems row_simps \<open>rewrite rules for rows of a table\<close>

section \<open>Types\<close>

text \<open>A Python \<open>str\<close> whose code points matter is the list of its code points; identifiers that the
  code only compares with ASCII literals are HOL strings. Aware datetimes are microseconds since the
  epoch in UTC.\<close>

type_synonym pystr = "nat list"
type_synonym datetime = int

datatype exn =
    ValueError string
  | RuntimeError string
  | LookupError string
  | PermissionError string
  | TypeError string
  | IntegrityError string
  | InFlightInvariantViolation string string
  | InFlightLimitExceeded
  | OutboxLeaseLost
  | OutboxContractConflict
  | SendCasLost
  | OtherError string

type_synonym 'a res = "exn + 'a"

section \<open>The error monad\<close>

definition rbind :: "'e + 'a \<Rightarrow> ('a \<Rightarrow> 'e + 'b) \<Rightarrow> 'e + 'b" where
  "rbind m f = (case m of Inl e \<Rightarrow> Inl e | Inr x \<Rightarrow> f x)"

text \<open>\<open>guard b e\<close> is \<open>if not b: raise e\<close>.\<close>

definition guard :: "bool \<Rightarrow> 'e \<Rightarrow> 'e + unit" where
  "guard b e = (if b then Inr () else Inl e)"

fun traverse :: "('a \<Rightarrow> 'e + 'b) \<Rightarrow> 'a list \<Rightarrow> 'e + 'b list" where
  "traverse f [] = Inr []"
| "traverse f (x # xs) =
     (case f x of Inl e \<Rightarrow> Inl e
      | Inr y \<Rightarrow> (case traverse f xs of Inl e \<Rightarrow> Inl e | Inr ys \<Rightarrow> Inr (y # ys)))"

text \<open>A loop that updates a state and may raise.\<close>

fun foldM :: "('s \<Rightarrow> 'a \<Rightarrow> 'e + 's) \<Rightarrow> 's \<Rightarrow> 'a list \<Rightarrow> 'e + 's" where
  "foldM f s [] = Inr s"
| "foldM f s (x # xs) = rbind (f s x) (\<lambda>s'. foldM f s' xs)"

section \<open>Rows of a table\<close>

text \<open>\<open>first_row p rows\<close> is \<open>next((row for row in rows if p(row)), None)\<close>;
  \<open>update_rows p f rows\<close> is \<open>UPDATE ... SET f WHERE p\<close>, and \<open>count_rows p rows\<close> its row count.\<close>

definition first_row :: "('a \<Rightarrow> bool) \<Rightarrow> 'a list \<Rightarrow> 'a option" where
  "first_row p rows = find p rows"

definition update_rows :: "('a \<Rightarrow> bool) \<Rightarrow> ('a \<Rightarrow> 'a) \<Rightarrow> 'a list \<Rightarrow> 'a list" where
  "update_rows p f rows = map (\<lambda>r. if p r then f r else r) rows"

definition count_rows :: "('a \<Rightarrow> bool) \<Rightarrow> 'a list \<Rightarrow> nat" where
  "count_rows p rows = length (filter p rows)"

definition last_opt :: "'a list \<Rightarrow> 'a option" where
  "last_opt xs = (if xs = [] then None else Some (last xs))"

section \<open>Lemmas on the error monad\<close>

lemma rbind_simps [simp, res_simps]:
  "rbind (Inl e) f = Inl e"
  "rbind (Inr x) f = f x"
  by (simp_all add: rbind_def)

lemma rbind_Inr_iff [res_simps]:
  "rbind m f = Inr y \<longleftrightarrow> (\<exists>x. m = Inr x \<and> f x = Inr y)"
  by (cases m) simp_all

lemma rbind_Inl_iff [res_simps]:
  "rbind m f = Inl e \<longleftrightarrow> m = Inl e \<or> (\<exists>x. m = Inr x \<and> f x = Inl e)"
  by (cases m) simp_all

lemma case_resE:
  assumes "case r of Inl _ \<Rightarrow> False | Inr x \<Rightarrow> P x"
  obtains x where "r = Inr x" "P x"
  using assms by (cases r) auto

lemma guard_Inr_iff [simp, res_simps]: "guard b e = Inr u \<longleftrightarrow> b"
  by (simp add: guard_def)

lemma guard_Inl_iff [simp, res_simps]: "guard b e = Inl e' \<longleftrightarrow> \<not> b \<and> e' = e"
  by (auto simp: guard_def)

lemma traverse_Inr_D:
  "traverse f xs = Inr ys \<Longrightarrow> list_all2 (\<lambda>x y. f x = Inr y) xs ys"
  by (induction xs arbitrary: ys) (auto split: sum.splits)

lemma traverse_id:
  assumes "\<And>x y. f x = Inr y \<Longrightarrow> y = x" and "traverse f xs = Inr ys"
  shows "ys = xs"
  using assms(2) by (induction xs arbitrary: ys) (auto split: sum.splits dest: assms(1))

lemma traverse_id_iff:
  assumes "\<And>x y. f x = Inr y \<Longrightarrow> y = x"
  shows "traverse f xs = Inr ys \<longleftrightarrow> ys = xs \<and> (\<forall>x\<in>set xs. f x = Inr x)"
proof (induction xs arbitrary: ys)
  case Nil
  then show ?case by auto
next
  case (Cons x xs)
  show ?case
  proof (cases "f x")
    case (Inl e)
    then show ?thesis by simp
  next
    case (Inr y)
    with assms have "y = x" by blast
    show ?thesis
    proof (cases "traverse f xs")
      case (Inl e)
      then have "\<not> (\<forall>x\<in>set xs. f x = Inr x)" using Cons.IH [of xs] by simp
      with Inl Inr show ?thesis by simp
    next
      case (Inr zs)
      then have "zs = xs \<and> (\<forall>x\<in>set xs. f x = Inr x)" using Cons.IH [of zs] by simp
      with Inr \<open>f x = Inr y\<close> \<open>y = x\<close> show ?thesis by auto
    qed
  qed
qed

lemma traverse_all_Inr:
  "\<forall>x\<in>set xs. f x = Inr (g x) \<Longrightarrow> traverse f xs = Inr (map g xs)"
  by (induction xs) auto

lemma foldM_invariant:
  assumes "foldM f s xs = Inr s'" and "P s"
    and "\<And>s x s'. x \<in> set xs \<Longrightarrow> P s \<Longrightarrow> f s x = Inr s' \<Longrightarrow> P s'"
  shows "P s'"
  using assms
proof (induction xs arbitrary: s)
  case (Cons x xs)
  from Cons.prems(1) obtain s1 where "f s x = Inr s1" "foldM f s1 xs = Inr s'"
    by (auto simp: rbind_Inr_iff)
  with Cons.prems(2,3) show ?case using Cons.IH [of s1] by auto
qed simp

section \<open>Lemmas on rows\<close>

lemma first_row_SomeE:
  assumes "first_row p rows = Some r"
  obtains us vs where "rows = us @ r # vs" and "p r" and "\<forall>u\<in>set us. \<not> p u"
  using assms unfolding first_row_def
proof (induction rows arbitrary: thesis)
  case Nil
  then show ?case by simp
next
  case (Cons x xs)
  show ?case
  proof (cases "p x")
    case True
    with Cons.prems(2) have "r = x" by simp
    with True show ?thesis using Cons.prems(1) [of "[]" xs] by simp
  next
    case False
    with Cons.prems(2) have "find p xs = Some r" by simp
    then obtain us vs where "xs = us @ r # vs" "p r" "\<forall>u\<in>set us. \<not> p u"
      using Cons.IH by blast
    with False show ?thesis using Cons.prems(1) [of "x # us" vs] by simp
  qed
qed

lemma first_row_None_iff [row_simps]: "first_row p rows = None \<longleftrightarrow> (\<forall>r\<in>set rows. \<not> p r)"
  by (auto simp: first_row_def find_None_iff)

lemma first_row_SomeD: "first_row p rows = Some r \<Longrightarrow> r \<in> set rows \<and> p r"
  by (auto elim: first_row_SomeE)

lemma set_update_rows:
  "set (update_rows p f rows) = f ` {r \<in> set rows. p r} \<union> {r \<in> set rows. \<not> p r}"
  by (auto simp: update_rows_def)

lemma ball_update_rows [row_simps]:
  "(\<forall>r\<in>set (update_rows p f rows). Q r) \<longleftrightarrow> (\<forall>r\<in>set rows. Q (if p r then f r else r))"
  unfolding update_rows_def by (simp only: set_map ball_simps)

lemma update_rows_none: "\<forall>r\<in>set rows. \<not> p r \<Longrightarrow> update_rows p f rows = rows"
  by (induction rows) (auto simp: update_rows_def)

lemma length_update_rows [simp]: "length (update_rows p f rows) = length rows"
  by (simp add: update_rows_def)

lemma map_update_rows:
  "\<forall>r. g (f r) = g r \<Longrightarrow> map g (update_rows p f rows) = map g rows"
  by (simp add: update_rows_def)

lemma sum_list_update_rows:
  fixes g :: "'a \<Rightarrow> int"
  shows "sum_list (map g (update_rows p f rows)) =
    sum_list (map g rows) + sum_list (map (\<lambda>r. g (f r) - g r) (filter p rows))"
  by (induction rows) (auto simp: update_rows_def)

lemma last_opt_simps [simp]: "last_opt [] = None" "last_opt (xs @ [x]) = Some x"
  by (simp_all add: last_opt_def)

lemma last_opt_Some_iff: "last_opt xs = Some x \<longleftrightarrow> (\<exists>ys. xs = ys @ [x])"
  by (cases xs rule: rev_cases) (auto simp: last_opt_def)

lemma last_opt_None_iff [simp]: "last_opt xs = None \<longleftrightarrow> xs = []"
  by (simp add: last_opt_def)

lemma last_opt_in_set: "last_opt xs = Some x \<Longrightarrow> x \<in> set xs"
  by (auto simp: last_opt_Some_iff)

lemma filter_head_first:
  "filter p xs = y # ys \<Longrightarrow> \<exists>us vs. xs = us @ y # vs \<and> p y \<and> (\<forall>u\<in>set us. \<not> p u)"
  by (auto simp: filter_eq_Cons_iff)

lemma filter_head_find: "filter p xs = y # ys \<Longrightarrow> find p xs = Some y"
  by (induction xs) (auto split: if_splits)

lemma first_row_unique:
  assumes "distinct (map k rows)" "r \<in> set rows"
  shows "first_row (\<lambda>x. k x = k r) rows = Some r"
proof (cases "first_row (\<lambda>x. k x = k r) rows")
  case None
  with assms(2) show ?thesis by (auto simp: first_row_None_iff)
next
  case (Some q)
  then have "q \<in> set rows" "k q = k r" by (auto dest: first_row_SomeD)
  with assms have "q = r" by (auto simp: distinct_map inj_on_def)
  with Some show ?thesis by simp
qed

lemma first_row_update_rows:
  assumes "\<And>r. k (f r) = k r"
  shows "first_row (\<lambda>r. k r = i) (update_rows p f rows) =
    map_option (\<lambda>r. if p r then f r else r) (first_row (\<lambda>r. k r = i) rows)"
  by (induction rows) (auto simp: first_row_def update_rows_def assms)

lemma first_row_update_other:
  assumes "\<And>r. k (f r) = k r" "\<And>r. p r \<Longrightarrow> k r \<noteq> i"
  shows "first_row (\<lambda>r. k r = i) (update_rows p f rows) = first_row (\<lambda>r. k r = i) rows"
  using assms(2) by (induction rows) (auto simp: first_row_def update_rows_def assms(1))

lemma filter_unique_key:
  assumes "distinct (map k rows)" "r \<in> set rows" "p r" "\<And>x. p x \<Longrightarrow> k x = k r"
  shows "filter p rows = [r]"
  using assms(1,2)
proof (induction rows)
  case (Cons x xs)
  show ?case
  proof (cases "x = r")
    case True
    with Cons.prems assms(4) have "\<forall>y\<in>set xs. \<not> p y" by (auto simp: image_iff)
    with True assms(3) show ?thesis by (simp add: filter_empty_conv)
  next
    case False
    with Cons.prems have r: "r \<in> set xs" by simp
    with Cons.prems(1) assms(4) have "\<not> p x" by (auto simp: image_iff)
    with Cons r show ?thesis by simp
  qed
qed simp

lemma first_row_append: "first_row p (xs @ ys) =
    (case first_row p xs of Some x \<Rightarrow> Some x | None \<Rightarrow> first_row p ys)"
  by (induction xs) (auto simp: first_row_def)

lemma distinct_map_snapshot:
  assumes "distinct (map k rows)"
  shows "distinct (map k (take n (sort_key g (filter p rows))))"
proof -
  have "inj_on k (set rows)" "distinct rows" using assms by (simp_all add: distinct_map)
  moreover have "set (take n (sort_key g (filter p rows))) \<subseteq> set rows"
    using set_take_subset [of n "sort_key g (filter p rows)"] by auto
  ultimately show ?thesis
    by (auto simp: distinct_map intro: inj_on_subset)
qed

lemma set_snapshot: "set (take n (sort_key g (filter p rows))) \<subseteq> {r \<in> set rows. p r}"
  using set_take_subset [of n "sort_key g (filter p rows)"] by auto

section \<open>Transition systems\<close>

text \<open>A step relation with an invariant: what one step keeps, every run keeps.\<close>

locale invariant_system =
  fixes step :: "'s \<Rightarrow> 's \<Rightarrow> bool" and inv :: "'s \<Rightarrow> bool"
  assumes step_inv: "step s s' \<Longrightarrow> inv s \<Longrightarrow> inv s'"
begin

lemma run_inv: "step\<^sup>*\<^sup>* s s' \<Longrightarrow> inv s \<Longrightarrow> inv s'"
  by (induction rule: rtranclp_induct) (auto intro: step_inv)

end

text \<open>A system in which, on top of the invariant, every step keeps a relation between a state and
  its successors, such as a fact that is never undone.\<close>

locale monotone_system = invariant_system +
  fixes rel :: "'s \<Rightarrow> 's \<Rightarrow> bool"
  assumes rel_refl: "rel s s"
    and rel_trans: "rel s s' \<Longrightarrow> rel s' s'' \<Longrightarrow> rel s s''"
    and step_rel: "step s s' \<Longrightarrow> inv s \<Longrightarrow> rel s s'"
begin

lemma run_rel: "step\<^sup>*\<^sup>* s s' \<Longrightarrow> inv s \<Longrightarrow> rel s s'"
proof (induction rule: rtranclp_induct)
  case base
  show ?case by (rule rel_refl)
next
  case (step y z)
  then show ?case using run_inv step_rel rel_trans by blast
qed

end

text \<open>A content under a version number that grows with every change: two states of a run with the
  same version have the same content.\<close>

locale versioned =
  fixes step :: "'s \<Rightarrow> 's \<Rightarrow> bool" and version :: "'s \<Rightarrow> int" and content :: "'s \<Rightarrow> 'c"
  assumes step_version: "step s s' \<Longrightarrow> version s \<le> version s'"
    and step_content: "step s s' \<Longrightarrow> version s' = version s \<Longrightarrow> content s' = content s"
begin

lemma run_version: "step\<^sup>*\<^sup>* s s' \<Longrightarrow> version s \<le> version s'"
  by (induction rule: rtranclp_induct) (auto intro: order_trans dest: step_version)

lemma run_content:
  assumes "step\<^sup>*\<^sup>* s s'" "version s' = version s"
  shows "content s' = content s"
  using assms
proof (induction rule: rtranclp_induct)
  case (step y z)
  have "version s \<le> version y" "version y \<le> version z"
    using run_version [OF step.hyps(1)] step_version [OF step.hyps(2)] by auto
  with step.prems have "version y = version s" "version z = version y" by auto
  with step.IH step_content [OF step.hyps(2)] show ?case by simp
qed simp

end

end
