(* ===== verification/Vendor_Codes.thy ===== *)
theory Vendor_Codes
  imports Prelude
begin

text \<open>
  The error codes of the SMS provider and the disposition the platform attaches to each
  (src/backend/app/vendor/codes.py): a record with the source's fields, the table of codes in the
  order of the source, and \<open>policy_for\<close>, which adds the fail-over permission. Descriptions are the
  code points of the source's text.
\<close>

section \<open>Model\<close>

definition BACKOFF_DELAYS_S :: "int list" where
  "BACKOFF_DELAYS_S = [1, 2, 4, 8, 16]"

definition DELAYED_RETRY_LIMIT :: int where
  "DELAYED_RETRY_LIMIT = 8"

definition DELAYED_RETRY_EXHAUSTED :: string where
  "DELAYED_RETRY_EXHAUSTED = ''delayed_retry_exhausted''"

record VendorErrorPolicy =
  description :: pystr
  retry_delays_s :: "int list"
  delay_s :: "int option"
  pause_queues :: bool
  balance_blocked :: bool
  shrink_batch_once :: bool
  alert_level :: "string option"
  sync_resource :: "string option"
  not_applicable :: bool
  return_to_caller :: bool
  safe_to_failover :: bool

text \<open>The dataclass defaults; a table row overrides some fields.\<close>

definition vendor_policy :: "pystr \<Rightarrow> VendorErrorPolicy" where
  "vendor_policy d = \<lparr>description = d, retry_delays_s = [], delay_s = None, pause_queues = False,
     balance_blocked = False, shrink_batch_once = False, alert_level = None, sync_resource = None,
     not_applicable = False, return_to_caller = False, safe_to_failover = False\<rparr>"

definition ERROR_POLICIES :: "(int \<times> VendorErrorPolicy) list" where
  "ERROR_POLICIES = [
    (9, vendor_policy [22833, 36133]),
    (429, (vendor_policy [35831, 27714, 36807, 22810])\<lparr>retry_delays_s := BACKOFF_DELAYS_S\<rparr>),
    (999, (vendor_policy [20313, 39069, 19981, 36275])\<lparr>balance_blocked := True, pause_queues := True, alert_level := Some ''crit''\<rparr>),
    (1000, (vendor_policy [36134, 21495, 25110, 23494, 30721, 38169, 35823])\<lparr>pause_queues := True, alert_level := Some ''crit''\<rparr>),
    (1001, vendor_policy [25163, 26426, 21495, 30721, 38169, 35823]),
    (1002, vendor_policy [20869, 23481, 26684, 24335, 38169, 35823]),
    (1003, (vendor_policy [27169, 26495, 32, 105, 100, 32, 38169, 35823])\<lparr>sync_resource := Some ''template''\<rparr>),
    (1004, (vendor_policy [23450, 26102, 26102, 38388, 26684, 24335, 38169, 35823])\<lparr>not_applicable := True\<rparr>),
    (1005, (vendor_policy [33258, 23450, 20041, 32, 105, 100, 32, 36229, 36807, 32, 51, 54, 32, 20301])\<lparr>alert_level := Some ''crit''\<rparr>),
    (1006, (vendor_policy [21495, 30721, 25968, 36798, 21040, 19978, 38480])\<lparr>shrink_batch_once := True\<rparr>),
    (1007, (vendor_policy [23450, 26102, 26102, 38388, 23567, 20110, 32, 49, 48, 32, 20998, 38047])\<lparr>not_applicable := True\<rparr>),
    (1008, (vendor_policy [26410, 25903, 25345, 30340, 22871, 39184])\<lparr>alert_level := Some ''crit''\<rparr>),
    (1009, (vendor_policy [36134, 25143, 26410, 21551, 29992])\<lparr>pause_queues := True, alert_level := Some ''crit''\<rparr>),
    (1010, (vendor_policy [73, 80, 32, 26657, 39564, 26410, 36890, 36807])\<lparr>alert_level := Some ''crit''\<rparr>),
    (1011, (vendor_policy [26410, 22312, 26381, 21153, 26102, 38388, 33539, 22260])\<lparr>delay_s := Some 1800\<rparr>),
    (1012, vendor_policy [20869, 23481, 23383, 25968, 36798, 21040, 19978, 38480]),
    (5000, (vendor_policy [32570, 30465, 21442, 25968, 26410, 37197, 32622])\<lparr>pause_queues := True, alert_level := Some ''crit''\<rparr>),
    (5001, vendor_policy [20854, 20182, 38169, 35823]),
    (5002, (vendor_policy [35843, 29992, 38388, 38548, 36807, 24555])\<lparr>retry_delays_s := BACKOFF_DELAYS_S\<rparr>),
    (5003, (vendor_policy [27599, 31186, 35843, 29992, 39057, 27425, 36807, 24555])\<lparr>retry_delays_s := BACKOFF_DELAYS_S\<rparr>),
    (10000, (vendor_policy [25193, 23637, 21495, 38169, 35823])\<lparr>alert_level := Some ''crit''\<rparr>),
    (10001, (vendor_policy [30701, 20449, 31614, 21517, 38169, 35823])\<lparr>sync_resource := Some ''sign''\<rparr>),
    (10002, (vendor_policy [30701, 20449, 27169, 26495, 19981, 21305, 37197])\<lparr>sync_resource := Some ''template''\<rparr>),
    (10003, (vendor_policy [30701, 20449, 23494, 38053, 36134, 21495, 19981, 23384, 22312])\<lparr>pause_queues := True, alert_level := Some ''crit''\<rparr>),
    (10004, (vendor_policy [26410, 28608, 27963, 30701, 20449, 19994, 21153])\<lparr>pause_queues := True, alert_level := Some ''crit''\<rparr>),
    (10005, vendor_policy [20869, 23481, 23384, 22312, 20840, 23616, 20851, 38190, 23383]),
    (10006, (vendor_policy [69, 120, 99, 101, 108, 32, 30701, 20449, 26684, 24335, 38169, 35823])\<lparr>not_applicable := True\<rparr>),
    (10007, vendor_policy [30701, 20449, 20869, 23481, 20013, 23384, 22312, 31614, 21517]),
    (10008, (vendor_policy [26410, 24320, 36890, 30701, 20449, 27169, 26495])\<lparr>alert_level := Some ''crit''\<rparr>),
    (10009, (vendor_policy [36830, 25509, 26041, 24335, 38169, 35823])\<lparr>alert_level := Some ''crit''\<rparr>),
    (10010, (vendor_policy [24403, 21069, 25805, 20316, 24050, 34987, 38145, 23450])\<lparr>delay_s := Some 300\<rparr>),
    (10011, (vendor_policy [27169, 26495, 25968, 37327, 36798, 21040, 19978, 38480])\<lparr>return_to_caller := True\<rparr>),
    (10012, (vendor_policy [23384, 22312, 30456, 21516, 27169, 26495])\<lparr>return_to_caller := True\<rparr>),
    (10013, (vendor_policy [23384, 22312, 30456, 21516, 31614, 21517])\<lparr>return_to_caller := True\<rparr>),
    (10014, (vendor_policy [31614, 21517, 25968, 37327, 36798, 21040, 19978, 38480])\<lparr>return_to_caller := True\<rparr>)]"

definition UNKNOWN_ERROR_POLICY :: VendorErrorPolicy where
  "UNKNOWN_ERROR_POLICY = vendor_policy [26410, 30693, 21378, 21830, 38169, 35823]"

definition SAFE_TO_FAILOVER_CODES :: "int list" where
  "SAFE_TO_FAILOVER_CODES =
     [999, 1000, 1001, 1002, 1003, 1005, 1008, 1009, 1010, 1012, 5000, 10000, 10001, 10002,
      10003, 10004, 10005, 10007, 10008]"

definition policy_for :: "int \<Rightarrow> VendorErrorPolicy" where
  "policy_for code =
     (let policy = (case map_of ERROR_POLICIES code of None \<Rightarrow> UNKNOWN_ERROR_POLICY
                    | Some p \<Rightarrow> p)
      in if code \<in> set SAFE_TO_FAILOVER_CODES then policy\<lparr>safe_to_failover := True\<rparr> else policy)"

section \<open>Lemmas\<close>

lemma vendor_policy_sel [simp]:
  "description (vendor_policy d) = d"
  "retry_delays_s (vendor_policy d) = []"
  "delay_s (vendor_policy d) = None"
  "\<not> pause_queues (vendor_policy d)"
  "\<not> balance_blocked (vendor_policy d)"
  "\<not> shrink_batch_once (vendor_policy d)"
  "\<not> safe_to_failover (vendor_policy d)"
  "\<not> return_to_caller (vendor_policy d)"
  "\<not> not_applicable (vendor_policy d)"
  by (simp_all add: vendor_policy_def)

text \<open>What the table says of every row, evaluated once.\<close>

definition row_ok :: "int \<Rightarrow> VendorErrorPolicy \<Rightarrow> bool" where
  "row_ok c p \<longleftrightarrow> \<not> safe_to_failover p
     \<and> (retry_delays_s p \<noteq> [] \<longrightarrow> retry_delays_s p = BACKOFF_DELAYS_S
          \<and> c \<notin> set SAFE_TO_FAILOVER_CODES \<and> delay_s p = None \<and> \<not> pause_queues p
          \<and> \<not> shrink_batch_once p)
     \<and> (balance_blocked p \<longrightarrow> c = 999 \<and> pause_queues p)
     \<and> (delay_s p \<noteq> None \<longrightarrow> c \<notin> set SAFE_TO_FAILOVER_CODES \<and> \<not> pause_queues p)"

lemma rows_ok: "list_all (\<lambda>(c, p). row_ok c p) ERROR_POLICIES"
  by (simp add: ERROR_POLICIES_def row_ok_def SAFE_TO_FAILOVER_CODES_def)

lemma safe_codes_known: "list_all (\<lambda>c. c \<in> set (map fst ERROR_POLICIES)) SAFE_TO_FAILOVER_CODES"
  by (simp add: ERROR_POLICIES_def SAFE_TO_FAILOVER_CODES_def)

text \<open>A property of the policy of every code follows from the rows of the table and the default:
  the code's row decides, with the permission set by membership in the list of safe codes.\<close>

lemma policy_for_cases:
  obtains (row) p where "(code, p) \<in> set ERROR_POLICIES" "row_ok code p"
      "policy_for code = p\<lparr>safe_to_failover := code \<in> set SAFE_TO_FAILOVER_CODES\<rparr>"
  | (unknown) "code \<notin> set SAFE_TO_FAILOVER_CODES" "policy_for code = UNKNOWN_ERROR_POLICY"
proof (cases "map_of ERROR_POLICIES code")
  case None
  then have "code \<notin> set (map fst ERROR_POLICIES)" by (simp add: map_of_eq_None_iff)
  with safe_codes_known have "code \<notin> set SAFE_TO_FAILOVER_CODES"
    by (auto simp only: list_all_iff)
  with None show ?thesis by (intro unknown) (simp_all add: policy_for_def)
next
  case (Some p)
  then have mem: "(code, p) \<in> set ERROR_POLICIES" by (rule map_of_SomeD)
  with rows_ok have ok: "row_ok code p" by (auto simp only: list_all_iff split: prod.splits)
  then have "\<not> safe_to_failover p" by (simp add: row_ok_def)
  with Some mem ok show ?thesis by (intro row) (auto simp: policy_for_def)
qed

lemma policy_for_safe_iff:
  "safe_to_failover (policy_for code) \<longleftrightarrow> code \<in> set SAFE_TO_FAILOVER_CODES"
  by (cases code rule: policy_for_cases) (simp_all add: UNKNOWN_ERROR_POLICY_def)

lemma policy_for_retry_delays:
  "retry_delays_s (policy_for code) \<noteq> [] \<Longrightarrow>
     retry_delays_s (policy_for code) = BACKOFF_DELAYS_S \<and> code \<notin> set SAFE_TO_FAILOVER_CODES
     \<and> delay_s (policy_for code) = None \<and> \<not> pause_queues (policy_for code)"
  by (cases code rule: policy_for_cases) (simp_all add: row_ok_def UNKNOWN_ERROR_POLICY_def)

lemma policy_for_delay:
  "delay_s (policy_for code) \<noteq> None \<Longrightarrow>
     code \<notin> set SAFE_TO_FAILOVER_CODES \<and> \<not> pause_queues (policy_for code)"
  by (cases code rule: policy_for_cases) (simp_all add: row_ok_def UNKNOWN_ERROR_POLICY_def)

lemma policy_for_balance_pauses:
  "balance_blocked (policy_for code) \<Longrightarrow> code = 999 \<and> pause_queues (policy_for code)"
  by (cases code rule: policy_for_cases) (simp_all add: row_ok_def UNKNOWN_ERROR_POLICY_def)

lemma pausing_codes:
  "map fst (filter (\<lambda>(c, p). pause_queues p) ERROR_POLICIES) = [999, 1000, 1009, 5000, 10003, 10004]"
  by (simp add: ERROR_POLICIES_def)

lemma policy_for_pauses_iff:
  "pause_queues (policy_for c) \<longleftrightarrow> c \<in> {999, 1000, 1009, 5000, 10003, 10004}"
proof
  assume "pause_queues (policy_for c)"
  then show "c \<in> {999, 1000, 1009, 5000, 10003, 10004}"
  proof (cases c rule: policy_for_cases)
    case (row p)
    with \<open>pause_queues (policy_for c)\<close>
    have "c \<in> set (map fst (filter (\<lambda>(c, p). pause_queues p) ERROR_POLICIES))" by force
    then show ?thesis unfolding pausing_codes by simp
  next
    case unknown
    with \<open>pause_queues (policy_for c)\<close> show ?thesis by (simp add: UNKNOWN_ERROR_POLICY_def)
  qed
next
  assume "c \<in> {999, 1000, 1009, 5000, 10003, 10004}"
  then show "pause_queues (policy_for c)"
    by (elim insertE emptyE) (simp_all add: policy_for_def ERROR_POLICIES_def Let_def)
qed

end
