(* ===== verification/Vendor_Routing.thy ===== *)
theory Vendor_Routing
  imports Prelude
begin

text \<open>
  The router of src/backend/app/vendor/routing.py: the registry row of a provider, the recorded
  attempts, the health snapshot, and \<open>decide\<close>, which picks the next provider or refuses. The
  lemmas show that a chunk with a submitted, uncertain or in-flight attempt is never routed again,
  and that an invocation goes to the first healthy registered provider not tried before.
\<close>

section \<open>Model\<close>

datatype attempt_outcome =
    A_not_invoked | A_rejected | A_submitted | A_uncertain | A_failed | A_retry_scheduled
  | A_delayed | A_paused | A_stale | A_invoking | A_cancelled_before_invoke | A_inconsistent

definition lower_alpha :: "char \<Rightarrow> bool" where
  "lower_alpha c \<longleftrightarrow> 97 \<le> (of_char c :: nat) \<and> (of_char c :: nat) \<le> 122"

definition ascii_digit :: "char \<Rightarrow> bool" where
  "ascii_digit c \<longleftrightarrow> 48 \<le> (of_char c :: nat) \<and> (of_char c :: nat) \<le> 57"

text \<open>The pattern \<^verbatim>\<open>^[a-z][a-z0-9_]{0,31}$\<close> under \<open>fullmatch\<close>.\<close>

definition VENDOR_ID_PATTERN :: "string \<Rightarrow> bool" where
  "VENDOR_ID_PATTERN s =
     (case s of [] \<Rightarrow> False
      | c # cs \<Rightarrow> lower_alpha c \<and> length cs \<le> 31
          \<and> list_all (\<lambda>d. lower_alpha d \<or> ascii_digit d \<or> d = CHR ''_'') cs)"

definition PRIMARY_VENDOR_ID :: string where
  "PRIMARY_VENDOR_ID = ''zhihui''"

definition ROUTE_POLICY_VERSION :: int where
  "ROUTE_POLICY_VERSION = 1"

definition IRREVERSIBLE_OUTCOMES :: "attempt_outcome list" where
  "IRREVERSIBLE_OUTCOMES = [A_submitted, A_uncertain, A_invoking]"

definition HOLD_OUTCOMES :: "attempt_outcome list" where
  "HOLD_OUTCOMES = [A_retry_scheduled, A_delayed, A_paused]"

definition validate_vendor_id :: "string \<Rightarrow> string res" where
  "validate_vendor_id v =
     (if VENDOR_ID_PATTERN v then Inr v else Inl (ValueError ''vendor_id is invalid''))"

record VendorRecord =
  vr_vendor_id :: string
  vr_enabled :: bool
  vr_categories :: "string list"
  vr_adapter :: string
  vr_token_bucket_key :: string
  vr_pause_prefix :: string
  vr_credential_domain :: string

record VendorAttempt =
  va_vendor_id :: string
  va_generation :: int
  va_outcome :: attempt_outcome
  va_safe_to_failover :: bool
  va_vendor_code :: "int option"

record VendorHealth =
  vh_vendor_id :: string
  vh_available :: bool
  vh_pause_reason :: "string option"

record RouteRequest =
  rq_registered :: "string list"
  rq_attempts :: "VendorAttempt list"
  rq_health :: "VendorHealth list"
  rq_category :: string
  rq_policy_version :: int

datatype route_action = R_invoke | R_hold | R_terminal_uncertain | R_terminal_failed | R_exhausted

record RouteDecision =
  rd_action :: route_action
  rd_vendor_id :: "string option"
  rd_reason :: string
  rd_generation :: int
  rd_policy_version :: int

text \<open>The positional construction \<open>RouteDecision(action, vendor_id, reason, generation)\<close>, with the
  default policy version.\<close>

definition route_decision :: "route_action \<Rightarrow> string option \<Rightarrow> string \<Rightarrow> int \<Rightarrow> RouteDecision" where
  "route_decision a v r g = \<lparr>rd_action = a, rd_vendor_id = v, rd_reason = r, rd_generation = g,
     rd_policy_version = ROUTE_POLICY_VERSION\<rparr>"

definition default_vendor_registry :: "VendorRecord list" where
  "default_vendor_registry =
     [\<lparr>vr_vendor_id = PRIMARY_VENDOR_ID, vr_enabled = True,
       vr_categories = [''verify'', ''notice'', ''market''], vr_adapter = ''zhihui'',
       vr_token_bucket_key = ''ratelimit:vendor'', vr_pause_prefix = ''queue:paused'',
       vr_credential_domain = ''zhihui''\<rparr>]"

definition report_may_apply :: "string \<Rightarrow> string \<Rightarrow> string list \<Rightarrow> bool res" where
  "report_may_apply report_vendor_id selected_vendor irreversible_vendors =
     rbind (validate_vendor_id report_vendor_id) (\<lambda>report.
     rbind (validate_vendor_id selected_vendor) (\<lambda>selected.
       Inr (if report \<in> set irreversible_vendors then True
            else irreversible_vendors = [] \<and> report = selected)))"

definition irreversible_attempts :: "VendorAttempt list \<Rightarrow> VendorAttempt list" where
  "irreversible_attempts as = filter (\<lambda>a. va_outcome a \<in> set IRREVERSIBLE_OUTCOMES) as"

text \<open>The provider ids the candidate list leaves out: rejected (safely or not) and skipped.\<close>

definition hard_failed :: "VendorAttempt list \<Rightarrow> string list" where
  "hard_failed as =
     map va_vendor_id (filter (\<lambda>a. va_outcome a = A_rejected \<and> \<not> va_safe_to_failover a) as)"

definition safe_rejected :: "VendorAttempt list \<Rightarrow> string list" where
  "safe_rejected as =
     map va_vendor_id (filter (\<lambda>a. va_outcome a = A_rejected \<and> va_safe_to_failover a) as)"

definition skipped :: "VendorAttempt list \<Rightarrow> string list" where
  "skipped as = map va_vendor_id (filter (\<lambda>a. va_outcome a = A_not_invoked) as)"

definition route_candidates ::
  "string list \<Rightarrow> string list \<Rightarrow> VendorAttempt list \<Rightarrow> string list" where
  "route_candidates registered available as =
     filter (\<lambda>v. v \<in> set available \<and> v \<notin> set (hard_failed as) \<and> v \<notin> set (safe_rejected as)
                \<and> v \<notin> set (skipped as)) registered"

text \<open>The end of \<open>decide\<close>, after the early returns: choose among the candidates.\<close>

definition choose_candidate ::
  "string list \<Rightarrow> VendorAttempt option \<Rightarrow> string list \<Rightarrow> RouteDecision" where
  "choose_candidate registered previous candidates =
     (let generation = (case previous of Some p \<Rightarrow> va_generation p + 1 | None \<Rightarrow> 1) in
      case candidates of
        [] \<Rightarrow> (case previous of
                 Some p \<Rightarrow>
                   if va_outcome p = A_rejected
                   then route_decision R_terminal_failed (Some (va_vendor_id p))
                          ''failover_exhausted'' (va_generation p)
                   else route_decision R_exhausted None ''no_available_vendor'' generation
               | None \<Rightarrow> route_decision R_exhausted None ''no_available_vendor'' generation)
      | chosen # _ \<Rightarrow>
          (let reason =
             (case previous of
                None \<Rightarrow> if chosen = hd registered then ''primary'' else ''pre_invoke_unavailable''
              | Some p \<Rightarrow> if va_outcome p = A_rejected \<and> va_safe_to_failover p
                          then ''safe_failover'' else ''pre_invoke_unavailable'')
           in route_decision R_invoke (Some chosen) reason generation))"

definition decide :: "RouteRequest \<Rightarrow> RouteDecision res" where
  "decide request =
     rbind (traverse validate_vendor_id (rq_registered request)) (\<lambda>registered.
       if registered = [] then Inr (route_decision R_exhausted None ''empty_registry'' 0)
       else case last_opt (irreversible_attempts (rq_attempts request)) of
         Some lst \<Rightarrow>
           Inr (if va_outcome lst \<in> {A_uncertain, A_invoking}
                then route_decision R_terminal_uncertain (Some (va_vendor_id lst))
                       (if va_outcome lst = A_uncertain then ''uncertain_blocks_failover''
                        else ''invoking_blocks_failover'') (va_generation lst)
                else route_decision R_terminal_failed (Some (va_vendor_id lst))
                       ''already_submitted'' (va_generation lst))
       | None \<Rightarrow>
           (let previous = last_opt (rq_attempts request);
                scan = rbind (traverse validate_vendor_id
                               (map vh_vendor_id (filter vh_available (rq_health request))))
                         (\<lambda>available. Inr (choose_candidate registered previous
                            (route_candidates registered available (rq_attempts request))))
            in case previous of
                 None \<Rightarrow> scan
               | Some p \<Rightarrow>
                   if va_outcome p \<in> set HOLD_OUTCOMES
                   then Inr (route_decision R_invoke (Some (va_vendor_id p)) ''same_vendor_retry''
                               (va_generation p + 1))
                   else if va_outcome p = A_rejected \<and> \<not> va_safe_to_failover p
                   then Inr (route_decision R_terminal_failed (Some (va_vendor_id p))
                               ''failover_exhausted'' (va_generation p))
                   else scan))"

text \<open>The router keeps a non-empty validated registry; a request without one borrows it.\<close>

definition vendor_router :: "string list option \<Rightarrow> string list res" where
  "vendor_router registered =
     traverse validate_vendor_id
       (case registered of None \<Rightarrow> [PRIMARY_VENDOR_ID]
        | Some vs \<Rightarrow> if vs = [] then [PRIMARY_VENDOR_ID] else vs)"

definition router_decide :: "string list \<Rightarrow> RouteRequest \<Rightarrow> RouteDecision res" where
  "router_decide own request =
     (if rq_registered request \<noteq> [] then decide request
      else decide (request\<lparr>rq_registered := own\<rparr>))"

section \<open>Lemmas\<close>

lemma validate_vendor_id_Inr [simp]:
  "validate_vendor_id v = Inr w \<longleftrightarrow> VENDOR_ID_PATTERN v \<and> w = v"
  by (auto simp: validate_vendor_id_def)

lemma traverse_validate_vendor_id:
  "traverse validate_vendor_id vs = Inr ws \<longleftrightarrow> ws = vs \<and> list_all VENDOR_ID_PATTERN vs"
  by (subst traverse_id_iff) (auto simp: list_all_iff)

lemma route_decision_sel [simp]:
  "rd_action (route_decision a v r g) = a"
  "rd_vendor_id (route_decision a v r g) = v"
  "rd_reason (route_decision a v r g) = r"
  "rd_generation (route_decision a v r g) = g"
  "rd_policy_version (route_decision a v r g) = ROUTE_POLICY_VERSION"
  by (simp_all add: route_decision_def)

lemma irreversible_attempts_Nil [simp]:
  "irreversible_attempts as = [] \<longleftrightarrow> (\<forall>a\<in>set as. va_outcome a \<notin> set IRREVERSIBLE_OUTCOMES)"
  by (simp add: irreversible_attempts_def filter_empty_conv)

lemma set_route_candidates:
  "v \<in> set (route_candidates registered available as) \<longleftrightarrow>
     v \<in> set registered \<and> v \<in> set available
     \<and> (\<forall>a\<in>set as. va_vendor_id a = v \<longrightarrow> va_outcome a \<noteq> A_rejected \<and> va_outcome a \<noteq> A_not_invoked)"
  by (auto simp: route_candidates_def hard_failed_def safe_rejected_def skipped_def)

lemma route_candidates_eq:
  "route_candidates registered available as = filter (\<lambda>v. v \<in> set available
     \<and> (\<forall>a\<in>set as. va_vendor_id a = v \<longrightarrow> va_outcome a \<noteq> A_rejected \<and> va_outcome a \<noteq> A_not_invoked))
     registered"
  unfolding route_candidates_def hard_failed_def safe_rejected_def skipped_def
  by (rule filter_cong) auto

lemma choose_candidate_invoke:
  "rd_action (choose_candidate registered previous cs) = R_invoke \<longleftrightarrow> cs \<noteq> []"
  "cs = c # cs' \<Longrightarrow> rd_vendor_id (choose_candidate registered previous cs) = Some c"
  "cs \<noteq> [] \<Longrightarrow> rd_generation (choose_candidate registered previous cs)
     = (case previous of Some p \<Rightarrow> va_generation p + 1 | None \<Rightarrow> 1)"
  by (auto simp: choose_candidate_def Let_def split: list.splits option.splits)

text \<open>The three ways in which \<open>decide\<close> answers: refuse because of an irreversible attempt, retry
  on the same provider, or choose among the untried healthy ones.\<close>

lemma decide_irreversible:
  assumes "decide request = Inr d" and "rq_registered request \<noteq> []"
    and "irreversible_attempts (rq_attempts request) \<noteq> []"
  shows "rd_action d \<in> {R_terminal_uncertain, R_terminal_failed}"
    and "rd_vendor_id d = Some (va_vendor_id (last (irreversible_attempts (rq_attempts request))))"
proof -
  have "last_opt (irreversible_attempts (rq_attempts request))
      = Some (last (irreversible_attempts (rq_attempts request)))"
    using assms(3) by (simp add: last_opt_def del: irreversible_attempts_Nil)
  with assms(1,2) show "rd_action d \<in> {R_terminal_uncertain, R_terminal_failed}"
    and "rd_vendor_id d = Some (va_vendor_id (last (irreversible_attempts (rq_attempts request))))"
    by (auto simp: decide_def res_simps traverse_validate_vendor_id split: if_splits)
qed

lemma decide_invoke_cases:
  assumes "decide request = Inr d" and "rd_action d = R_invoke"
  obtains (retry) p where "last_opt (rq_attempts request) = Some p"
      "va_outcome p \<in> set HOLD_OUTCOMES" "rd_vendor_id d = Some (va_vendor_id p)"
      "rd_generation d = va_generation p + 1"
  | (candidate) v vs available where
      "route_candidates (rq_registered request) available (rq_attempts request) = v # vs"
      "available = map vh_vendor_id (filter vh_available (rq_health request))"
      "rd_vendor_id d = Some v"
      "rd_generation d = (case last_opt (rq_attempts request) of
         Some p \<Rightarrow> va_generation p + 1 | None \<Rightarrow> 1)"
proof -
  let ?av = "map vh_vendor_id (filter vh_available (rq_health request))"
  let ?cs = "route_candidates (rq_registered request) ?av (rq_attempts request)"
  let ?prev = "last_opt (rq_attempts request)"
  from assms have "(\<exists>p. ?prev = Some p \<and> va_outcome p \<in> set HOLD_OUTCOMES
        \<and> d = route_decision R_invoke (Some (va_vendor_id p)) ''same_vendor_retry''
                (va_generation p + 1))
      \<or> d = choose_candidate (rq_registered request) ?prev ?cs"
    by (auto simp: decide_def res_simps traverse_validate_vendor_id Let_def
             split: option.splits if_splits)
  then show thesis
  proof (elim disjE exE conjE)
    fix p
    assume "?prev = Some p" "va_outcome p \<in> set HOLD_OUTCOMES"
      "d = route_decision R_invoke (Some (va_vendor_id p)) ''same_vendor_retry'' (va_generation p + 1)"
    then show thesis by (intro retry) simp_all
  next
    assume d: "d = choose_candidate (rq_registered request) ?prev ?cs"
    with assms(2) have "?cs \<noteq> []" by (simp add: choose_candidate_invoke)
    then obtain v vs where cs: "?cs = v # vs" by (cases ?cs) auto
    show thesis
      by (rule candidate [OF cs refl]) (simp_all add: d cs choose_candidate_invoke)
  qed
qed

lemma decide_no_irreversible:
  assumes "decide request = Inr d" and "rd_action d = R_invoke"
  shows "\<forall>a\<in>set (rq_attempts request). va_outcome a \<notin> {A_submitted, A_uncertain, A_invoking}"
proof (rule ccontr)
  assume "\<not> ?thesis"
  then have ne: "irreversible_attempts (rq_attempts request) \<noteq> []"
    by (auto simp: IRREVERSIBLE_OUTCOMES_def)
  have "rq_registered request \<noteq> []"
    using assms by (auto simp: decide_def)
  from decide_irreversible(1) [OF assms(1) this ne] assms(2) show False by auto
qed

section \<open>Properties\<close>





end
