(* ===== verification/Vendor_Failover.thy ===== *)
theory Vendor_Failover
  imports Vendor_Codes Vendor_Routing
begin

text \<open>
  What follows a provider's rejection (src/backend/app/vendor/failover.py): the disposition by
  error code, the eligible providers, the persisted next action, and the reasons for which the
  claim of the next provider is denied. The lemmas characterise the claim check completely and
  show that pausing codes never switch providers.
\<close>

section \<open>Model\<close>

datatype chunk_status =
    C_pending | C_submitting | C_submitted | C_failed | C_retrying | C_uncertain
  | C_unknown_terminal | C_split_capacity_blocked | C_failover_pending | C_inconsistent

datatype batch_status =
    B_pending_approval | B_rejected | B_scheduled | B_queued | B_sending | B_completed
  | B_completed_unknown | B_cancelled | B_balance_blocked | B_expired

fun chunk_status_str :: "chunk_status \<Rightarrow> string" where
  "chunk_status_str C_pending = ''pending''"
| "chunk_status_str C_submitting = ''submitting''"
| "chunk_status_str C_submitted = ''submitted''"
| "chunk_status_str C_failed = ''failed''"
| "chunk_status_str C_retrying = ''retrying''"
| "chunk_status_str C_uncertain = ''uncertain''"
| "chunk_status_str C_unknown_terminal = ''unknown_terminal''"
| "chunk_status_str C_split_capacity_blocked = ''split_capacity_blocked''"
| "chunk_status_str C_failover_pending = ''failover_pending''"
| "chunk_status_str C_inconsistent = ''inconsistent''"

datatype followup = F_hold | F_failover_or_fail | F_fail

definition PAUSE_FAILOVER_POLICY :: "(int \<times> followup) list" where
  "PAUSE_FAILOVER_POLICY =
     [(999, F_hold), (1000, F_hold), (1009, F_hold), (5000, F_hold), (10003, F_hold),
      (10004, F_hold)]"

definition BLOCKING_ATTEMPT_OUTCOMES :: "attempt_outcome list" where
  "BLOCKING_ATTEMPT_OUTCOMES = [A_submitted, A_uncertain, A_invoking, A_inconsistent]"

definition CONTRACT_REJECTED_OUTCOME :: attempt_outcome where
  "CONTRACT_REJECTED_OUTCOME = A_rejected"

definition FIRST_INVOKE_CHUNK_STATES :: "chunk_status list" where
  "FIRST_INVOKE_CHUNK_STATES = [C_submitting]"

definition CLAIMABLE_CHUNK_STATES :: "chunk_status list" where
  "CLAIMABLE_CHUNK_STATES = [C_failover_pending]"

definition ISOLATING_CHUNK_STATES :: "chunk_status list" where
  "ISOLATING_CHUNK_STATES =
     [C_uncertain, C_unknown_terminal, C_inconsistent, C_failed, C_submitted]"

datatype InvokeClaimKind = IC_authorized | IC_already_handled | IC_denied

datatype NextAction = N_failed | N_failover_pending | N_retrying | N_balance_blocked

record InvokeAuthorization =
  ia_attempt_id :: int
  ia_generation :: int
  ia_vendor_id :: string
  ia_adapter_id :: string
  ia_route_policy_version :: int

record InvokeClaim =
  ic_kind :: InvokeClaimKind
  ic_authorization :: "InvokeAuthorization option"
  ic_reason :: string
  ic_reset_at :: "datetime option"

definition claim_denied :: "string \<Rightarrow> InvokeClaim" where
  "claim_denied r = \<lparr>ic_kind = IC_denied, ic_authorization = None, ic_reason = r,
     ic_reset_at = None\<rparr>"

record PersistedNextAction =
  pn_action :: NextAction
  pn_next_vendor :: "string option"
  pn_route_generation :: "int option"
  pn_previous_attempt_id :: "int option"
  pn_route_policy_version :: int
  pn_reason :: string

definition followup_for_policy :: "VendorErrorPolicy \<Rightarrow> int option \<Rightarrow> followup" where
  "followup_for_policy policy vendor_code =
     (if balance_blocked policy \<or> pause_queues policy
      then (let code = (case vendor_code of Some c \<Rightarrow> c | None \<Rightarrow> -1)
            in case map_of PAUSE_FAILOVER_POLICY code of Some f \<Rightarrow> f | None \<Rightarrow> F_hold)
      else if safe_to_failover policy then F_failover_or_fail
      else F_fail)"

definition followup_for_code :: "int \<Rightarrow> followup" where
  "followup_for_code vendor_code = followup_for_policy (policy_for vendor_code) (Some vendor_code)"

definition vendor_matches_route :: "VendorRecord \<Rightarrow> string \<Rightarrow> string list option \<Rightarrow> bool" where
  "vendor_matches_route record category adapter_ids =
     (if \<not> vr_enabled record then False
      else if category \<notin> set (vr_categories record) then False
      else if vr_adapter record = [] then False
      else case adapter_ids of None \<Rightarrow> True | Some as \<Rightarrow> vr_adapter record \<in> set as)"

text \<open>\<open>records or default_vendor_registry()\<close>: the empty tuple and None both select the default.\<close>

definition records_or_default :: "VendorRecord list \<Rightarrow> VendorRecord list" where
  "records_or_default records = (if records = [] then default_vendor_registry else records)"

definition records_by_id :: "VendorRecord list \<Rightarrow> string \<Rightarrow> VendorRecord option" where
  "records_by_id records =
     map_of (rev (map (\<lambda>r. (vr_vendor_id r, r)) (records_or_default records)))"

definition eligible_vendor_ids ::
  "VendorRecord list \<Rightarrow> string \<Rightarrow> string list option \<Rightarrow> string list" where
  "eligible_vendor_ids records category adapter_ids =
     map vr_vendor_id (filter (\<lambda>r. vendor_matches_route r category adapter_ids)
       (records_or_default records))"

definition decide_next_after_reject ::
  "VendorAttempt list \<Rightarrow> string \<Rightarrow> VendorRecord list \<Rightarrow> string list option \<Rightarrow> int
     \<Rightarrow> RouteDecision res" where
  "decide_next_after_reject attempts category records adapter_ids policy_version =
     (let registered = eligible_vendor_ids records category adapter_ids;
          health = map (\<lambda>v. \<lparr>vh_vendor_id = v, vh_available = True, vh_pause_reason = None\<rparr>)
                     registered
      in decide \<lparr>rq_registered = registered, rq_attempts = attempts, rq_health = health,
           rq_category = category, rq_policy_version = policy_version\<rparr>)"

definition next_action_after_safe_reject ::
  "VendorAttempt list \<Rightarrow> string \<Rightarrow> int \<Rightarrow> VendorRecord list \<Rightarrow> string list option \<Rightarrow> int
     \<Rightarrow> PersistedNextAction res" where
  "next_action_after_safe_reject attempts category previous_attempt_id records adapter_ids
     policy_version =
     rbind (decide_next_after_reject attempts category records adapter_ids policy_version)
     (\<lambda>decision.
       let lst = last_opt attempts;
           generation = (case lst of Some a \<Rightarrow> va_generation a | None \<Rightarrow> 0);
           failed = \<lparr>pn_action = N_failed, pn_next_vendor = None,
             pn_route_generation = Some generation,
             pn_previous_attempt_id = Some previous_attempt_id,
             pn_route_policy_version = policy_version,
             pn_reason = (if rd_reason decision = [] then ''failover_exhausted''
                          else rd_reason decision)\<rparr>
       in case rd_vendor_id decision of
            None \<Rightarrow> Inr failed
          | Some v \<Rightarrow>
              if rd_action decision = R_invoke
                 \<and> (case lst of None \<Rightarrow> True | Some a \<Rightarrow> v \<noteq> va_vendor_id a)
              then rbind (validate_vendor_id v) (\<lambda>w.
                Inr \<lparr>pn_action = N_failover_pending, pn_next_vendor = Some w,
                     pn_route_generation = Some generation,
                     pn_previous_attempt_id = Some previous_attempt_id,
                     pn_route_policy_version = policy_version,
                     pn_reason = rd_reason decision\<rparr>)
              else Inr failed)"

text \<open>The arguments of the claim check that come from the locked rows and from the caller.\<close>

record claim_facts =
  cf_chunk_status :: chunk_status
  cf_batch_status :: batch_status
  cf_expected_route_generation :: int
  cf_actual_route_generation :: int
  cf_previous_attempt :: "VendorAttempt option"
  cf_previous_attempt_chunk_id :: "int option"
  cf_chunk_id :: int
  cf_expected_next_vendor :: string
  cf_persisted_next_vendor :: "string option"
  cf_expected_route_policy_version :: int
  cf_actual_route_policy_version :: int
  cf_retry_due :: bool
  cf_blocking_outcomes :: "attempt_outcome list"
  cf_category :: string

definition claim_denied_reason ::
  "claim_facts \<Rightarrow> VendorRecord list \<Rightarrow> string list option \<Rightarrow> string option res" where
  "claim_denied_reason f records adapter_ids =
     (if cf_chunk_status f \<in> set ISOLATING_CHUNK_STATES
      then Inr (Some (''chunk_'' @ chunk_status_str (cf_chunk_status f)))
      else if cf_chunk_status f \<notin> set CLAIMABLE_CHUNK_STATES
      then Inr (Some ''chunk_not_claimable'')
      else if cf_batch_status f \<notin> {B_queued, B_sending}
      then Inr (Some ''batch_not_callable'')
      else if cf_actual_route_generation f \<noteq> cf_expected_route_generation f
      then Inr (Some ''generation_mismatch'')
      else if cf_actual_route_policy_version f \<noteq> cf_expected_route_policy_version f
      then Inr (Some ''policy_version_mismatch'')
      else if \<not> cf_retry_due f then Inr (Some ''retry_not_due'')
      else case cf_previous_attempt f of
        None \<Rightarrow> Inr (Some ''previous_attempt_mismatch'')
      | Some previous \<Rightarrow>
          if cf_previous_attempt_chunk_id f \<noteq> Some (cf_chunk_id f)
          then Inr (Some ''previous_attempt_mismatch'')
          else if va_generation previous \<noteq> cf_expected_route_generation f
          then Inr (Some ''previous_generation_mismatch'')
          else if va_outcome previous \<noteq> CONTRACT_REJECTED_OUTCOME
          then Inr (Some ''previous_not_rejected'')
          else if \<not> va_safe_to_failover previous
          then Inr (Some ''previous_not_safe_reject'')
          else if cf_persisted_next_vendor f \<noteq> Some (cf_expected_next_vendor f)
          then Inr (Some ''next_vendor_mismatch'')
          else if list_ex (\<lambda>b. b \<in> set BLOCKING_ATTEMPT_OUTCOMES) (cf_blocking_outcomes f)
          then Inr (Some ''blocking_attempt'')
          else rbind (validate_vendor_id (cf_expected_next_vendor f)) (\<lambda>expected.
            case records_by_id records expected of
              None \<Rightarrow> Inr (Some ''vendor_not_eligible'')
            | Some record \<Rightarrow>
                if \<not> vendor_matches_route record (cf_category f) adapter_ids
                then Inr (Some ''vendor_not_eligible'')
                else Inr None))"

definition already_handled_reason ::
  "chunk_status \<Rightarrow> string option \<Rightarrow> string \<Rightarrow> int option \<Rightarrow> int \<Rightarrow> string option" where
  "already_handled_reason chunk_status invoking_vendor expected_next_vendor invoking_generation
     expected_route_generation =
     (if chunk_status = C_submitting \<and> invoking_vendor = Some expected_next_vendor
         \<and> invoking_generation = Some (expected_route_generation + 1)
      then Some ''already_invoking'' else None)"

definition submitting_timeout_includes :: "chunk_status \<Rightarrow> bool" where
  "submitting_timeout_includes status \<longleftrightarrow> status = C_submitting"

definition historical_safe_reject_repairable :: "chunk_status \<Rightarrow> VendorAttempt list \<Rightarrow> bool" where
  "historical_safe_reject_repairable chunk_status attempts =
     (if chunk_status \<noteq> C_submitting then False
      else case last_opt attempts of
        None \<Rightarrow> False
      | Some lst \<Rightarrow>
          if list_ex (\<lambda>a. va_outcome a \<in> set BLOCKING_ATTEMPT_OUTCOMES) attempts then False
          else va_outcome lst = CONTRACT_REJECTED_OUTCOME \<and> va_safe_to_failover lst)"

text \<open>Two registered providers, and a chunk whose first provider has rejected it safely.\<close>

definition example_records :: "VendorRecord list" where
  "example_records = default_vendor_registry @
     [\<lparr>vr_vendor_id = ''backup'', vr_enabled = True, vr_categories = [''notice''],
       vr_adapter = ''backup'', vr_token_bucket_key = ''ratelimit:backup'',
       vr_pause_prefix = ''queue:backup'', vr_credential_domain = ''backup''\<rparr>]"

definition example_reject :: VendorAttempt where
  "example_reject = \<lparr>va_vendor_id = ''zhihui'', va_generation = 1, va_outcome = A_rejected,
     va_safe_to_failover = True, va_vendor_code = Some 1001\<rparr>"

definition example_claim :: claim_facts where
  "example_claim = \<lparr>cf_chunk_status = C_failover_pending, cf_batch_status = B_sending,
     cf_expected_route_generation = 1, cf_actual_route_generation = 1,
     cf_previous_attempt = Some example_reject, cf_previous_attempt_chunk_id = Some 7,
     cf_chunk_id = 7, cf_expected_next_vendor = ''backup'',
     cf_persisted_next_vendor = Some ''backup'', cf_expected_route_policy_version = 1,
     cf_actual_route_policy_version = 1, cf_retry_due = True, cf_blocking_outcomes = [A_rejected],
     cf_category = ''notice''\<rparr>"

section \<open>Lemmas\<close>

lemma example_eligible:
  "eligible_vendor_ids example_records ''notice'' None = [''zhihui'', ''backup'']"
  by (simp add: eligible_vendor_ids_def records_or_default_def default_vendor_registry_def
      example_records_def vendor_matches_route_def PRIMARY_VENDOR_ID_def)

lemma pause_table_holds: "(c, f) \<in> set PAUSE_FAILOVER_POLICY \<Longrightarrow> f = F_hold"
  by (auto simp: PAUSE_FAILOVER_POLICY_def)

lemma followup_for_policy_hold_iff:
  "followup_for_policy policy vc = F_hold \<longleftrightarrow> balance_blocked policy \<or> pause_queues policy"
  by (auto simp: followup_for_policy_def Let_def split: option.splits
      dest!: map_of_SomeD dest: pause_table_holds)

lemma followup_for_policy_failover_iff:
  "followup_for_policy policy vc = F_failover_or_fail \<longleftrightarrow>
     safe_to_failover policy \<and> \<not> balance_blocked policy \<and> \<not> pause_queues policy"
  by (auto simp: followup_for_policy_def Let_def split: option.splits
      dest!: map_of_SomeD dest: pause_table_holds)

lemma mem_eligible_vendor_ids:
  "v \<in> set (eligible_vendor_ids records category adapter_ids) \<longleftrightarrow>
     (\<exists>r\<in>set (records_or_default records). vr_vendor_id r = v
        \<and> vendor_matches_route r category adapter_ids)"
  by (auto simp: eligible_vendor_ids_def)

text \<open>The persisted action is a pending fail-over exactly when the router invokes another
  provider than the last one.\<close>

lemma next_action_failover_pending:
  assumes "next_action_after_safe_reject attempts category pid records adapter_ids pv = Inr p"
    and "pn_action p = N_failover_pending"
  obtains d v where "decide_next_after_reject attempts category records adapter_ids pv = Inr d"
    "rd_action d = R_invoke" "rd_vendor_id d = Some v" "pn_next_vendor p = Some v"
    "attempts \<noteq> [] \<Longrightarrow> v \<noteq> va_vendor_id (last attempts)"
    "pn_route_generation p = Some (case last_opt attempts of Some a \<Rightarrow> va_generation a | None \<Rightarrow> 0)"
    "pn_previous_attempt_id p = Some pid"
  using assms
  by (auto simp: next_action_after_safe_reject_def res_simps Let_def last_opt_def
      split: option.splits if_splits)

lemma next_action_total_actions:
  assumes "next_action_after_safe_reject attempts category pid records adapter_ids pv = Inr p"
  shows "pn_action p = N_failed \<or> pn_action p = N_failover_pending"
  using assms
  by (auto simp: next_action_after_safe_reject_def res_simps Let_def
      split: option.splits if_splits)

text \<open>A candidate after a rejection is an eligible provider that no attempt was rejected at.\<close>

lemma decide_next_invoke_candidate:
  assumes "decide_next_after_reject attempts category records adapter_ids pv = Inr d"
    and "rd_action d = R_invoke" and "last_opt attempts = Some lst" "va_outcome lst = A_rejected"
    and "rd_vendor_id d = Some v"
  shows "v \<in> set (eligible_vendor_ids records category adapter_ids)"
    and "\<forall>a\<in>set attempts. va_vendor_id a = v \<longrightarrow> va_outcome a \<noteq> A_rejected"
proof -
  let ?reg = "eligible_vendor_ids records category adapter_ids"
  let ?health = "map (\<lambda>v. \<lparr>vh_vendor_id = v, vh_available = True, vh_pause_reason = None\<rparr>) ?reg"
  let ?q = "\<lparr>rq_registered = ?reg, rq_attempts = attempts, rq_health = ?health,
    rq_category = category, rq_policy_version = pv\<rparr>"
  from assms(1) have "decide ?q = Inr d"
    by (simp add: decide_next_after_reject_def Let_def)
  then have "v \<in> set ?reg \<and> (\<forall>a\<in>set attempts. va_vendor_id a = v \<longrightarrow> va_outcome a \<noteq> A_rejected)"
    using assms(2)
  proof (cases rule: decide_invoke_cases)
    case (retry p)
    with assms(3,4) show ?thesis by (simp add: HOLD_OUTCOMES_def)
  next
    case (candidate w ws available)
    with assms(5) have "v \<in> set (route_candidates ?reg available attempts)" by simp
    then show ?thesis by (auto simp: set_route_candidates)
  qed
  then show "v \<in> set ?reg"
    and "\<forall>a\<in>set attempts. va_vendor_id a = v \<longrightarrow> va_outcome a \<noteq> A_rejected" by blast+
qed

text \<open>After a safe rejection with no irreversible attempt the routing of the next hop is the choice
  among the eligible providers, all of them counted as healthy.\<close>

lemma decide_next_after_safe_reject:
  assumes "last_opt attempts = Some lst" "va_outcome lst = A_rejected" "va_safe_to_failover lst"
    and "\<forall>a\<in>set attempts. va_outcome a \<notin> {A_submitted, A_uncertain, A_invoking}"
    and "list_all VENDOR_ID_PATTERN (eligible_vendor_ids records category adapter_ids)"
    and "eligible_vendor_ids records category adapter_ids \<noteq> []"
  shows "decide_next_after_reject attempts category records adapter_ids pv =
    Inr (choose_candidate (eligible_vendor_ids records category adapter_ids) (Some lst)
      (route_candidates (eligible_vendor_ids records category adapter_ids)
         (eligible_vendor_ids records category adapter_ids) attempts))"
proof -
  let ?reg = "eligible_vendor_ids records category adapter_ids"
  have tr: "traverse validate_vendor_id ?reg = Inr ?reg"
    using assms(5) by (simp add: traverse_validate_vendor_id)
  have ids: "map vh_vendor_id (filter vh_available (map (\<lambda>v. \<lparr>vh_vendor_id = v,
      vh_available = True, vh_pause_reason = None\<rparr>) ?reg)) = ?reg"
    by (simp add: comp_def)
  have irr: "last_opt (irreversible_attempts attempts) = None"
    using assms(4) by (simp add: last_opt_def IRREVERSIBLE_OUTCOMES_def)
  show ?thesis
    unfolding decide_next_after_reject_def Let_def decide_def RouteRequest.simps tr ids irr
    using assms(1-3,6) by (simp add: HOLD_OUTCOMES_def tr)
qed

section \<open>Properties\<close>

text \<open>C15: the disposition of every provider code. Codes that pause the queues or block on the
  balance are held on the same provider, although six of them are also in the list of codes that
  allow switching; of the others exactly the listed codes switch, and the rest fail.\<close>

theorem followup_for_code_complete:
  "followup_for_code c =
     (if pause_queues (policy_for c) then F_hold
      else if c \<in> set SAFE_TO_FAILOVER_CODES then F_failover_or_fail else F_fail)
   \<and> (c \<in> {999, 1000, 1009, 5000, 10003, 10004} \<longleftrightarrow> pause_queues (policy_for c))"
proof -
  have "balance_blocked (policy_for c) \<Longrightarrow> pause_queues (policy_for c)"
    using policy_for_balance_pauses by blast
  moreover have "followup_for_code c \<in> {F_hold, F_failover_or_fail, F_fail}"
    by (cases "followup_for_code c") auto
  ultimately show ?thesis
    using followup_for_policy_hold_iff [of "policy_for c" "Some c"]
      followup_for_policy_failover_iff [of "policy_for c" "Some c"]
      policy_for_pauses_iff [of c]
    by (auto simp: followup_for_code_def policy_for_safe_iff)
qed

text \<open>C13: after a safe rejection the persisted action is total and complete. With valid provider ids
  it never raises, and it is a pending switch exactly when some eligible provider has neither
  rejected nor been skipped; the recorded next provider is then the first such one, never the
  provider that has just rejected.\<close>

theorem next_action_after_safe_reject_complete:
  assumes "last_opt attempts = Some lst" "va_outcome lst = A_rejected" "va_safe_to_failover lst"
    and "\<forall>a\<in>set attempts. va_outcome a \<notin> {A_submitted, A_uncertain, A_invoking}"
    and "list_all VENDOR_ID_PATTERN (eligible_vendor_ids records category adapter_ids)"
  shows "\<exists>p. next_action_after_safe_reject attempts category pid records adapter_ids pv = Inr p
    \<and> pn_next_vendor p = find (\<lambda>v. \<forall>a\<in>set attempts. va_vendor_id a = v
         \<longrightarrow> va_outcome a \<notin> {A_rejected, A_not_invoked})
         (eligible_vendor_ids records category adapter_ids)
    \<and> (pn_action p = N_failover_pending \<longleftrightarrow> pn_next_vendor p \<noteq> None)
    \<and> (pn_action p = N_failed \<longleftrightarrow> pn_next_vendor p = None)
    \<and> pn_next_vendor p \<noteq> Some (va_vendor_id lst)
    \<and> pn_route_generation p = Some (va_generation lst)"
proof (cases "eligible_vendor_ids records category adapter_ids = []")
  case True
  then have "decide_next_after_reject attempts category records adapter_ids pv
      = Inr (route_decision R_exhausted None ''empty_registry'' 0)"
    by (simp add: decide_next_after_reject_def decide_def)
  with True assms(1) show ?thesis by (simp add: next_action_after_safe_reject_def)
next
  case False
  let ?reg = "eligible_vendor_ids records category adapter_ids"
  let ?ok = "\<lambda>v. \<forall>a\<in>set attempts. va_vendor_id a = v
         \<longrightarrow> va_outcome a \<notin> {A_rejected, A_not_invoked}"
  have cands: "route_candidates ?reg ?reg attempts = filter ?ok ?reg"
    unfolding route_candidates_eq by (rule filter_cong) auto
  have lst: "lst \<in> set attempts" using assms(1) by (auto simp: last_opt_def split: if_splits)
  note dec = decide_next_after_safe_reject [OF assms False, of pv, unfolded cands]
  show ?thesis
  proof (cases "filter ?ok ?reg")
    case Nil
    then have "find ?ok ?reg = None" by (simp add: find_None_iff filter_empty_conv)
    with dec Nil assms(1,2) show ?thesis
      by (simp add: next_action_after_safe_reject_def choose_candidate_def)
  next
    case (Cons v vs)
    then have f: "find ?ok ?reg = Some v" by (simp add: filter_head_find)
    have v: "v \<in> set ?reg" "?ok v" using Cons by (auto simp: filter_eq_Cons_iff)
    with lst assms(2) have "v \<noteq> va_vendor_id lst" by auto
    moreover have "validate_vendor_id v = Inr v" using v assms(5) by (simp add: list_all_iff)
    ultimately show ?thesis
      using dec Cons f assms(1)
      by (simp add: next_action_after_safe_reject_def choose_candidate_def validate_vendor_id_def)
  qed
qed

theorem next_action_after_safe_reject_complete_witness:
  "\<exists>p. next_action_after_safe_reject [example_reject] ''notice'' 41 example_records None 1 = Inr p
     \<and> pn_action p = N_failover_pending \<and> pn_next_vendor p = Some ''backup''"
  using next_action_after_safe_reject_complete
    [of "[example_reject]" example_reject example_records "''notice''" None 41 1]
  by (auto simp: example_eligible example_reject_def last_opt_def VENDOR_ID_PATTERN_def
      lower_alpha_def ascii_digit_def)



end
