(* ===== verification/Database.thy ===== *)
theory Database
  imports Vendor_Failover
begin

text \<open>
  The PostgreSQL tables that the sending path reads and writes (src/schema.sql), one record per row
  and one list per table. A repository method is a function on \<open>db\<close>; a transaction that raises
  leaves the database as it was, so such a method returns \<open>Inl\<close> and no new state. All methods of
  one transaction read the clock \<open>db_now\<close>. Serial keys are drawn above every key of their table,
  random UUIDs from a supply of distinct numbers. Work handed to the callback and usage components
  inside a transaction is recorded in \<open>db_requests\<close>.
\<close>

section \<open>Rows\<close>

record sms_batch =
  b_id :: int
  b_batch_no :: string
  b_app_id :: "int option"
  b_biz_id :: "string option"
  b_status :: batch_status
  b_category :: string
  b_policy_version :: int
  b_reservation_id :: "int option"
  b_segments :: int
  b_usage_reservation_id :: "string option"
  b_delivered :: int
  b_failed :: int
  b_unknown_cnt :: int
  b_active_count :: "int option"
  b_updated_at :: datetime
  b_sign_name :: pystr
  b_content :: pystr
  b_template :: string
  b_is_test :: bool

record sms_chunk =
  c_id :: int
  c_batch_id :: int
  c_chunk_no :: int
  c_custom_id :: string
  c_phone_count :: int
  c_status :: chunk_status
  c_vendor_task_id :: "string option"
  c_vendor_code :: "int option"
  c_vendor_msg :: "string option"
  c_retry_count :: int
  c_attempt_count :: int
  c_retry_not_before :: "datetime option"
  c_submitted_at :: "datetime option"
  c_submitting_since :: "datetime option"
  c_uncertain_since :: "datetime option"
  c_selected_vendor :: string
  c_route_generation :: int
  c_next_vendor :: "string option"
  c_policy_version :: int
  c_failover_from :: "int option"
  c_parent_id :: "int option"
  c_split_generation :: "int option"
  c_child_ordinal :: "int option"

record sms_vendor_attempt =
  a_id :: int
  a_chunk_id :: int
  a_vendor_id :: string
  a_generation :: int
  a_outcome :: attempt_outcome
  a_adapter_id :: string
  a_routing_reason :: "string option"
  a_safe_to_failover :: bool
  a_vendor_code :: "int option"
  a_invoke_started_at :: "datetime option"

datatype message_status = M_pending | M_sent | M_delivered | M_failed | M_unknown | M_other

record sms_message =
  m_id :: int
  m_created_at :: datetime
  m_batch_id :: int
  m_chunk_id :: "int option"
  m_status :: message_status
  m_report_event_key :: "string option"
  m_report_status :: "int option"
  m_report_time :: "datetime option"
  m_report_desc :: "string option"
  m_phone :: string
  m_phone_hmac :: string

record daily_usage =
  u_date :: int
  u_in_flight :: int
  u_confirmed :: int
  u_uncertain :: int

datatype settlement = T_reserved | T_confirmed | T_uncertain | T_released

record test_attempt =
  t_usage_date :: int
  t_chunk_id :: int
  t_attempt_no :: int
  t_segments :: int
  t_status :: settlement

record inflight_balance =
  bal_app_id :: int
  bal_reserved :: int
  bal_blocked_at :: "datetime option"

datatype reservation_state = V_reserved | V_batch_bound | V_materialized | V_released

record inflight_reservation =
  rs_id :: int
  rs_app_id :: int
  rs_batch_id :: "int option"
  rs_reserved :: int
  rs_materialized :: "int option"
  rs_state :: reservation_state
  rs_generation :: int
  rs_expires_at :: "datetime option"
  rs_release_reason :: "string option"

datatype outbox_arg = Arg_str string | Arg_int int

datatype outbox_state = E_pending | E_leased | E_published | E_processing | E_completed | E_dead

record outbox_event =
  e_id :: int
  e_dedup_key :: string
  e_event_type :: string
  e_aggregate_type :: string
  e_aggregate_id :: string
  e_task_name :: string
  e_queue :: string
  e_args :: "outbox_arg list"
  e_max_attempts :: int
  e_state :: outbox_state
  e_attempts :: int
  e_failure_count :: int
  e_next_attempt_at :: datetime
  e_capacity_eligible_at :: "datetime option"
  e_lease_id :: "int option"
  e_lease_expires_at :: "datetime option"
  e_last_error :: "string option"
  e_created_at :: datetime

record usage_allocation =
  ua_chunk_id :: int
  ua_batch_id :: int
  ua_reservation_id :: "string option"
  ua_recipients :: int
  ua_segments :: int
  ua_requests :: int
  ua_app_id :: "int option"

record app_row =
  app_id :: int
  app_max_in_flight :: int
  app_blacklist_check :: "bool option"

record idempotency_record =
  ir_scope_kind :: string
  ir_scope_id :: string
  ir_biz_id :: string
  ir_batch_id :: "int option"
  ir_request_hash :: string

record reconcile_fact =
  rf_app_id :: int
  rf_stored :: "int option"
  rf_computed :: int
  rf_delta :: int
  rf_count :: int
  rf_result :: string

text \<open>The subjects of the blacklist are named by the digest in use; a digest under any key version
  leads to its subject. An exclusion is a message that was withdrawn before it was sent.\<close>

record blacklist_alias =
  al_version :: int
  al_digest :: string
  al_owner :: string

record dispatch_exclusion =
  ex_message_id :: int
  ex_created_at :: datetime
  ex_batch_id :: int
  ex_generation :: int

text \<open>Work requested of the callback and usage components, whose tables are not part of the model.\<close>

datatype request =
    Batch_finished int
  | Reevaluate_confirmed_unused int
  | Release_usage string string int

record db =
  db_now :: datetime
  db_uuids :: int
  db_batches :: "sms_batch list"
  db_chunks :: "sms_chunk list"
  db_attempts :: "sms_vendor_attempt list"
  db_messages :: "sms_message list"
  db_usage :: "daily_usage list"
  db_test_attempts :: "test_attempt list"
  db_balances :: "inflight_balance list"
  db_reservations :: "inflight_reservation list"
  db_outbox :: "outbox_event list"
  db_allocations :: "usage_allocation list"
  db_apps :: "app_row list"
  db_idempotency :: "idempotency_record list"
  db_reconcile_facts :: "reconcile_fact list"
  db_requests :: "request list"
  db_blacklist :: "string list"
  db_blacklist_aliases :: "blacklist_alias list"
  db_blacklist_generation :: int
  db_exclusions :: "dispatch_exclusion list"

definition empty_db :: "datetime \<Rightarrow> db" where
  "empty_db t = \<lparr>db_now = t, db_uuids = 0, db_batches = [], db_chunks = [], db_attempts = [],
     db_messages = [], db_usage = [], db_test_attempts = [], db_balances = [],
     db_reservations = [], db_outbox = [], db_allocations = [], db_apps = [],
     db_idempotency = [], db_reconcile_facts = [], db_requests = [],
     db_blacklist = [], db_blacklist_aliases = [], db_blacklist_generation = 1, db_exclusions = []\<rparr>"

section \<open>Keys and lookups\<close>

text \<open>A serial column: the next key is above every key in use.\<close>

definition serial :: "int list \<Rightarrow> int" where
  "serial ids = fold max ids 0 + 1"

definition seconds :: "int \<Rightarrow> datetime" where
  "seconds n = n * 1000000"

definition find_batch :: "db \<Rightarrow> int \<Rightarrow> sms_batch option" where
  "find_batch db i = first_row (\<lambda>b. b_id b = i) (db_batches db)"

definition find_chunk :: "db \<Rightarrow> int \<Rightarrow> sms_chunk option" where
  "find_chunk db i = first_row (\<lambda>c. c_id c = i) (db_chunks db)"

definition set_chunks :: "db \<Rightarrow> (sms_chunk \<Rightarrow> bool) \<Rightarrow> (sms_chunk \<Rightarrow> sms_chunk) \<Rightarrow> db" where
  "set_chunks db p f = db\<lparr>db_chunks := update_rows p f (db_chunks db)\<rparr>"

definition set_batches :: "db \<Rightarrow> (sms_batch \<Rightarrow> bool) \<Rightarrow> (sms_batch \<Rightarrow> sms_batch) \<Rightarrow> db" where
  "set_batches db p f = db\<lparr>db_batches := update_rows p f (db_batches db)\<rparr>"

section \<open>Lemmas\<close>

lemma fold_max_ge_init: "(a::int) \<le> fold max xs a"
  by (induction xs arbitrary: a) (auto intro: order_trans [OF max.cobounded2])

lemma fold_max_ge: "x \<in> set xs \<Longrightarrow> (x::int) \<le> fold max xs a"
proof (induction xs arbitrary: a)
  case (Cons y ys)
  then show ?case
    using fold_max_ge_init [of "max y a" ys] by auto
qed simp

lemma serial_above: "x \<in> set ids \<Longrightarrow> x < serial ids"
  unfolding serial_def using fold_max_ge [of x ids 0] by simp

lemma serial_fresh [simp]: "serial ids \<notin> set ids"
  using serial_above [of "serial ids" ids] by auto

lemma serial_pos: "0 < serial ids"
  unfolding serial_def using fold_max_ge_init [of 0 ids] by simp

lemma find_chunk_SomeD:
  "find_chunk db i = Some c \<Longrightarrow> c \<in> set (db_chunks db) \<and> c_id c = i"
  unfolding find_chunk_def by (auto dest: first_row_SomeD)

lemma find_batch_SomeD:
  "find_batch db i = Some b \<Longrightarrow> b \<in> set (db_batches db) \<and> b_id b = i"
  unfolding find_batch_def by (auto dest: first_row_SomeD)

lemma serial_map_fresh: "x \<in> set rows \<Longrightarrow> k x < serial (map k rows)"
  by (rule serial_above) simp

end
