(* ===== verification/Inflight.thy ===== *)
theory Inflight
  imports Database
begin

text \<open>
  The in-flight chunk reservations (src/backend/app/services/send_inflight.py): per application one
  balance row and one reservation row per accepted batch, moved through
  reserved, batch_bound, materialized and released. The development proves that every operation
  keeps the balance of each application equal to the sum of its active reservations, which is the
  condition of the deferred trigger in src/schema.sql, and what a decision taken on a stale read
  does to that equation.
\<close>

section \<open>Model\<close>

definition ACTIVE_INFLIGHT_STATES :: "reservation_state list" where
  "ACTIVE_INFLIGHT_STATES = [V_reserved, V_batch_bound, V_materialized]"

definition OCCUPYING_CHUNK_STATES :: "chunk_status list" where
  "OCCUPYING_CHUNK_STATES = [C_pending, C_submitting, C_retrying, C_submitted, C_uncertain,
     C_split_capacity_blocked, C_failover_pending]"

record InFlightReservation =
  ifr_id :: int
  ifr_generation :: int
  ifr_estimated_chunks :: int

datatype delta_result = Created InFlightReservation | Changed bool

record delta_args =
  da_operation :: string
  da_app_id :: int
  da_delta :: int
  da_reservation_id :: "int option"
  da_generation :: "int option"
  da_expected_states :: "reservation_state list option"
  da_next_state :: "reservation_state option"
  da_next_reserved :: "int option"
  da_reason :: "string option"
  da_materialized :: "int option"
  da_estimated :: "int option"
  da_limit :: "int option"
  da_unbound_only :: bool

text \<open>The keyword defaults of \<open>apply_inflight_delta\<close>.\<close>

definition delta_defaults :: "string \<Rightarrow> int \<Rightarrow> int \<Rightarrow> delta_args" where
  "delta_defaults operation app delta = \<lparr>da_operation = operation, da_app_id = app,
     da_delta = delta, da_reservation_id = None, da_generation = None, da_expected_states = None,
     da_next_state = None, da_next_reserved = None, da_reason = None, da_materialized = None,
     da_estimated = None, da_limit = None, da_unbound_only = False\<rparr>"

definition find_balance :: "db \<Rightarrow> int \<Rightarrow> inflight_balance option" where
  "find_balance db app = first_row (\<lambda>r. bal_app_id r = app) (db_balances db)"

definition find_reservation :: "db \<Rightarrow> int \<Rightarrow> inflight_reservation option" where
  "find_reservation db i = first_row (\<lambda>r. rs_id r = i) (db_reservations db)"

definition mark_conservation_blocked :: "db \<Rightarrow> int \<Rightarrow> db" where
  "mark_conservation_blocked db app =
     db\<lparr>db_balances := update_rows (\<lambda>r. bal_app_id r = app)
          (\<lambda>r. r\<lparr>bal_blocked_at := Some (case bal_blocked_at r of Some t \<Rightarrow> t | None \<Rightarrow> db_now db)\<rparr>)
          (db_balances db)\<rparr>"

definition ensure_balance :: "db \<Rightarrow> int \<Rightarrow> db" where
  "ensure_balance db app =
     (case find_balance db app of
        Some _ \<Rightarrow> db
      | None \<Rightarrow> db\<lparr>db_balances := db_balances db @
          [\<lparr>bal_app_id = app, bal_reserved = 0, bal_blocked_at = None\<rparr>]\<rparr>)"

definition lock_balance :: "db \<Rightarrow> int \<Rightarrow> string \<Rightarrow> bool \<Rightarrow> (db \<times> int) res" where
  "lock_balance db app operation allow_create =
     (let db = (if allow_create then ensure_balance db app else db)
      in case find_balance db app of
           None \<Rightarrow> Inl (InFlightInvariantViolation operation ''balance missing'')
         | Some row \<Rightarrow>
             if bal_blocked_at row \<noteq> None \<and> operation = ''reserve''
             then Inl (InFlightInvariantViolation operation ''conservation blocked'')
             else Inr (db, bal_reserved row))"

definition adjust_locked_balance ::
  "db \<Rightarrow> int \<Rightarrow> int \<Rightarrow> int \<Rightarrow> string \<Rightarrow> int option \<Rightarrow> (db \<times> int) res" where
  "adjust_locked_balance db app stored delta operation limit =
     (if delta = 0 then Inr (db, stored)
      else let nxt = stored + delta in
        if nxt < 0 then Inl (InFlightInvariantViolation operation ''balance below release'')
        else if (case limit of Some l \<Rightarrow> nxt > l | None \<Rightarrow> False) then Inl InFlightLimitExceeded
        else if \<not> list_ex (\<lambda>r. bal_app_id r = app \<and> bal_reserved r = stored) (db_balances db)
        then Inl (InFlightInvariantViolation operation ''balance update missed'')
        else Inr (db\<lparr>db_balances :=
                       update_rows (\<lambda>r. bal_app_id r = app \<and> bal_reserved r = stored)
                         (\<lambda>r. r\<lparr>bal_reserved := nxt\<rparr>) (db_balances db)\<rparr>, nxt))"

definition apply_reserve ::
  "db \<Rightarrow> int \<Rightarrow> int \<Rightarrow> int option \<Rightarrow> (db \<times> InFlightReservation) res" where
  "apply_reserve db app estimated limit =
     (if estimated < 1 \<or> (case limit of None \<Rightarrow> True | Some l \<Rightarrow> l < 1)
      then Inl (ValueError ''in-flight reservation bounds invalid'')
      else rbind (lock_balance db app ''reserve'' True) (\<lambda>(db, locked).
        rbind (adjust_locked_balance db app locked estimated ''reserve'' limit) (\<lambda>(db, _).
          let i = serial (map rs_id (db_reservations db)) in
          Inr (db\<lparr>db_reservations := db_reservations db @
                 [\<lparr>rs_id = i, rs_app_id = app, rs_batch_id = None, rs_reserved = estimated,
                   rs_materialized = None, rs_state = V_reserved, rs_generation = 1,
                   rs_expires_at = Some (db_now db + seconds 900), rs_release_reason = None\<rparr>]\<rparr>,
               \<lparr>ifr_id = i, ifr_generation = 1, ifr_estimated_chunks = estimated\<rparr>))))"

definition is_expired :: "db \<Rightarrow> inflight_reservation \<Rightarrow> bool" where
  "is_expired db r = (case rs_expires_at r of Some t \<Rightarrow> t < db_now db | None \<Rightarrow> False)"

text \<open>The refusals of \<open>_apply_reservation_delta\<close> on the locked row, in the order of the code.\<close>

definition delta_refused :: "db \<Rightarrow> delta_args \<Rightarrow> inflight_reservation \<Rightarrow> bool" where
  "delta_refused db a current =
     ((case da_expected_states a of Some ss \<Rightarrow> rs_state current \<notin> set ss | None \<Rightarrow> False)
      \<or> (da_unbound_only a \<and> (rs_state current \<noteq> V_reserved \<or> rs_batch_id current \<noteq> None))
      \<or> (da_reason a = Some ''orphan-expired''
          \<and> (rs_state current \<noteq> V_reserved \<or> rs_batch_id current \<noteq> None
             \<or> \<not> is_expired db current))
      \<or> (da_operation a = ''release'' \<and> rs_state current = V_released))"

definition delta_row :: "delta_args \<Rightarrow> int \<Rightarrow> inflight_reservation \<Rightarrow> inflight_reservation" where
  "delta_row a occupancy r =
     r\<lparr>rs_state := (case da_next_state a of Some s \<Rightarrow> s | None \<Rightarrow> rs_state r),
       rs_reserved := occupancy,
       rs_materialized := (case da_materialized a of Some m \<Rightarrow> Some m | None \<Rightarrow> rs_materialized r),
       rs_release_reason := (case da_next_state a of
           Some s \<Rightarrow> if s = V_released then da_reason a else None
         | None \<Rightarrow> rs_release_reason r),
       rs_generation := (if da_next_state a = Some V_released then rs_generation r + 1
                         else rs_generation r)\<rparr>"

text \<open>The part after the balance row is locked.\<close>

definition apply_locked_delta :: "db \<Rightarrow> delta_args \<Rightarrow> int \<Rightarrow> int \<Rightarrow> int \<Rightarrow> (db \<times> bool) res" where
  "apply_locked_delta db a rid gen locked =
     (case find_reservation db rid of
        None \<Rightarrow> Inr (db, False)
      | Some current \<Rightarrow>
          if rs_app_id current \<noteq> da_app_id a
          then Inl (InFlightInvariantViolation (da_operation a) ''reservation app mismatch'')
          else if rs_generation current \<noteq> gen then Inr (db, False)
          else if delta_refused db a current then Inr (db, False)
          else let amount = (if da_operation a = ''release'' then - rs_reserved current
                             else da_delta a);
                   occupancy = (case da_next_reserved a of
                                  None \<Rightarrow> rs_reserved current | Some n \<Rightarrow> n) in
            if occupancy < 1
            then Inl (InFlightInvariantViolation (da_operation a) ''reservation occupancy invalid'')
            else rbind (adjust_locked_balance db (da_app_id a) locked amount (da_operation a)
                          (da_limit a)) (\<lambda>(db, _).
              if \<not> list_ex (\<lambda>r. rs_id r = rid \<and> rs_generation r = gen) (db_reservations db)
              then Inl (InFlightInvariantViolation (da_operation a) ''reservation update missed'')
              else Inr (db\<lparr>db_reservations :=
                    update_rows (\<lambda>r. rs_id r = rid \<and> rs_generation r = gen)
                      (delta_row a occupancy) (db_reservations db)\<rparr>, True)))"

definition apply_reservation_delta :: "db \<Rightarrow> delta_args \<Rightarrow> (db \<times> bool) res" where
  "apply_reservation_delta db a =
     (case (da_reservation_id a, da_generation a) of
        (Some rid, Some gen) \<Rightarrow>
          rbind (lock_balance db (da_app_id a) (da_operation a)
                   (da_operation a \<in> {''repair'', ''reconcile''}))
            (\<lambda>(db, locked). apply_locked_delta db a rid gen locked)
      | _ \<Rightarrow> Inl (InFlightInvariantViolation (da_operation a) ''reservation identity required''))"

definition apply_inflight_delta :: "db \<Rightarrow> delta_args \<Rightarrow> (db \<times> delta_result) res" where
  "apply_inflight_delta db a =
     (if da_operation a = ''reserve''
      then rbind (apply_reserve db (da_app_id a)
                    (case da_estimated a of Some e \<Rightarrow> e | None \<Rightarrow> da_delta a) (da_limit a))
             (\<lambda>(db, r). Inr (db, Created r))
      else rbind (apply_reservation_delta db a) (\<lambda>(db, b). Inr (db, Changed b)))"

text \<open>\<open>bool(...)\<close> of the result: a created reservation is truthy.\<close>

definition delta_bool :: "db \<times> delta_result \<Rightarrow> db \<times> bool" where
  "delta_bool p = (fst p, case snd p of Created _ \<Rightarrow> True | Changed b \<Rightarrow> b)"

definition reserve_in_flight_chunks ::
  "db \<Rightarrow> int \<Rightarrow> int \<Rightarrow> int \<Rightarrow> (db \<times> InFlightReservation) res" where
  "reserve_in_flight_chunks db app estimated limit =
     rbind (apply_inflight_delta db ((delta_defaults ''reserve'' app estimated)
              \<lparr>da_estimated := Some estimated, da_limit := Some limit\<rparr>))
       (\<lambda>(db, r). case r of Created c \<Rightarrow> Inr (db, c)
          | Changed _ \<Rightarrow> Inl (InFlightInvariantViolation ''reserve'' []))"

definition require_reservation_app :: "db \<Rightarrow> int \<Rightarrow> int option \<Rightarrow> int option" where
  "require_reservation_app db rid app =
     (case app of Some a \<Rightarrow> Some a
      | None \<Rightarrow> map_option rs_app_id (find_reservation db rid))"

definition release_unbound_acceptance_reservation ::
  "db \<Rightarrow> int \<Rightarrow> int \<Rightarrow> int option \<Rightarrow> (db \<times> bool) res" where
  "release_unbound_acceptance_reservation db rid gen app =
     (case require_reservation_app db rid app of
        None \<Rightarrow> Inr (db, False)
      | Some resolved \<Rightarrow>
          rbind (apply_inflight_delta db ((delta_defaults ''release'' resolved 0)
            \<lparr>da_reservation_id := Some rid, da_generation := Some gen,
             da_expected_states := Some [V_reserved], da_next_state := Some V_released,
             da_reason := Some ''acceptance-failed'', da_unbound_only := True\<rparr>))
          (\<lambda>p. Inr (delta_bool p)))"

definition release_in_flight_reservation ::
  "db \<Rightarrow> int \<Rightarrow> int \<Rightarrow> string \<Rightarrow> int option \<Rightarrow> (db \<times> bool) res" where
  "release_in_flight_reservation db rid gen reason app =
     (if reason = ''acceptance-failed''
      then release_unbound_acceptance_reservation db rid gen app
      else case require_reservation_app db rid app of
        None \<Rightarrow> Inr (db, False)
      | Some resolved \<Rightarrow>
          rbind (apply_inflight_delta db ((delta_defaults ''release'' resolved 0)
            \<lparr>da_reservation_id := Some rid, da_generation := Some gen,
             da_expected_states := Some ACTIVE_INFLIGHT_STATES, da_next_state := Some V_released,
             da_reason := Some reason\<rparr>))
          (\<lambda>p. Inr (delta_bool p)))"

text \<open>The batch column is unique, so at most one reservation names a batch.\<close>

definition request_inflight_release_for_batch :: "db \<Rightarrow> int \<Rightarrow> string \<Rightarrow> (db \<times> bool) res" where
  "request_inflight_release_for_batch db batch reason =
     (case first_row (\<lambda>r. rs_batch_id r = Some batch \<and> rs_state r \<noteq> V_released)
             (db_reservations db) of
        None \<Rightarrow> Inr (db, False)
      | Some row \<Rightarrow> release_in_flight_reservation db (rs_id row) (rs_generation row) reason None)"

text \<open>The row bound to a batch that \<open>materialize\<close> and \<open>expand\<close> read without a lock.\<close>

definition bound_reservation :: "db \<Rightarrow> int \<Rightarrow> inflight_reservation option" where
  "bound_reservation db batch =
     first_row (\<lambda>r. rs_batch_id r = Some batch \<and> rs_state r \<in> {V_batch_bound, V_materialized})
       (db_reservations db)"

text \<open>The part of \<open>materialize_in_flight_reservation\<close> that acts on the row it has read.\<close>

definition materialize_on :: "db \<Rightarrow> inflight_reservation \<Rightarrow> int \<Rightarrow> int \<Rightarrow> db res" where
  "materialize_on db current actual_chunks limit =
     (if rs_state current = V_materialized then Inr db
      else let estimated = rs_reserved current; occupancy = max actual_chunks 1 in
        rbind (apply_inflight_delta db
          ((delta_defaults ''materialize'' (rs_app_id current) (occupancy - estimated))
            \<lparr>da_reservation_id := Some (rs_id current),
             da_generation := Some (rs_generation current),
             da_expected_states := Some [V_batch_bound], da_next_state := Some V_materialized,
             da_next_reserved := Some occupancy, da_materialized := Some actual_chunks,
             da_limit := Some limit\<rparr>))
        (\<lambda>(db, _). Inr db))"

definition materialize_in_flight_reservation :: "db \<Rightarrow> int \<Rightarrow> int \<Rightarrow> int \<Rightarrow> db res" where
  "materialize_in_flight_reservation db batch actual_chunks limit =
     (if actual_chunks < 0 then Inl (ValueError ''actual chunk count invalid'')
      else case bound_reservation db batch of
        None \<Rightarrow> Inr db
      | Some current \<Rightarrow> materialize_on db current actual_chunks limit)"

definition expand_on :: "db \<Rightarrow> inflight_reservation \<Rightarrow> int \<Rightarrow> int \<Rightarrow> (db \<times> bool) res" where
  "expand_on db current delta limit =
     (let occupancy = rs_reserved current + delta;
          materialized = (case rs_materialized current of
              Some m \<Rightarrow> if m = 0 then rs_reserved current else m
            | None \<Rightarrow> rs_reserved current) + delta
      in rbind (apply_inflight_delta db ((delta_defaults ''split'' (rs_app_id current) delta)
           \<lparr>da_reservation_id := Some (rs_id current),
            da_generation := Some (rs_generation current),
            da_expected_states := Some [V_batch_bound, V_materialized],
            da_next_reserved := Some occupancy, da_materialized := Some materialized,
            da_limit := Some limit\<rparr>))
         (\<lambda>p. Inr (delta_bool p)))"

definition expand_in_flight_for_split :: "db \<Rightarrow> int \<Rightarrow> int \<Rightarrow> int \<Rightarrow> (db \<times> bool) res" where
  "expand_in_flight_for_split db batch delta limit =
     (if delta < 1 then Inl (ValueError ''split expansion must be positive'')
      else case bound_reservation db batch of
        None \<Rightarrow> Inl (InFlightInvariantViolation ''split'' ''reservation missing'')
      | Some current \<Rightarrow> expand_on db current delta limit)"

definition bindable :: "db \<Rightarrow> int \<Rightarrow> int \<Rightarrow> int \<Rightarrow> inflight_reservation \<Rightarrow> bool" where
  "bindable db rid gen app r \<longleftrightarrow> rs_id r = rid \<and> rs_generation r = gen \<and> rs_app_id r = app
     \<and> rs_state r = V_reserved \<and> rs_batch_id r = None
     \<and> (case rs_expires_at r of Some t \<Rightarrow> db_now db < t | None \<Rightarrow> False)"

definition bind_in_flight_reservation :: "db \<Rightarrow> int \<Rightarrow> int \<Rightarrow> int \<Rightarrow> int \<Rightarrow> db res" where
  "bind_in_flight_reservation db rid gen batch app =
     rbind (lock_balance db app ''bind'' False) (\<lambda>(db, _).
       if \<not> list_ex (bindable db rid gen app) (db_reservations db)
       then Inl (RuntimeError ''in-flight reservation bind failed'')
       else if list_ex (\<lambda>r. rs_batch_id r = Some batch) (db_reservations db)
       then Inl (IntegrityError ''send_inflight_reservation_batch_id_key'')
       else let db = db\<lparr>db_reservations := update_rows (bindable db rid gen app)
              (\<lambda>r. r\<lparr>rs_batch_id := Some batch, rs_state := V_batch_bound\<rparr>)
              (db_reservations db)\<rparr>;
                linkable = (\<lambda>b. b_id b = batch \<and> b_reservation_id b = None) in
         if list_ex linkable (db_batches db)
         then Inr (set_batches db linkable (\<lambda>b. b\<lparr>b_reservation_id := Some rid\<rparr>))
         else if list_ex (\<lambda>b. b_id b = batch \<and> b_reservation_id b = Some rid) (db_batches db)
         then Inr db
         else Inl (RuntimeError ''in-flight reservation batch pointer failed''))"

section \<open>Recovery\<close>

definition ensure_balances :: "db \<Rightarrow> int list \<Rightarrow> db" where
  "ensure_balances db apps = fold (\<lambda>app db. ensure_balance db app) (sort (remdups apps)) db"

definition occupying_count :: "db \<Rightarrow> int \<Rightarrow> int" where
  "occupying_count db batch = int (count_rows (\<lambda>c. c_batch_id c = batch
     \<and> c_status c \<in> set OCCUPYING_CHUNK_STATES) (db_chunks db))"

definition drift_rows :: "db \<Rightarrow> nat \<Rightarrow> inflight_reservation list" where
  "drift_rows db limit = take limit (sort_key rs_id
     (filter (\<lambda>r. rs_state r = V_materialized \<and> rs_batch_id r \<noteq> None) (db_reservations db)))"

definition repair_drift_row :: "db \<times> int \<Rightarrow> inflight_reservation \<Rightarrow> (db \<times> int) res" where
  "repair_drift_row st row =
     (let (db, repaired) = st;
          gap = occupying_count db (the (rs_batch_id row)) - rs_reserved row in
      if gap < 1 then Inr (db, repaired)
      else rbind (apply_inflight_delta db ((delta_defaults ''repair'' (rs_app_id row) gap)
             \<lparr>da_reservation_id := Some (rs_id row), da_generation := Some (rs_generation row),
              da_expected_states := Some [V_materialized],
              da_next_reserved := Some (rs_reserved row + gap),
              da_materialized := Some (rs_reserved row + gap)\<rparr>))
           (\<lambda>(db, _). Inr (db, repaired + 1)))"

definition reconcile_split_occupancy_drift ::
  "db \<Rightarrow> nat \<Rightarrow> inflight_reservation list option \<Rightarrow> (db \<times> int) res" where
  "reconcile_split_occupancy_drift db limit rows =
     (let rows = (case rows of Some rs \<Rightarrow> rs | None \<Rightarrow> drift_rows db limit)
      in foldM repair_drift_row (ensure_balances db (map rs_app_id rows), 0) rows)"

definition TERMINAL_BATCH_STATES :: "batch_status list" where
  "TERMINAL_BATCH_STATES = [B_completed, B_completed_unknown, B_cancelled, B_rejected, B_expired]"

definition misreleased_rows :: "db \<Rightarrow> nat \<Rightarrow> inflight_reservation list" where
  "misreleased_rows db limit = take limit (sort_key rs_id
     (filter (\<lambda>r. rs_state r = V_released \<and> rs_release_reason r = Some ''acceptance-failed''
        \<and> (case rs_batch_id r of None \<Rightarrow> False
           | Some b \<Rightarrow> (case find_batch db b of None \<Rightarrow> False
               | Some batch \<Rightarrow> b_status batch \<notin> set TERMINAL_BATCH_STATES)))
        (db_reservations db)))"

definition repair_misreleased_row :: "db \<times> int \<Rightarrow> inflight_reservation \<Rightarrow> (db \<times> int) res" where
  "repair_misreleased_row st row =
     (let (db, repaired) = st; batch = the (rs_batch_id row) in
      if (case find_batch db batch of None \<Rightarrow> False
          | Some b \<Rightarrow> b_status b \<in> set TERMINAL_BATCH_STATES)
      then Inr (db, repaired)
      else if list_ex (\<lambda>r. rs_batch_id r = Some batch \<and> rs_state r \<in> set ACTIVE_INFLIGHT_STATES)
                (db_reservations db)
      then Inr (db, repaired)
      else rbind (apply_inflight_delta db
             ((delta_defaults ''repair'' (rs_app_id row) (rs_reserved row))
               \<lparr>da_reservation_id := Some (rs_id row), da_generation := Some (rs_generation row),
                da_expected_states := Some [V_released], da_next_state := Some V_batch_bound,
                da_next_reserved := Some (rs_reserved row)\<rparr>))
           (\<lambda>p. Inr (fst p, if snd (delta_bool p) then repaired + 1 else repaired)))"

definition repair_misreleased_bound_reservations :: "db \<Rightarrow> nat \<Rightarrow> (db \<times> int) res" where
  "repair_misreleased_bound_reservations db limit =
     (let rows = misreleased_rows db limit
      in foldM repair_misreleased_row (ensure_balances db (map rs_app_id rows), 0) rows)"

definition unbound_pointer_rows :: "db \<Rightarrow> nat \<Rightarrow> (inflight_reservation \<times> int) list" where
  "unbound_pointer_rows db limit = take limit (sort_key (\<lambda>(r, _). rs_id r)
     (concat (map (\<lambda>r. map (\<lambda>b. (r, b_id b))
          (filter (\<lambda>b. b_reservation_id b = Some (rs_id r)) (db_batches db)))
        (filter (\<lambda>r. rs_state r = V_reserved \<and> rs_batch_id r = None) (db_reservations db)))))"

definition bind_pointer_row :: "db \<times> int \<Rightarrow> inflight_reservation \<times> int \<Rightarrow> (db \<times> int) res" where
  "bind_pointer_row st rb =
     (let (db, repaired) = st; (row, batch) = rb in
      if \<not> list_ex (\<lambda>r. rs_id r = rs_id row \<and> rs_generation r = rs_generation row
              \<and> rs_state r = V_reserved \<and> rs_batch_id r = None
              \<and> (case rs_expires_at r of Some t \<Rightarrow> db_now db < t | None \<Rightarrow> False))
            (db_reservations db)
      then Inr (db, repaired)
      else rbind (bind_in_flight_reservation db (rs_id row) (rs_generation row) batch
                    (rs_app_id row))
             (\<lambda>db. Inr (db, repaired + 1)))"

definition bind_reserved_reservation_to_existing_batch :: "db \<Rightarrow> nat \<Rightarrow> (db \<times> int) res" where
  "bind_reserved_reservation_to_existing_batch db limit =
     (let rows = unbound_pointer_rows db limit
      in foldM bind_pointer_row (ensure_balances db (map (\<lambda>(r, _). rs_app_id r) rows), 0) rows)"

text \<open>The sum of an application's active reservations, and the deferred trigger's condition on it
  (src/schema.sql, \<open>check_send_inflight_balance_conservation\<close>).\<close>

definition is_active :: "inflight_reservation \<Rightarrow> bool" where
  "is_active r \<longleftrightarrow> rs_state r \<in> set ACTIVE_INFLIGHT_STATES"

definition active_sum :: "inflight_reservation list \<Rightarrow> int \<Rightarrow> int" where
  "active_sum rows app =
     sum_list (map rs_reserved (filter (\<lambda>r. rs_app_id r = app \<and> is_active r) rows))"

definition check_send_inflight_balance_conservation :: "db \<Rightarrow> int \<Rightarrow> bool" where
  "check_send_inflight_balance_conservation db app =
     (case find_balance db app of
        None \<Rightarrow> active_sum (db_reservations db) app = 0
      | Some row \<Rightarrow> bal_reserved row = active_sum (db_reservations db) app)"

text \<open>The stored procedure \<open>reconcile_send_inflight_app\<close>.\<close>

definition active_rows :: "db \<Rightarrow> int \<Rightarrow> inflight_reservation list" where
  "active_rows db app = filter (\<lambda>r. rs_app_id r = app \<and> is_active r) (db_reservations db)"

definition duplicate_bound :: "db \<Rightarrow> int \<Rightarrow> bool" where
  "duplicate_bound db app =
     (\<not> distinct (filter (\<lambda>b. b \<noteq> None) (map rs_batch_id (active_rows db app))))"

definition add_fact :: "db \<Rightarrow> int \<Rightarrow> int option \<Rightarrow> int \<Rightarrow> int \<Rightarrow> string \<Rightarrow> db" where
  "add_fact db app stored computed delta result =
     db\<lparr>db_reconcile_facts := db_reconcile_facts db @
          [\<lparr>rf_app_id = app, rf_stored = stored, rf_computed = computed, rf_delta = delta,
            rf_count = int (length (active_rows db app)), rf_result = result\<rparr>]\<rparr>"

definition set_balance ::
  "db \<Rightarrow> int \<Rightarrow> (inflight_balance \<Rightarrow> inflight_balance) \<Rightarrow> db" where
  "set_balance db app f =
     db\<lparr>db_balances := update_rows (\<lambda>r. bal_app_id r = app) f (db_balances db)\<rparr>"

definition reconcile_send_inflight_app :: "db \<Rightarrow> int \<Rightarrow> db \<times> string" where
  "reconcile_send_inflight_app db app =
     (let computed = active_sum (db_reservations db) app in
      if duplicate_bound db app
      then (case find_balance db app of
              None \<Rightarrow> (add_fact db app None computed computed ''blocked'', ''blocked'')
            | Some row \<Rightarrow>
                (add_fact (mark_conservation_blocked db app) app (Some (bal_reserved row)) computed
                   (computed - bal_reserved row) ''blocked'', ''blocked''))
      else case find_balance db app of
        None \<Rightarrow>
          if computed = 0 then (db, ''matched'')
          else (add_fact (db\<lparr>db_balances := db_balances db @
                   [\<lparr>bal_app_id = app, bal_reserved = computed, bal_blocked_at = None\<rparr>]\<rparr>)
                  app None computed computed ''repaired'', ''repaired'')
      | Some row \<Rightarrow>
          if bal_reserved row = computed
          then (set_balance db app (\<lambda>r. r\<lparr>bal_blocked_at := None\<rparr>), ''matched'')
          else (add_fact (set_balance db app (\<lambda>r. r\<lparr>bal_reserved := computed,
                             bal_blocked_at := None\<rparr>))
                  app (Some (bal_reserved row)) computed (computed - bal_reserved row) ''repaired'',
                ''repaired''))"

definition conservation_apps :: "db \<Rightarrow> nat \<Rightarrow> int list" where
  "conservation_apps db limit = take limit (sort (remdups (map bal_app_id (db_balances db)
     @ map rs_app_id (filter is_active (db_reservations db)))))"

definition reconcile_app_step :: "int \<Rightarrow> db \<times> int \<Rightarrow> db \<times> int" where
  "reconcile_app_step app st =
     (let (db, repaired) = st; (db, outcome) = reconcile_send_inflight_app db app
      in (db, if outcome = ''repaired'' then repaired + 1 else repaired))"

definition reconcile_inflight_balance_conservation ::
  "db \<Rightarrow> nat \<Rightarrow> int list option \<Rightarrow> db \<times> int" where
  "reconcile_inflight_balance_conservation db limit apps =
     (let apps = (case apps of Some as \<Rightarrow> as | None \<Rightarrow> conservation_apps db limit)
      in fold reconcile_app_step (sort (remdups apps)) (db, 0))"

definition orphan_rows :: "db \<Rightarrow> nat \<Rightarrow> inflight_reservation list" where
  "orphan_rows db limit = take limit (sort_key rs_id
     (filter (\<lambda>r. rs_state r = V_reserved \<and> rs_batch_id r = None \<and> is_expired db r)
        (db_reservations db)))"

definition terminal_rows :: "db \<Rightarrow> nat \<Rightarrow> (inflight_reservation \<times> batch_status) list" where
  "terminal_rows db limit = take limit (sort_key (\<lambda>(r, _). rs_id r)
     (concat (map (\<lambda>r. case rs_batch_id r of None \<Rightarrow> []
        | Some i \<Rightarrow> (case find_batch db i of None \<Rightarrow> []
            | Some b \<Rightarrow> if b_status b \<in> set TERMINAL_BATCH_STATES then [(r, b_status b)] else []))
        (filter (\<lambda>r. rs_state r \<noteq> V_released) (db_reservations db)))))"

fun release_reason_for :: "batch_status \<Rightarrow> string option" where
  "release_reason_for B_completed = Some ''batch-completed''"
| "release_reason_for B_completed_unknown = Some ''batch-completed-unknown''"
| "release_reason_for B_cancelled = Some ''batch-cancelled''"
| "release_reason_for B_rejected = Some ''batch-rejected''"
| "release_reason_for B_expired = Some ''batch-expired''"
| "release_reason_for _ = None"

definition release_row :: "db \<times> int \<Rightarrow> inflight_reservation \<times> string \<Rightarrow> (db \<times> int) res" where
  "release_row st rr =
     (let (db, repaired) = st; (row, reason) = rr in
      rbind (release_in_flight_reservation db (rs_id row) (rs_generation row) reason None)
        (\<lambda>(db, b). Inr (db, if b then repaired + 1 else repaired)))"

definition reconcile_in_flight_reservations :: "db \<Rightarrow> nat \<Rightarrow> (db \<times> int) res" where
  "reconcile_in_flight_reservations db limit =
     (let orphans = orphan_rows db limit;
          terminals = terminal_rows db limit;
          drift = drift_rows db limit;
          apps = conservation_apps db limit;
          db = ensure_balances db (map rs_app_id orphans @ map (\<lambda>(r, _). rs_app_id r) terminals
                 @ map rs_app_id drift @ apps)
      in rbind (foldM release_row (db, 0) (map (\<lambda>r. (r, ''orphan-expired'')) orphans)) (\<lambda>st.
         rbind (foldM release_row st
                  (map (\<lambda>(r, s). (r, the (release_reason_for s))) terminals)) (\<lambda>(db, n).
         rbind (reconcile_split_occupancy_drift db limit (Some drift)) (\<lambda>(db, m).
           let (db, k) = reconcile_inflight_balance_conservation db limit (Some apps)
           in Inr (db, n + m + k)))))"

section \<open>The commit boundary\<close>

datatype AcceptCommitKind = K_unbound | K_bound_expected | K_bound_conflicting | K_unknown

record AcceptCommitResolution =
  acr_kind :: AcceptCommitKind
  acr_batch_no :: "string option"
  acr_state :: "reservation_state option"

text \<open>The columns of a joined batch and idempotency row.\<close>

record joined_batch =
  jb_batch_no :: string
  jb_app_id :: "int option"
  jb_biz_id :: "string option"
  jb_reservation_id :: "int option"
  jb_request_hash :: "string option"

definition same_subject :: "joined_batch \<Rightarrow> int \<Rightarrow> string \<Rightarrow> string \<Rightarrow> bool" where
  "same_subject row app biz hash =
     (if (case jb_app_id row of Some a \<Rightarrow> a \<noteq> app | None \<Rightarrow> False) then False
      else if (case jb_biz_id row of Some b \<Rightarrow> b \<noteq> biz | None \<Rightarrow> False) then False
      else jb_request_hash row = Some hash)"

definition join_batch :: "sms_batch \<Rightarrow> string option \<Rightarrow> joined_batch" where
  "join_batch b hash = \<lparr>jb_batch_no = b_batch_no b, jb_app_id = b_app_id b,
     jb_biz_id = b_biz_id b, jb_reservation_id = b_reservation_id b, jb_request_hash = hash\<rparr>"

definition lookup_idempotent_batch ::
  "db \<Rightarrow> string \<Rightarrow> string \<Rightarrow> string \<Rightarrow> joined_batch option" where
  "lookup_idempotent_batch db scope_kind scope_id biz =
     (case first_row (\<lambda>i. ir_scope_kind i = scope_kind \<and> ir_scope_id i = scope_id
               \<and> ir_biz_id i = biz) (db_idempotency db) of
        None \<Rightarrow> None
      | Some i \<Rightarrow> (case ir_batch_id i of None \<Rightarrow> None
          | Some bid \<Rightarrow> map_option (\<lambda>b. join_batch b (Some (ir_request_hash i)))
                         (find_batch db bid)))"

definition load_bound_batch :: "db \<Rightarrow> int \<Rightarrow> int option \<Rightarrow> joined_batch option" where
  "load_bound_batch db rid batch_id =
     (case first_row (\<lambda>b. batch_id = Some (b_id b) \<or> b_reservation_id b = Some rid)
             (db_batches db) of
        None \<Rightarrow> None
      | Some b \<Rightarrow> Some (join_batch b
          (map_option ir_request_hash
             (first_row (\<lambda>i. ir_batch_id i = Some (b_id b)) (db_idempotency db)))))"

definition resolution ::
  "AcceptCommitKind \<Rightarrow> string option \<Rightarrow> reservation_state option \<Rightarrow> AcceptCommitResolution" where
  "resolution k b s = \<lparr>acr_kind = k, acr_batch_no = b, acr_state = s\<rparr>"

text \<open>\<open>reachable\<close> is false when the query raises an operational error.\<close>

definition resolve_ambiguous_acceptance_commit ::
  "db \<Rightarrow> bool \<Rightarrow> int \<Rightarrow> int \<Rightarrow> int \<Rightarrow> string \<Rightarrow> string \<Rightarrow> string \<Rightarrow> string
     \<Rightarrow> AcceptCommitResolution" where
  "resolve_ambiguous_acceptance_commit db reachable rid gen app scope_kind scope_id biz hash =
     (if \<not> reachable then resolution K_unknown None None
      else case find_reservation db rid of
        None \<Rightarrow> resolution K_unknown None None
      | Some current \<Rightarrow>
          let state = rs_state current in
          if rs_app_id current \<noteq> app then resolution K_bound_conflicting None (Some state)
          else if state = V_reserved \<and> rs_batch_id current = None
          then (case lookup_idempotent_batch db scope_kind scope_id biz of
                  None \<Rightarrow> resolution K_unbound None (Some state)
                | Some recorded \<Rightarrow>
                    if \<not> same_subject recorded app biz hash
                    then resolution K_bound_conflicting (Some (jb_batch_no recorded)) (Some state)
                    else if (case jb_reservation_id recorded of Some p \<Rightarrow> p \<noteq> rid | None \<Rightarrow> False)
                    then resolution K_bound_conflicting (Some (jb_batch_no recorded)) (Some state)
                    else resolution K_bound_expected (Some (jb_batch_no recorded)) (Some state))
          else if state \<in> {V_batch_bound, V_materialized}
                  \<or> (state = V_released \<and> rs_batch_id current \<noteq> None)
          then if rs_generation current \<noteq> gen \<and> state \<noteq> V_released
               then resolution K_bound_conflicting None (Some state)
               else (case load_bound_batch db rid (rs_batch_id current) of
                       None \<Rightarrow> resolution K_unknown None (Some state)
                     | Some bound \<Rightarrow>
                         if \<not> same_subject bound app biz hash
                         then resolution K_bound_conflicting (Some (jb_batch_no bound)) (Some state)
                         else resolution K_bound_expected (Some (jb_batch_no bound)) (Some state))
          else if state = V_released then resolution K_unbound None (Some state)
          else resolution K_unknown None (Some state))"

section \<open>Invariant and steps\<close>

definition balance_of :: "db \<Rightarrow> int \<Rightarrow> int" where
  "balance_of db app = (case find_balance db app of None \<Rightarrow> 0 | Some r \<Rightarrow> bal_reserved r)"

definition contribution :: "int \<Rightarrow> inflight_reservation \<Rightarrow> int" where
  "contribution app r = (if rs_app_id r = app \<and> is_active r then rs_reserved r else 0)"

definition inflight_wf :: "db \<Rightarrow> bool" where
  "inflight_wf db \<longleftrightarrow> distinct (map bal_app_id (db_balances db))
     \<and> distinct (map rs_id (db_reservations db))
     \<and> (\<forall>r\<in>set (db_reservations db). 1 \<le> rs_reserved r)"

definition conserved :: "db \<Rightarrow> bool" where
  "conserved db \<longleftrightarrow> (\<forall>app. check_send_inflight_balance_conservation db app)"

definition inflight_inv :: "db \<Rightarrow> bool" where
  "inflight_inv db \<longleftrightarrow> inflight_wf db \<and> conserved db"

definition delta_amount :: "delta_args \<Rightarrow> inflight_reservation \<Rightarrow> int" where
  "delta_amount a r = (if da_operation a = ''release'' then - rs_reserved r else da_delta a)"

definition delta_occupancy :: "delta_args \<Rightarrow> inflight_reservation \<Rightarrow> int" where
  "delta_occupancy a r = (case da_next_reserved a of None \<Rightarrow> rs_reserved r | Some n \<Rightarrow> n)"

definition fresh_read :: "db \<Rightarrow> inflight_reservation \<Rightarrow> bool" where
  "fresh_read db row \<longleftrightarrow> (\<forall>r. find_reservation db (rs_id row) = Some r
     \<longrightarrow> rs_reserved r = rs_reserved row)"

text \<open>One committed transaction of the reservation module, with any arguments; \<open>outside\<close> is any
  transaction of the rest of the system, which leaves the two tables alone.\<close>

inductive inflight_step :: "db \<Rightarrow> db \<Rightarrow> bool" where
  reserve: "reserve_in_flight_chunks db app n limit = Inr (db', r) \<Longrightarrow> inflight_step db db'"
| bind: "bind_in_flight_reservation db rid gen batch app = Inr db' \<Longrightarrow> inflight_step db db'"
| release: "release_in_flight_reservation db rid gen reason appo = Inr (db', b)
    \<Longrightarrow> inflight_step db db'"
| release_unbound: "release_unbound_acceptance_reservation db rid gen appo = Inr (db', b)
    \<Longrightarrow> inflight_step db db'"
| release_batch: "request_inflight_release_for_batch db batch reason = Inr (db', b)
    \<Longrightarrow> inflight_step db db'"
| materialize: "materialize_in_flight_reservation db batch n limit = Inr db' \<Longrightarrow> inflight_step db db'"
| expand: "expand_in_flight_for_split db batch n limit = Inr (db', b) \<Longrightarrow> inflight_step db db'"
| drift: "reconcile_split_occupancy_drift db k None = Inr (db', m) \<Longrightarrow> inflight_step db db'"
| misreleased: "repair_misreleased_bound_reservations db k = Inr (db', m) \<Longrightarrow> inflight_step db db'"
| rebind: "bind_reserved_reservation_to_existing_batch db k = Inr (db', m) \<Longrightarrow> inflight_step db db'"
| reconcile: "reconcile_in_flight_reservations db k = Inr (db', m) \<Longrightarrow> inflight_step db db'"
| conserve: "db' = fst (reconcile_inflight_balance_conservation db k None) \<Longrightarrow> inflight_step db db'"
| block: "db' = mark_conservation_blocked db app \<Longrightarrow> inflight_step db db'"
| outside: "db_balances db' = db_balances db \<Longrightarrow> db_reservations db' = db_reservations db
    \<Longrightarrow> inflight_step db db'"

section \<open>Lemmas\<close>

lemma conserved_iff: "conserved db \<longleftrightarrow> (\<forall>app. balance_of db app = active_sum (db_reservations db) app)"
  by (auto simp: conserved_def check_send_inflight_balance_conservation_def balance_of_def
      split: option.splits)

lemma active_sum_contribution: "active_sum rows app = sum_list (map (contribution app) rows)"
  by (induction rows) (auto simp: active_sum_def contribution_def)

lemma active_sum_append [simp]: "active_sum (xs @ ys) app = active_sum xs app + active_sum ys app"
  by (simp add: active_sum_def)

lemma balance_of_alt: "balance_of db app = (case first_row (\<lambda>r. bal_app_id r = app) (db_balances db) of
    None \<Rightarrow> 0 | Some r \<Rightarrow> bal_reserved r)"
  by (simp add: balance_of_def find_balance_def)

lemma active_sum_update_row:
  assumes "distinct (map rs_id rows)" "r \<in> set rows" "p r" "\<And>x. p x \<Longrightarrow> rs_id x = rs_id r"
  shows "active_sum (update_rows p f rows) app
    = active_sum rows app + (contribution app (f r) - contribution app r)"
proof -
  have "filter p rows = [r]" using filter_unique_key [of rs_id rows r p] assms by blast
  then show ?thesis by (simp add: active_sum_contribution sum_list_update_rows)
qed

lemma find_reservation_SomeD:
  "find_reservation db i = Some r \<Longrightarrow> r \<in> set (db_reservations db) \<and> rs_id r = i"
  unfolding find_reservation_def by (auto dest: first_row_SomeD)

lemma ensure_balance_frame [simp]:
  "db_reservations (ensure_balance db app) = db_reservations db"
  "db_now (ensure_balance db app) = db_now db"
  "find_reservation (ensure_balance db app) i = find_reservation db i"
  "is_expired (ensure_balance db app) r = is_expired db r"
  "delta_refused (ensure_balance db app) a r = delta_refused db a r"
  by (auto simp: ensure_balance_def find_reservation_def is_expired_def delta_refused_def
      split: option.split)

lemma ensure_balance_find [simp]: "find_balance (ensure_balance db app) app \<noteq> None"
  by (auto simp: ensure_balance_def find_balance_def first_row_None_iff split: option.split
      dest: first_row_SomeD)

lemma ensure_balance_shape:
  "db1 = db \<or> db1 = ensure_balance db app \<Longrightarrow> \<exists>bs. db1 = db\<lparr>db_balances := bs\<rparr>"
proof (elim disjE)
  assume "db1 = db"
  then show ?thesis by (intro exI [of _ "db_balances db"]) simp
next
  assume "db1 = ensure_balance db app"
  then show ?thesis
    by (cases "find_balance db app") (auto simp: ensure_balance_def intro: exI [of _ "db_balances db"])
qed

lemma balance_of_ensure [simp]: "balance_of (ensure_balance db app) a = balance_of db a"
  by (auto simp: ensure_balance_def balance_of_alt find_balance_def first_row_append
      split: option.split) (auto simp: first_row_def split: if_splits)

lemma inflight_wf_ensure [simp]: "inflight_wf db \<Longrightarrow> inflight_wf (ensure_balance db app)"
  by (auto simp: ensure_balance_def inflight_wf_def find_balance_def first_row_None_iff
      split: option.split)

lemma conserved_ensure [simp]: "conserved (ensure_balance db app) = conserved db"
  by (simp add: conserved_iff)

lemma inflight_inv_ensure [simp]: "inflight_inv db \<Longrightarrow> inflight_inv (ensure_balance db app)"
  by (simp add: inflight_inv_def)

lemma lock_balance_InrD:
  assumes "lock_balance db app operation create = Inr (db', n)"
  shows "db' = (if create then ensure_balance db app else db) \<and> n = balance_of db' app
    \<and> find_balance db' app \<noteq> None
    \<and> (operation = ''reserve'' \<longrightarrow> bal_blocked_at (the (find_balance db' app)) = None)"
  using assms by (auto simp: lock_balance_def Let_def balance_of_def split: option.splits if_splits)

lemma adjust_locked_balance_InrD:
  assumes "adjust_locked_balance db app stored delta operation limit = Inr (db', n)"
    and "inflight_wf db" and "find_balance db app \<noteq> None" and "stored = balance_of db app"
  shows "\<exists>bs. db' = db\<lparr>db_balances := bs\<rparr> \<and> inflight_wf db'"
    and "balance_of db' a = balance_of db a + (if a = app then delta else 0)"
    and "n = stored + delta"
    and "delta \<noteq> 0 \<Longrightarrow> 0 \<le> n \<and> (\<forall>l. limit = Some l \<longrightarrow> n \<le> l)"
proof -
  let ?p = "\<lambda>r. bal_app_id r = app \<and> bal_reserved r = stored"
  let ?bs = "update_rows ?p (\<lambda>r. r\<lparr>bal_reserved := stored + delta\<rparr>) (db_balances db)"
  have cases: "delta = 0 \<and> db' = db \<and> n = stored
     \<or> delta \<noteq> 0 \<and> db' = db\<lparr>db_balances := ?bs\<rparr> \<and> n = stored + delta \<and> 0 \<le> n
        \<and> (\<forall>l. limit = Some l \<longrightarrow> n \<le> l)"
    using assms(1) by (auto simp: adjust_locked_balance_def Let_def split: if_splits option.splits)
  have ids: "map bal_app_id ?bs = map bal_app_id (db_balances db)" by (rule map_update_rows) simp
  have bal: "balance_of (db\<lparr>db_balances := ?bs\<rparr>) a
      = balance_of db a + (if a = app then delta else 0)"
    using assms(3,4) by (auto simp: balance_of_alt find_balance_def first_row_update_rows
        split: option.splits dest: first_row_SomeD)
  show "\<exists>bs. db' = db\<lparr>db_balances := bs\<rparr> \<and> inflight_wf db'"
  proof (cases "delta = 0")
    case True
    with cases assms(2) show ?thesis by (intro exI [of _ "db_balances db"]) simp
  next
    case False
    with cases assms(2) ids show ?thesis by (intro exI [of _ ?bs]) (simp add: inflight_wf_def)
  qed
  show "balance_of db' a = balance_of db a + (if a = app then delta else 0)"
    using cases bal by auto
  show "n = stored + delta" using cases by auto
  show "delta \<noteq> 0 \<Longrightarrow> 0 \<le> n \<and> (\<forall>l. limit = Some l \<longrightarrow> n \<le> l)" using cases by auto
qed

text \<open>The effect of one conversion on the row it has found: both sides move, each by its own
  amount, and no other table changes.\<close>

lemma apply_reservation_delta_InrE:
  assumes "apply_reservation_delta db a = Inr (db', b)"
  obtains rid gen db1 where "da_reservation_id a = Some rid" "da_generation a = Some gen"
    "db1 = db \<or> db1 = ensure_balance db (da_app_id a)" "find_balance db1 (da_app_id a) \<noteq> None"
    "apply_locked_delta db1 a rid gen (balance_of db1 (da_app_id a)) = Inr (db', b)"
proof -
  from assms obtain rid gen where ids: "da_reservation_id a = Some rid" "da_generation a = Some gen"
    by (auto simp: apply_reservation_delta_def split: option.splits)
  with assms obtain db1 locked where lock: "lock_balance db (da_app_id a) (da_operation a)
        (da_operation a \<in> {''repair'', ''reconcile''}) = Inr (db1, locked)"
    and run: "apply_locked_delta db1 a rid gen locked = Inr (db', b)"
    unfolding apply_reservation_delta_def ids by (auto simp: rbind_Inr_iff)
  from lock_balance_InrD [OF lock] run show thesis
    by (intro that [OF ids, of db1]) (auto split: if_splits)
qed

lemma apply_locked_delta_False: "apply_locked_delta db a rid gen n = Inr (db', False) \<Longrightarrow> db' = db"
  by (auto simp: apply_locked_delta_def rbind_Inr_iff Let_def split: option.splits if_splits)

lemma apply_locked_delta_TrueE:
  assumes "apply_locked_delta db a rid gen locked = Inr (db', True)"
  obtains r db2 n where "find_reservation db rid = Some r" "rs_app_id r = da_app_id a"
    "rs_generation r = gen" "\<not> delta_refused db a r" "1 \<le> delta_occupancy a r"
    "adjust_locked_balance db (da_app_id a) locked (delta_amount a r) (da_operation a)
        (da_limit a) = Inr (db2, n)"
    "db' = db2\<lparr>db_reservations := update_rows (\<lambda>x. rs_id x = rid \<and> rs_generation x = gen)
        (delta_row a (delta_occupancy a r)) (db_reservations db2)\<rparr>"
proof -
  from assms obtain r where r: "find_reservation db rid = Some r" "rs_app_id r = da_app_id a"
    "rs_generation r = gen" "\<not> delta_refused db a r"
    by (auto simp: apply_locked_delta_def split: option.splits if_splits)
  from assms r obtain db2 n where "1 \<le> delta_occupancy a r"
    "adjust_locked_balance db (da_app_id a) locked (delta_amount a r) (da_operation a)
        (da_limit a) = Inr (db2, n)"
    "db' = db2\<lparr>db_reservations := update_rows (\<lambda>x. rs_id x = rid \<and> rs_generation x = gen)
        (delta_row a (delta_occupancy a r)) (db_reservations db2)\<rparr>"
    unfolding apply_locked_delta_def delta_amount_def [symmetric] delta_occupancy_def [symmetric]
    by (auto simp: rbind_Inr_iff Let_def split: if_splits)
  with r show thesis by (rule that)
qed

lemma inflight_wf_update_rows:
  assumes "inflight_wf db" and "\<And>r. rs_id (f r) = rs_id r"
    and "\<And>r. r \<in> set (db_reservations db) \<Longrightarrow> p r \<Longrightarrow> 1 \<le> rs_reserved (f r)"
  shows "inflight_wf (db\<lparr>db_reservations := update_rows p f (db_reservations db)\<rparr>)"
  using assms by (auto simp: inflight_wf_def map_update_rows set_update_rows)

lemma apply_reservation_delta_True:
  assumes "apply_reservation_delta db a = Inr (db', True)" and wf: "inflight_wf db"
  obtains rid r bs where "da_reservation_id a = Some rid" "find_reservation db rid = Some r"
    "rs_app_id r = da_app_id a" "da_generation a = Some (rs_generation r)"
    "\<not> delta_refused db a r" "1 \<le> delta_occupancy a r"
    "db' = db\<lparr>db_balances := bs, db_reservations :=
        update_rows (\<lambda>x. rs_id x = rid \<and> rs_generation x = rs_generation r)
          (delta_row a (delta_occupancy a r)) (db_reservations db)\<rparr>"
    "inflight_wf db'"
    "\<And>x. balance_of db' x = balance_of db x + (if x = da_app_id a then delta_amount a r else 0)"
    "\<And>x. active_sum (db_reservations db') x = active_sum (db_reservations db) x
        + (contribution x (delta_row a (delta_occupancy a r) r) - contribution x r)"
    "delta_amount a r \<noteq> 0 \<Longrightarrow> 0 \<le> balance_of db' (da_app_id a)
       \<and> (\<forall>l. da_limit a = Some l \<longrightarrow> balance_of db' (da_app_id a) \<le> l)"
proof -
  from assms(1) obtain rid gen db1 where
    ids: "da_reservation_id a = Some rid" "da_generation a = Some gen"
    and db1: "db1 = db \<or> db1 = ensure_balance db (da_app_id a)"
    and found: "find_balance db1 (da_app_id a) \<noteq> None"
    and run: "apply_locked_delta db1 a rid gen (balance_of db1 (da_app_id a)) = Inr (db', True)"
    by (rule apply_reservation_delta_InrE)
  from run obtain r db2 n where r: "find_reservation db1 rid = Some r" "rs_app_id r = da_app_id a"
      "rs_generation r = gen" "\<not> delta_refused db1 a r" "1 \<le> delta_occupancy a r"
    and adj: "adjust_locked_balance db1 (da_app_id a) (balance_of db1 (da_app_id a))
        (delta_amount a r) (da_operation a) (da_limit a) = Inr (db2, n)"
    and db': "db' = db2\<lparr>db_reservations := update_rows (\<lambda>x. rs_id x = rid \<and> rs_generation x = gen)
        (delta_row a (delta_occupancy a r)) (db_reservations db2)\<rparr>"
    by (rule apply_locked_delta_TrueE)
  from db1 have wf1: "inflight_wf db1" and bal1: "\<And>x. balance_of db1 x = balance_of db x"
    and res1: "db_reservations db1 = db_reservations db" using wf by auto
  from db1 have frame1: "\<exists>bs. db1 = db\<lparr>db_balances := bs\<rparr>" by (rule ensure_balance_shape)
  have ref1: "delta_refused db1 a r = delta_refused db a r" using db1 by auto
  note adj' = adjust_locked_balance_InrD [OF adj wf1 found refl]
  from adj'(1) obtain bs where db2: "db2 = db1\<lparr>db_balances := bs\<rparr>" and wf2: "inflight_wf db2" by blast
  from frame1 db2 have frame2: "db2 = db\<lparr>db_balances := bs\<rparr>" by auto
  have res2: "db_reservations db2 = db_reservations db" using frame2 by simp
  have bal': "balance_of db' x = balance_of db2 x" for x by (simp add: db' balance_of_alt)
  from r(1) have r': "find_reservation db rid = Some r" by (simp add: find_reservation_def res1)
  then have mem: "r \<in> set (db_reservations db)" "rs_id r = rid"
    using find_reservation_SomeD by blast+
  have dist: "distinct (map rs_id (db_reservations db))" using wf by (simp add: inflight_wf_def)
  show thesis
  proof (rule that [OF ids(1) r' r(2)])
    show "da_generation a = Some (rs_generation r)" using ids(2) r(3) by simp
    show "\<not> delta_refused db a r" using r(4) ref1 by simp
    show "1 \<le> delta_occupancy a r" by (rule r(5))
    show "db' = db\<lparr>db_balances := bs, db_reservations :=
        update_rows (\<lambda>x. rs_id x = rid \<and> rs_generation x = rs_generation r)
          (delta_row a (delta_occupancy a r)) (db_reservations db)\<rparr>"
      by (simp add: db' frame2 r(3))
    show "inflight_wf db'"
      unfolding db' using r(5)
      by (intro inflight_wf_update_rows wf2) (auto simp: delta_row_def)
    show "balance_of db' x = balance_of db x + (if x = da_app_id a then delta_amount a r else 0)" for x
      using adj'(2) [of x] by (simp add: bal' bal1)
    show "active_sum (db_reservations db') x = active_sum (db_reservations db) x
        + (contribution x (delta_row a (delta_occupancy a r) r) - contribution x r)" for x
      unfolding db' using mem r(3) by (simp add: res2) (rule active_sum_update_row [OF dist], auto)
    show "delta_amount a r \<noteq> 0 \<Longrightarrow> 0 \<le> balance_of db' (da_app_id a)
       \<and> (\<forall>l. da_limit a = Some l \<longrightarrow> balance_of db' (da_app_id a) \<le> l)"
      using adj'(2) [of "da_app_id a"] adj'(3,4) by (simp add: bal')
  qed
qed

text \<open>A conversion keeps the equation when the amount it moves the balance by is the change of the
  row's own contribution.\<close>

lemma delta_row_sel [simp]:
  "rs_app_id (delta_row a n r) = rs_app_id r" "rs_id (delta_row a n r) = rs_id r"
  "rs_reserved (delta_row a n r) = n" "rs_batch_id (delta_row a n r) = rs_batch_id r"
  by (simp_all add: delta_row_def)

lemma apply_reservation_delta_inv:
  assumes "apply_reservation_delta db a = Inr (db', b)" and "inflight_inv db"
    and "\<And>r rid. da_reservation_id a = Some rid \<Longrightarrow> find_reservation db rid = Some r
      \<Longrightarrow> rs_app_id r = da_app_id a \<Longrightarrow> da_generation a = Some (rs_generation r)
      \<Longrightarrow> \<not> delta_refused db a r
      \<Longrightarrow> delta_amount a r = contribution (da_app_id a) (delta_row a (delta_occupancy a r) r)
            - contribution (da_app_id a) r"
  shows "inflight_inv db'"
proof (cases b)
  case False
  with assms(1) have "apply_reservation_delta db a = Inr (db', False)" by simp
  then show ?thesis
  proof (rule apply_reservation_delta_InrE)
    fix db1 rid gen
    assume "db1 = db \<or> db1 = ensure_balance db (da_app_id a)"
      and "apply_locked_delta db1 a rid gen (balance_of db1 (da_app_id a)) = Inr (db', False)"
    with assms(2) show ?thesis by (auto dest: apply_locked_delta_False)
  qed
next
  case True
  with assms(1) have run: "apply_reservation_delta db a = Inr (db', True)" by simp
  have wf: "inflight_wf db" and con: "\<And>x. balance_of db x = active_sum (db_reservations db) x"
    using assms(2) by (auto simp: inflight_inv_def conserved_iff)
  from run wf show ?thesis
  proof (rule apply_reservation_delta_True)
    fix rid r bs
    assume *: "da_reservation_id a = Some rid" "find_reservation db rid = Some r"
      "rs_app_id r = da_app_id a" "da_generation a = Some (rs_generation r)"
      "\<not> delta_refused db a r" and wf': "inflight_wf db'"
      and bal: "\<And>x. balance_of db' x = balance_of db x
          + (if x = da_app_id a then delta_amount a r else 0)"
      and act: "\<And>x. active_sum (db_reservations db') x = active_sum (db_reservations db) x
        + (contribution x (delta_row a (delta_occupancy a r) r) - contribution x r)"
    have "balance_of db' x = active_sum (db_reservations db') x" for x
    proof (cases "x = da_app_id a")
      case True
      with bal act con assms(3) [OF *] show ?thesis by simp
    next
      case False
      with *(3) have "contribution x r = 0"
        "contribution x (delta_row a (delta_occupancy a r) r) = 0"
        by (auto simp: contribution_def)
      with False bal act con show ?thesis by simp
    qed
    with wf' show ?thesis by (simp add: inflight_inv_def conserved_iff)
  qed
qed

lemma apply_inflight_delta_inv:
  assumes "apply_inflight_delta db a = Inr (db', b)" and "da_operation a \<noteq> ''reserve''"
    and "inflight_inv db"
    and "\<And>r rid. da_reservation_id a = Some rid \<Longrightarrow> find_reservation db rid = Some r
      \<Longrightarrow> rs_app_id r = da_app_id a \<Longrightarrow> da_generation a = Some (rs_generation r)
      \<Longrightarrow> \<not> delta_refused db a r
      \<Longrightarrow> delta_amount a r = contribution (da_app_id a) (delta_row a (delta_occupancy a r) r)
            - contribution (da_app_id a) r"
  shows "inflight_inv db'"
proof -
  from assms(1,2) obtain c where "apply_reservation_delta db a = Inr (db', c)"
    by (auto simp: apply_inflight_delta_def rbind_Inr_iff)
  from apply_reservation_delta_inv [OF this assms(3,4)] show ?thesis .
qed

lemmas delta_simps = delta_defaults_def delta_amount_def delta_occupancy_def contribution_def
  delta_refused_def delta_row_def is_active_def ACTIVE_INFLIGHT_STATES_def

lemma delta_bool_Inr:
  "rbind m (\<lambda>p. Inr (delta_bool p)) = Inr (db', b) \<Longrightarrow> \<exists>c. m = Inr (db', c)"
  by (auto simp: rbind_Inr_iff delta_bool_def)

lemma release_unbound_inv:
  assumes "release_unbound_acceptance_reservation db rid gen app = Inr (db', b)" "inflight_inv db"
  shows "inflight_inv db'"
  using assms unfolding release_unbound_acceptance_reservation_def
  by (auto split: option.splits dest!: delta_bool_Inr elim!: apply_inflight_delta_inv
      simp: delta_simps)

lemma release_inv:
  assumes "release_in_flight_reservation db rid gen reason app = Inr (db', b)" "inflight_inv db"
  shows "inflight_inv db'"
proof (cases "reason = ''acceptance-failed''")
  case True
  with assms show ?thesis
    by (auto simp: release_in_flight_reservation_def intro: release_unbound_inv)
next
  case False
  with assms show ?thesis
    by (auto simp: release_in_flight_reservation_def split: option.splits dest!: delta_bool_Inr
        elim!: apply_inflight_delta_inv) (auto simp: delta_simps)
qed

lemma request_release_inv:
  assumes "request_inflight_release_for_batch db batch reason = Inr (db', b)" "inflight_inv db"
  shows "inflight_inv db'"
  using assms by (auto simp: request_inflight_release_for_batch_def split: option.splits
      intro: release_inv)

lemma find_reservation_unique:
  assumes "inflight_wf db" "r \<in> set (db_reservations db)"
  shows "find_reservation db (rs_id r) = Some r"
  using assms first_row_unique [of rs_id "db_reservations db" r]
  by (simp add: find_reservation_def inflight_wf_def)

lemma bound_reservation_SomeD:
  "bound_reservation db batch = Some r \<Longrightarrow> r \<in> set (db_reservations db)
     \<and> rs_batch_id r = Some batch \<and> (rs_state r = V_batch_bound \<or> rs_state r = V_materialized)"
  unfolding bound_reservation_def by (auto dest: first_row_SomeD)

lemma materialize_inv:
  assumes "materialize_in_flight_reservation db batch actual limit = Inr db'" "inflight_inv db"
  shows "inflight_inv db'"
proof (cases "bound_reservation db batch")
  case None
  with assms show ?thesis by (auto simp: materialize_in_flight_reservation_def split: if_splits)
next
  case (Some r)
  then have f: "find_reservation db (rs_id r) = Some r"
    using assms(2) by (auto dest!: bound_reservation_SomeD
        intro: find_reservation_unique simp: inflight_inv_def)
  from assms Some show ?thesis
    by (auto simp: materialize_in_flight_reservation_def materialize_on_def Let_def rbind_Inr_iff
        split: if_splits elim!: apply_inflight_delta_inv) (auto simp: delta_simps f)
qed

lemma expand_inv:
  assumes "expand_in_flight_for_split db batch delta limit = Inr (db', b)" "inflight_inv db"
  shows "inflight_inv db'"
proof (cases "bound_reservation db batch")
  case None
  with assms show ?thesis by (auto simp: expand_in_flight_for_split_def split: if_splits)
next
  case (Some r)
  then have f: "find_reservation db (rs_id r) = Some r"
    using assms(2) by (auto dest!: bound_reservation_SomeD
        intro: find_reservation_unique simp: inflight_inv_def)
  from assms Some show ?thesis
    by (auto simp: expand_in_flight_for_split_def expand_on_def Let_def
        split: if_splits dest!: delta_bool_Inr elim!: apply_inflight_delta_inv)
      (auto simp: delta_simps f)
qed

lemma apply_reserve_inv:
  assumes "apply_reserve db app estimated limit = Inr (db', res)" and "inflight_inv db"
  shows "inflight_inv db'"
    and "balance_of db' app = balance_of db app + estimated"
    and "\<exists>l. limit = Some l \<and> balance_of db' app \<le> l"
    and "find_reservation db' (ifr_id res) = Some \<lparr>rs_id = ifr_id res, rs_app_id = app,
       rs_batch_id = None, rs_reserved = estimated, rs_materialized = None, rs_state = V_reserved,
       rs_generation = ifr_generation res, rs_expires_at = Some (db_now db + seconds 900),
       rs_release_reason = None\<rparr>"
proof -
  from assms(1) obtain db1 locked db2 n l where est: "1 \<le> estimated" and l: "limit = Some l"
    and lock: "lock_balance db app ''reserve'' True = Inr (db1, locked)"
    and adj: "adjust_locked_balance db1 app locked estimated ''reserve'' limit = Inr (db2, n)"
    and db': "db' = db2\<lparr>db_reservations := db_reservations db2 @
       [\<lparr>rs_id = serial (map rs_id (db_reservations db2)), rs_app_id = app, rs_batch_id = None,
         rs_reserved = estimated, rs_materialized = None, rs_state = V_reserved, rs_generation = 1,
         rs_expires_at = Some (db_now db2 + seconds 900), rs_release_reason = None\<rparr>]\<rparr>"
    and res: "res = \<lparr>ifr_id = serial (map rs_id (db_reservations db2)), ifr_generation = 1,
         ifr_estimated_chunks = estimated\<rparr>"
    by (auto simp: apply_reserve_def rbind_Inr_iff Let_def split: if_splits option.splits)
  have wf: "inflight_wf db" and con: "\<And>x. balance_of db x = active_sum (db_reservations db) x"
    using assms(2) by (auto simp: inflight_inv_def conserved_iff)
  from lock_balance_InrD [OF lock] have db1: "db1 = ensure_balance db app"
    and locked: "locked = balance_of db1 app" and found: "find_balance db1 app \<noteq> None" by auto
  have wf1: "inflight_wf db1" using wf by (simp add: db1)
  note adj' = adjust_locked_balance_InrD [OF adj wf1 found locked]
  from adj'(1) obtain bs where db2: "db2 = db1\<lparr>db_balances := bs\<rparr>" and wf2: "inflight_wf db2"
    by blast
  have res2: "db_reservations db2 = db_reservations db" and now2: "db_now db2 = db_now db"
    by (simp_all add: db2 db1)
  have bal: "balance_of db' x = balance_of db x + (if x = app then estimated else 0)" for x
    using adj'(2) [of x] by (simp add: db' balance_of_alt db1 [symmetric]) (simp add: balance_of_alt [symmetric] db1)
  have wf': "inflight_wf db'"
    using wf2 est by (auto simp: db' inflight_wf_def res2 dest: serial_map_fresh [where k = rs_id])
  show "inflight_inv db'"
    using wf' bal con
    by (auto simp: inflight_inv_def conserved_iff db' res2 active_sum_contribution contribution_def
        is_active_def ACTIVE_INFLIGHT_STATES_def)
  show "balance_of db' app = balance_of db app + estimated" using bal by simp
  show "\<exists>l. limit = Some l \<and> balance_of db' app \<le> l"
    using adj'(3,4) est l bal [of app] locked by (auto simp: db1)
  show "find_reservation db' (ifr_id res) = Some \<lparr>rs_id = ifr_id res, rs_app_id = app,
       rs_batch_id = None, rs_reserved = estimated, rs_materialized = None, rs_state = V_reserved,
       rs_generation = ifr_generation res, rs_expires_at = Some (db_now db + seconds 900),
       rs_release_reason = None\<rparr>"
    by (auto simp: db' res now2 find_reservation_def first_row_append split: option.split
        dest!: first_row_SomeD serial_map_fresh [where k = rs_id]) (simp add: first_row_def)
qed

lemma reserve_inv:
  assumes "reserve_in_flight_chunks db app estimated limit = Inr (db', res)" "inflight_inv db"
  shows "inflight_inv db'"
  using assms
  by (auto simp: reserve_in_flight_chunks_def apply_inflight_delta_def delta_defaults_def
      rbind_Inr_iff intro: apply_reserve_inv(1))

text \<open>Binding moves no capacity: the row stays active with the same occupancy.\<close>

lemma active_sum_update_same:
  assumes "\<And>r. r \<in> set rows \<Longrightarrow> p r \<Longrightarrow> contribution app (f r) = contribution app r"
  shows "active_sum (update_rows p f rows) app = active_sum rows app"
  using assms unfolding active_sum_contribution
  by (induction rows) (auto simp: update_rows_def)

lemma bind_inv:
  assumes "bind_in_flight_reservation db rid gen batch app = Inr db'" "inflight_inv db"
  shows "inflight_inv db'"
proof -
  let ?rows = "update_rows (bindable db rid gen app) (\<lambda>r. r\<lparr>rs_batch_id := Some batch, rs_state := V_batch_bound\<rparr>)
      (db_reservations db)"
  from assms(1) have "db_reservations db' = ?rows \<and> db_balances db' = db_balances db"
    by (auto simp: bind_in_flight_reservation_def rbind_Inr_iff lock_balance_def Let_def
        set_batches_def split: option.splits if_splits)
  moreover have "active_sum ?rows x = active_sum (db_reservations db) x" for x
    by (rule active_sum_update_same)
      (auto simp: contribution_def is_active_def ACTIVE_INFLIGHT_STATES_def bindable_def)
  moreover have "inflight_wf (db\<lparr>db_reservations := ?rows\<rparr>)"
    using assms(2) by (intro inflight_wf_update_rows) (auto simp: inflight_inv_def inflight_wf_def)
  ultimately show ?thesis
    using assms(2) by (auto simp: inflight_inv_def inflight_wf_def conserved_iff balance_of_alt)
qed

lemma ensure_balances_inv [simp]: "inflight_inv db \<Longrightarrow> inflight_inv (ensure_balances db apps)"
proof -
  have "inflight_inv db \<Longrightarrow> inflight_inv (fold (\<lambda>app db. ensure_balance db app) xs db)" for xs
    by (induction xs arbitrary: db) auto
  then show "inflight_inv db \<Longrightarrow> inflight_inv (ensure_balances db apps)"
    by (simp add: ensure_balances_def)
qed

lemma ensure_balances_frame [simp]:
  "db_reservations (ensure_balances db apps) = db_reservations db"
  "find_reservation (ensure_balances db apps) i = find_reservation db i"
proof -
  have "db_reservations (fold (\<lambda>app db. ensure_balance db app) xs db) = db_reservations db" for xs
    by (induction xs arbitrary: db) auto
  then show "db_reservations (ensure_balances db apps) = db_reservations db"
    and "find_reservation (ensure_balances db apps) i = find_reservation db i"
    by (simp_all add: ensure_balances_def find_reservation_def)
qed

lemma bind_pointer_row_inv:
  assumes "bind_pointer_row (db, n) rb = Inr (db', n')" "inflight_inv db"
  shows "inflight_inv db'"
  using assms by (auto simp: bind_pointer_row_def Let_def rbind_Inr_iff split: prod.splits if_splits
      intro: bind_inv)

lemma bind_reserved_inv:
  assumes "bind_reserved_reservation_to_existing_batch db limit = Inr (db', n)" "inflight_inv db"
  shows "inflight_inv db'"
proof -
  have "inflight_inv (fst (db', n))"
    using assms unfolding bind_reserved_reservation_to_existing_batch_def Let_def
    by (elim foldM_invariant) (auto dest: bind_pointer_row_inv)
  then show ?thesis by simp
qed

text \<open>Repairs decide on a row read earlier. They keep the equation as long as the row still has the
  occupancy that was read.\<close>

lemma repair_drift_row_inv:
  assumes "repair_drift_row (db, n) row = Inr (db', n')" "inflight_inv db" "fresh_read db row"
  shows "inflight_inv db'"
  using assms
  by (auto simp: repair_drift_row_def Let_def rbind_Inr_iff split: if_splits
      elim!: apply_inflight_delta_inv) (auto simp: delta_simps fresh_read_def)

lemma repair_misreleased_row_inv:
  assumes "repair_misreleased_row (db, n) row = Inr (db', n')" "inflight_inv db" "fresh_read db row"
  shows "inflight_inv db'"
  using assms
  by (auto simp: repair_misreleased_row_def Let_def rbind_Inr_iff split: if_splits option.splits
      elim!: apply_inflight_delta_inv) (auto simp: delta_simps fresh_read_def)

lemma apply_inflight_delta_other:
  assumes "apply_inflight_delta db a = Inr (db', b)" "da_operation a \<noteq> ''reserve''"
    "da_reservation_id a = Some rid" "i \<noteq> rid"
  shows "find_reservation db' i = find_reservation db i"
proof -
  from assms(1,2) obtain c where "apply_reservation_delta db a = Inr (db', c)"
    by (auto simp: apply_inflight_delta_def rbind_Inr_iff)
  then show ?thesis
  proof (rule apply_reservation_delta_InrE)
    fix rid' gen db1
    assume *: "da_reservation_id a = Some rid'" "db1 = db \<or> db1 = ensure_balance db (da_app_id a)"
      "apply_locked_delta db1 a rid' gen (balance_of db1 (da_app_id a)) = Inr (db', c)"
    then have res1: "find_reservation db1 i = find_reservation db i" by auto
    show ?thesis
    proof (cases c)
      case False
      with * res1 show ?thesis by (auto dest: apply_locked_delta_False)
    next
      case True
      with *(3) have "apply_locked_delta db1 a rid' gen (balance_of db1 (da_app_id a))
          = Inr (db', True)" by simp
      then show ?thesis
      proof (rule apply_locked_delta_TrueE)
        fix r db2 n
        assume adj: "adjust_locked_balance db1 (da_app_id a) (balance_of db1 (da_app_id a))
            (delta_amount a r) (da_operation a) (da_limit a) = Inr (db2, n)"
          and db': "db' = db2\<lparr>db_reservations := update_rows (\<lambda>x. rs_id x = rid' \<and> rs_generation x = gen)
            (delta_row a (delta_occupancy a r)) (db_reservations db2)\<rparr>"
        have "db_reservations db2 = db_reservations db1"
          using adj by (auto simp: adjust_locked_balance_def Let_def split: if_splits)
        moreover have "first_row (\<lambda>r. rs_id r = i) (update_rows
            (\<lambda>x. rs_id x = rid' \<and> rs_generation x = gen) (delta_row a (delta_occupancy a r))
            (db_reservations db2)) = first_row (\<lambda>r. rs_id r = i) (db_reservations db2)"
          by (rule first_row_update_other) (use *(1) assms(3,4) in auto)
        ultimately show ?thesis using res1 by (simp add: db' find_reservation_def)
      qed
    qed
  qed
qed

text \<open>A loop that repairs the rows of a snapshot one after the other, touching only the row at
  hand.\<close>

locale row_repair =
  fixes repair :: "db \<times> int \<Rightarrow> inflight_reservation \<Rightarrow> (db \<times> int) res"
  assumes repair_inv: "repair (db, n) row = Inr (db', n') \<Longrightarrow> inflight_inv db \<Longrightarrow> fresh_read db row
      \<Longrightarrow> inflight_inv db'"
    and repair_other: "repair (db, n) row = Inr (db', n') \<Longrightarrow> i \<noteq> rs_id row
      \<Longrightarrow> find_reservation db' i = find_reservation db i"
begin

lemma repair_loop_inv:
  assumes "foldM repair (db, n) rows = Inr (db', n')" "inflight_inv db"
    and "distinct (map rs_id rows)" "\<forall>row\<in>set rows. fresh_read db row"
  shows "inflight_inv db'"
  using assms
proof (induction rows arbitrary: db n)
  case (Cons row rows)
  from Cons.prems(1) obtain db1 n1 where run: "repair (db, n) row = Inr (db1, n1)"
    "foldM repair (db1, n1) rows = Inr (db', n')" by (auto simp: rbind_Inr_iff)
  have "inflight_inv db1" using repair_inv [OF run(1) Cons.prems(2)] Cons.prems(4) by simp
  moreover have "\<forall>r\<in>set rows. fresh_read db1 r"
    using Cons.prems(3,4) repair_other [OF run(1)] by (force simp: fresh_read_def image_iff)
  ultimately show ?case using Cons.IH [OF run(2)] Cons.prems(3) by simp
qed simp

end

lemma repair_drift_row_other:
  assumes "repair_drift_row (db, n) row = Inr (db', n')" "i \<noteq> rs_id row"
  shows "find_reservation db' i = find_reservation db i"
  using assms
  by (auto simp: repair_drift_row_def Let_def rbind_Inr_iff split: if_splits
      elim!: apply_inflight_delta_other) (auto simp: delta_defaults_def)

lemma repair_misreleased_row_other:
  assumes "repair_misreleased_row (db, n) row = Inr (db', n')" "i \<noteq> rs_id row"
  shows "find_reservation db' i = find_reservation db i"
  using assms
  by (auto simp: repair_misreleased_row_def Let_def rbind_Inr_iff split: if_splits option.splits
      elim!: apply_inflight_delta_other) (auto simp: delta_defaults_def)

interpretation drift: row_repair repair_drift_row
  by unfold_locales (rule repair_drift_row_inv repair_drift_row_other; assumption)+

interpretation misreleased: row_repair repair_misreleased_row
  by unfold_locales (rule repair_misreleased_row_inv repair_misreleased_row_other; assumption)+

lemma fresh_read_current:
  assumes "inflight_wf db" "row \<in> set (db_reservations db)"
  shows "fresh_read db row"
  using find_reservation_unique [OF assms] by (simp add: fresh_read_def)

lemma fresh_read_ensure [simp]: "fresh_read (ensure_balances db apps) row = fresh_read db row"
  by (simp add: fresh_read_def)

lemma drift_loop_inv:
  assumes "reconcile_split_occupancy_drift db limit (Some rows) = Inr (db', n)" "inflight_inv db"
    and "distinct (map rs_id rows)" "\<forall>row\<in>set rows. fresh_read db row"
  shows "inflight_inv db'"
  using assms by (auto simp: reconcile_split_occupancy_drift_def intro: drift.repair_loop_inv)

lemma drift_inv:
  assumes "reconcile_split_occupancy_drift db limit None = Inr (db', n)" "inflight_inv db"
  shows "inflight_inv db'"
proof (rule drift_loop_inv)
  show "reconcile_split_occupancy_drift db limit (Some (drift_rows db limit)) = Inr (db', n)"
    using assms(1) by (simp add: reconcile_split_occupancy_drift_def)
  have "inflight_wf db" using assms(2) by (simp add: inflight_inv_def)
  then show "distinct (map rs_id (drift_rows db limit))"
    "\<forall>row\<in>set (drift_rows db limit). fresh_read db row"
    unfolding drift_rows_def
    by (auto simp: inflight_wf_def intro!: distinct_map_snapshot fresh_read_current
        dest: set_snapshot [THEN subsetD])
qed (rule assms(2))

lemma misreleased_inv:
  assumes "repair_misreleased_bound_reservations db limit = Inr (db', n)" "inflight_inv db"
  shows "inflight_inv db'"
proof (rule misreleased.repair_loop_inv)
  show "foldM repair_misreleased_row (ensure_balances db (map rs_app_id (misreleased_rows db limit)), 0)
      (misreleased_rows db limit) = Inr (db', n)"
    using assms(1) by (simp add: repair_misreleased_bound_reservations_def Let_def)
  have "inflight_wf db" using assms(2) by (simp add: inflight_inv_def)
  then show "distinct (map rs_id (misreleased_rows db limit))"
    "\<forall>row\<in>set (misreleased_rows db limit).
       fresh_read (ensure_balances db (map rs_app_id (misreleased_rows db limit))) row"
    unfolding misreleased_rows_def
    by (auto simp: inflight_wf_def intro!: distinct_map_snapshot fresh_read_current
        dest: set_snapshot [THEN subsetD])
qed (simp add: assms(2))

text \<open>The stored procedure makes the equation true for its application, from any state in which no
  batch has two active reservations, and does not touch the others.\<close>

lemma balance_of_set_balance:
  assumes "\<And>r. bal_app_id (f r) = bal_app_id r"
  shows "balance_of (set_balance db app f) x =
    (if x = app then (case find_balance db app of None \<Rightarrow> 0 | Some r \<Rightarrow> bal_reserved (f r))
     else balance_of db x)"
proof -
  have "first_row (\<lambda>r. bal_app_id r = x)
      (update_rows (\<lambda>r. bal_app_id r = app) f (db_balances db)) =
    map_option (\<lambda>r. if bal_app_id r = app then f r else r)
      (first_row (\<lambda>r. bal_app_id r = x) (db_balances db))"
    by (rule first_row_update_rows) (rule assms)
  then show ?thesis
    by (auto simp: balance_of_alt set_balance_def find_balance_def split: option.split
        dest: first_row_SomeD)
qed

lemma add_fact_frame [simp]:
  "db_balances (add_fact db app s c d res) = db_balances db"
  "db_reservations (add_fact db app s c d res) = db_reservations db"
  by (simp_all add: add_fact_def)

lemma add_fact_inv [simp]:
  "balance_of (add_fact db app s c d res) x = balance_of db x"
  "inflight_wf (add_fact db app s c d res) = inflight_wf db"
  by (simp_all add: balance_of_alt inflight_wf_def)

lemma set_balance_wf [simp]:
  assumes "\<And>r. bal_app_id (f r) = bal_app_id r"
  shows "inflight_wf (set_balance db app f) = inflight_wf db"
  using assms by (auto simp: inflight_wf_def set_balance_def map_update_rows)

lemma mark_blocked_set_balance:
  "mark_conservation_blocked db app = set_balance db app
     (\<lambda>r. r\<lparr>bal_blocked_at := Some (case bal_blocked_at r of Some t \<Rightarrow> t | None \<Rightarrow> db_now db)\<rparr>)"
  by (simp add: mark_conservation_blocked_def set_balance_def)

lemma set_balance_reservations [simp]:
  "db_reservations (set_balance db app f) = db_reservations db"
  by (simp add: set_balance_def)

lemma reconcile_app_reservations [simp]:
  "db_reservations (fst (reconcile_send_inflight_app db app)) = db_reservations db"
  by (auto simp: reconcile_send_inflight_app_def Let_def mark_blocked_set_balance
      split: option.split)

lemma balance_of_insert:
  assumes "find_balance db app = None"
  shows "balance_of (db\<lparr>db_balances := db_balances db @
      [\<lparr>bal_app_id = app, bal_reserved = n, bal_blocked_at = t\<rparr>]\<rparr>) x
    = (if x = app then n else balance_of db x)"
proof (cases "first_row (\<lambda>r. bal_app_id r = x) (db_balances db)")
  case None
  then show ?thesis by (simp add: balance_of_alt first_row_append) (simp add: first_row_def)
next
  case (Some r)
  with assms have "x \<noteq> app" by (auto simp: find_balance_def)
  with Some show ?thesis by (simp add: balance_of_alt first_row_append)
qed

lemma reconcile_app_balance:
  "balance_of (fst (reconcile_send_inflight_app db app)) x =
     (if x = app \<and> \<not> duplicate_bound db app then active_sum (db_reservations db) app
      else balance_of db x)"
proof (cases "find_balance db app")
  case None
  then show ?thesis
    by (simp add: reconcile_send_inflight_app_def Let_def balance_of_insert)
      (simp add: balance_of_def)
next
  case (Some r)
  then show ?thesis
    by (simp add: reconcile_send_inflight_app_def Let_def balance_of_set_balance
        mark_blocked_set_balance) (auto simp: balance_of_def)
qed

lemma reconcile_app_wf:
  assumes "inflight_wf db"
  shows "inflight_wf (fst (reconcile_send_inflight_app db app))"
  using assms
  by (auto simp: reconcile_send_inflight_app_def Let_def mark_blocked_set_balance
      split: option.split)
    (auto simp: inflight_wf_def find_balance_def first_row_None_iff)

lemma reconcile_app_inv:
  assumes "inflight_inv db"
  shows "inflight_inv (fst (reconcile_send_inflight_app db app))"
  using assms by (auto simp: inflight_inv_def conserved_iff reconcile_app_balance reconcile_app_wf)

lemma reconcile_apps_inv:
  "inflight_inv db \<Longrightarrow> inflight_inv (fst (fold reconcile_app_step apps (db, n)))"
proof (induction apps arbitrary: db n)
  case (Cons app apps)
  obtain db1 o1 where r: "reconcile_send_inflight_app db app = (db1, o1)" by force
  then have "inflight_inv db1" using reconcile_app_inv [OF Cons.prems, of app] by simp
  then show ?case using Cons.IH by (simp add: reconcile_app_step_def r)
qed simp

lemma conservation_inv:
  "inflight_inv db \<Longrightarrow> inflight_inv (fst (reconcile_inflight_balance_conservation db limit apps))"
  by (simp add: reconcile_inflight_balance_conservation_def reconcile_apps_inv)

text \<open>A release changes no occupancy, so reads taken before it stay valid.\<close>

lemma release_delta_fresh:
  assumes "apply_inflight_delta db a = Inr (db', b)" "da_operation a \<noteq> ''reserve''"
    "da_next_reserved a = None" "inflight_wf db" "fresh_read db row"
  shows "fresh_read db' row"
proof -
  from assms(1,2) obtain c where run: "apply_reservation_delta db a = Inr (db', c)"
    by (auto simp: apply_inflight_delta_def rbind_Inr_iff)
  show ?thesis
  proof (cases c)
    case False
    with run show ?thesis
      using assms(5) by (auto elim!: apply_reservation_delta_InrE dest!: apply_locked_delta_False
          simp: fresh_read_def)
  next
    case True
    with run have "apply_reservation_delta db a = Inr (db', True)" by simp
    from this assms(4) show ?thesis
    proof (rule apply_reservation_delta_True)
      fix rid r bs
      assume r: "find_reservation db rid = Some r" and db': "db' = db\<lparr>db_balances := bs,
        db_reservations := update_rows (\<lambda>x. rs_id x = rid \<and> rs_generation x = rs_generation r)
          (delta_row a (delta_occupancy a r)) (db_reservations db)\<rparr>"
      have "find_reservation db' (rs_id row) = map_option
          (\<lambda>x. if rs_id x = rid \<and> rs_generation x = rs_generation r
               then delta_row a (delta_occupancy a r) x else x) (find_reservation db (rs_id row))"
        unfolding db' find_reservation_def db.simps by (simp add: first_row_update_rows)
      with r assms(3,5) show ?thesis
        by (auto simp: fresh_read_def delta_occupancy_def dest: find_reservation_SomeD)
    qed
  qed
qed

lemma release_fresh:
  assumes "release_in_flight_reservation db rid gen reason app = Inr (db', b)" "inflight_wf db"
    "fresh_read db row"
  shows "fresh_read db' row"
proof -
  from assms(1) have "db' = db \<or> (\<exists>a c. apply_inflight_delta db a = Inr (db', c)
      \<and> da_operation a = ''release'' \<and> da_next_reserved a = None)"
    by (auto simp: release_in_flight_reservation_def release_unbound_acceptance_reservation_def
        delta_defaults_def split: if_splits option.splits dest!: delta_bool_Inr)
  then show ?thesis using assms(2,3) by (auto intro: release_delta_fresh)
qed

lemma release_loop_inv:
  assumes "foldM release_row (db, n) rrs = Inr (db', n')" "inflight_inv db"
    "\<forall>row\<in>set rows. fresh_read db row"
  shows "inflight_inv db' \<and> (\<forall>row\<in>set rows. fresh_read db' row)"
proof -
  let ?P = "\<lambda>st. inflight_inv (fst st) \<and> (\<forall>row\<in>set rows. fresh_read (fst st) row)"
  have "?P (db', n')"
  proof (rule foldM_invariant [OF assms(1)])
    show "?P (db, n)" using assms(2,3) by simp
    fix st rr st' assume P: "?P st" and "release_row st rr = Inr st'"
    then obtain b where run: "release_in_flight_reservation (fst st) (rs_id (fst rr))
        (rs_generation (fst rr)) (snd rr) None = Inr (fst st', b)"
      by (auto simp: release_row_def Let_def rbind_Inr_iff split: prod.splits)
    have "inflight_wf (fst st)" using P by (simp add: inflight_inv_def)
    then show "?P st'" using P release_inv [OF run] release_fresh [OF run] by blast
  qed
  then show ?thesis by simp
qed

lemma reconcile_inv:
  assumes "reconcile_in_flight_reservations db limit = Inr (db', n)" "inflight_inv db"
  shows "inflight_inv db'"
proof -
  let ?drift = "drift_rows db limit"
  let ?db0 = "ensure_balances db (map rs_app_id (orphan_rows db limit)
     @ map (\<lambda>(r, _). rs_app_id r) (terminal_rows db limit) @ map rs_app_id ?drift
     @ conservation_apps db limit)"
  from assms(1) obtain db1 n1 db2 n2 db3 n3 where
    r1: "foldM release_row (?db0, 0) (map (\<lambda>r. (r, ''orphan-expired'')) (orphan_rows db limit))
      = Inr (db1, n1)"
    and r2: "foldM release_row (db1, n1) (map (\<lambda>(r, s). (r, the (release_reason_for s)))
      (terminal_rows db limit)) = Inr (db2, n2)"
    and r3: "reconcile_split_occupancy_drift db2 limit (Some ?drift) = Inr (db3, n3)"
    and r4: "db' = fst (reconcile_inflight_balance_conservation db3 limit
      (Some (conservation_apps db limit)))"
    by (auto simp: reconcile_in_flight_reservations_def Let_def rbind_Inr_iff case_prod_unfold)
  have wf: "inflight_wf db" using assms(2) by (simp add: inflight_inv_def)
  have dist: "distinct (map rs_id ?drift)" and fresh: "\<forall>row\<in>set ?drift. fresh_read ?db0 row"
    unfolding drift_rows_def using wf
    by (auto simp: inflight_wf_def intro!: distinct_map_snapshot fresh_read_current
        dest: set_snapshot [THEN subsetD])
  have "inflight_inv db1 \<and> (\<forall>row\<in>set ?drift. fresh_read db1 row)"
    using release_loop_inv [OF r1 _ fresh] assms(2) by simp
  then have "inflight_inv db2 \<and> (\<forall>row\<in>set ?drift. fresh_read db2 row)"
    using release_loop_inv [OF r2] by blast
  then have "inflight_inv db3" using drift_loop_inv [OF r3 _ dist] by blast
  then show ?thesis by (simp add: r4 conservation_inv)
qed

lemma mark_blocked_inv: "inflight_inv db \<Longrightarrow> inflight_inv (mark_conservation_blocked db app)"
proof -
  have "balance_of (mark_conservation_blocked db app) x = balance_of db x" for x
    by (simp add: mark_blocked_set_balance balance_of_set_balance)
      (simp add: balance_of_def split: option.split)
  then show "inflight_inv db \<Longrightarrow> inflight_inv (mark_conservation_blocked db app)"
    by (auto simp: inflight_inv_def conserved_iff mark_blocked_set_balance)
qed

section \<open>The ledger as a transition system\<close>

lemma inflight_step_inv: "inflight_step db db' \<Longrightarrow> inflight_inv db \<Longrightarrow> inflight_inv db'"
proof (induction rule: inflight_step.induct)
  case (outside db' db)
  then show ?case by (simp add: inflight_inv_def inflight_wf_def conserved_iff balance_of_alt)
qed (auto intro: reserve_inv bind_inv release_inv release_unbound_inv request_release_inv
    materialize_inv expand_inv drift_inv misreleased_inv bind_reserved_inv reconcile_inv
    conservation_inv mark_blocked_inv)

lemma inflight_inv_empty [simp]: "inflight_inv (empty_db t)"
  by (simp add: inflight_inv_def inflight_wf_def conserved_iff balance_of_alt empty_db_def
      active_sum_def first_row_def)

interpretation ledger: invariant_system inflight_step inflight_inv
  by unfold_locales (rule inflight_step_inv)

lemma adjust_has_balance:
  assumes "adjust_locked_balance db app stored delta operation limit = Inr (db', n)"
    "find_balance db x \<noteq> None"
  shows "find_balance db' x \<noteq> None"
  using assms by (auto simp: adjust_locked_balance_def Let_def find_balance_def first_row_update_rows
      split: if_splits)

lemma apply_reservation_delta_has_balance:
  assumes "apply_reservation_delta db a = Inr (db', b)"
  shows "find_balance db' (da_app_id a) \<noteq> None"
  using assms
proof (rule apply_reservation_delta_InrE)
  fix rid gen db1
  assume found: "find_balance db1 (da_app_id a) \<noteq> None"
    and run: "apply_locked_delta db1 a rid gen (balance_of db1 (da_app_id a)) = Inr (db', b)"
  show ?thesis
  proof (cases b)
    case False
    with run found show ?thesis by (auto dest: apply_locked_delta_False)
  next
    case True
    with run have "apply_locked_delta db1 a rid gen (balance_of db1 (da_app_id a)) = Inr (db', True)"
      by simp
    then show ?thesis
      by (rule apply_locked_delta_TrueE)
        (use adjust_has_balance [OF _ found] in \<open>force simp: find_balance_def\<close>)
  qed
qed

lemma release_stale_generation:
  assumes "find_reservation db rid = Some r" "rs_generation r \<noteq> gen"
    "find_balance db (rs_app_id r) \<noteq> None"
  shows "release_in_flight_reservation db rid gen reason None = Inr (db, False)"
  using assms
  by (auto simp: release_in_flight_reservation_def release_unbound_acceptance_reservation_def
      require_reservation_app_def apply_inflight_delta_def apply_reservation_delta_def
      apply_locked_delta_def lock_balance_def delta_defaults_def delta_bool_def)

lemma release_TrueE:
  assumes "release_in_flight_reservation db rid gen reason app = Inr (db', True)"
  obtains a where "apply_reservation_delta db a = Inr (db', True)"
    "da_operation a = ''release''" "da_next_state a = Some V_released" "da_reason a = Some reason"
    "da_next_reserved a = None" "da_reservation_id a = Some rid" "da_generation a = Some gen"
    "\<And>r. \<not> delta_refused db a r \<Longrightarrow> is_active r"
proof -
  let ?ss = "if reason = ''acceptance-failed'' then [V_reserved] else ACTIVE_INFLIGHT_STATES"
  from assms obtain x where x: "require_reservation_app db rid app = Some x"
    by (auto simp: release_in_flight_reservation_def release_unbound_acceptance_reservation_def
        split: if_splits option.splits)
  let ?a = "(delta_defaults ''release'' x 0)\<lparr>da_reservation_id := Some rid,
      da_generation := Some gen, da_expected_states := Some ?ss, da_next_state := Some V_released,
      da_reason := Some reason, da_unbound_only := (reason = ''acceptance-failed'')\<rparr>"
  have "apply_reservation_delta db ?a = Inr (db', True)"
    using assms x
    by (auto simp: release_in_flight_reservation_def release_unbound_acceptance_reservation_def
        apply_inflight_delta_def delta_defaults_def rbind_Inr_iff delta_bool_def split: if_splits)
  moreover have "\<not> delta_refused db ?a r \<Longrightarrow> is_active r" for r
    by (auto simp: delta_refused_def delta_defaults_def is_active_def ACTIVE_INFLIGHT_STATES_def
        split: if_splits)
  ultimately show thesis by (intro that [of ?a]) (simp_all add: delta_defaults_def)
qed

lemma conservation_check_iff: "check_send_inflight_balance_conservation db x
    \<longleftrightarrow> balance_of db x = active_sum (db_reservations db) x"
  by (auto simp: check_send_inflight_balance_conservation_def balance_of_def split: option.split)

section \<open>Properties\<close>

text \<open>C16: in every state the reservation module can reach from an empty ledger, with its operations
  and recovery jobs in any order and with any arguments, the balance of each application is the sum
  of its active reservations. The deferred conservation trigger therefore never rejects a
  transaction of the module, and the stored balance is never negative.\<close>

theorem inflight_conservation:
  assumes "inflight_step\<^sup>*\<^sup>* (empty_db t) db"
  shows "check_send_inflight_balance_conservation db app
    \<and> (\<forall>row. find_balance db app = Some row \<longrightarrow> 0 \<le> bal_reserved row)"
proof -
  have inv: "inflight_inv db" using ledger.run_inv [OF assms] by simp
  then have "0 \<le> active_sum (db_reservations db) app"
    by (auto simp: inflight_inv_def inflight_wf_def active_sum_def intro!: sum_list_nonneg) fastforce
  moreover have "check_send_inflight_balance_conservation db app"
    using inv by (simp add: inflight_inv_def conserved_def)
  ultimately show ?thesis
    by (auto simp: check_send_inflight_balance_conservation_def split: option.splits)
qed

theorem inflight_conservation_witness:
  "case reserve_in_flight_chunks (empty_db 0) 7 3 10 of
     Inl e \<Rightarrow> False
   | Inr (db, r) \<Rightarrow> find_balance db 7 = Some \<lparr>bal_app_id = 7, bal_reserved = 3, bal_blocked_at = None\<rparr>
       \<and> check_send_inflight_balance_conservation db 7"
proof -
  let ?run = "reserve_in_flight_chunks (empty_db 0) 7 3 10"
  obtain db r where run: "?run = Inr (db, r)"
    and row: "find_balance db 7 = Some \<lparr>bal_app_id = 7, bal_reserved = 3, bal_blocked_at = None\<rparr>"
    by (simp add: reserve_in_flight_chunks_def apply_inflight_delta_def apply_reserve_def
        delta_defaults_def lock_balance_def ensure_balance_def adjust_locked_balance_def
        find_balance_def first_row_def empty_db_def serial_def update_rows_def)
  have "inflight_step\<^sup>*\<^sup>* (empty_db 0) db"
    using inflight_step.reserve [OF run] by (rule r_into_rtranclp)
  from inflight_conservation [OF this, of 7] run row show ?thesis by simp
qed

text \<open>C17: a reservation is granted exactly when it fits. On an unblocked application with valid
  bounds the request for \<open>n\<close> chunks raises the limit error if the balance would pass the limit, and
  otherwise raises the balance by \<open>n\<close> and records a fresh reservation of generation 1 that holds
  them for fifteen minutes.\<close>

theorem reserve_within_limit:
  assumes "inflight_inv db" "1 \<le> n" "1 \<le> limit"
    and "\<forall>row. find_balance db app = Some row \<longrightarrow> bal_blocked_at row = None"
  shows "if balance_of db app + n > limit
    then reserve_in_flight_chunks db app n limit = Inl InFlightLimitExceeded
    else \<exists>db' r. reserve_in_flight_chunks db app n limit = Inr (db', r)
      \<and> balance_of db' app = balance_of db app + n \<and> balance_of db' app \<le> limit
      \<and> find_reservation db (ifr_id r) = None
      \<and> find_reservation db' (ifr_id r) = Some \<lparr>rs_id = ifr_id r, rs_app_id = app,
          rs_batch_id = None, rs_reserved = n, rs_materialized = None, rs_state = V_reserved,
          rs_generation = 1, rs_expires_at = Some (db_now db + seconds 900),
          rs_release_reason = None\<rparr>"
proof -
  let ?db1 = "ensure_balance db app"
  have "\<exists>row. find_balance ?db1 app = Some row \<and> bal_blocked_at row = None"
    using assms(4) by (auto simp: ensure_balance_def find_balance_def first_row_append
        split: option.split) (simp add: first_row_def)
  then obtain row where row: "find_balance ?db1 app = Some row" "bal_blocked_at row = None" by blast
  then have bal: "bal_reserved row = balance_of db app"
    using balance_of_ensure [of db app app] by (simp add: balance_of_def)
  have nonneg: "0 \<le> balance_of db app"
    using assms(1) by (auto simp: inflight_inv_def inflight_wf_def conserved_iff active_sum_def
        intro!: sum_list_nonneg) fastforce
  have lock: "lock_balance db app ''reserve'' True = Inr (?db1, balance_of db app)"
    using row bal by (simp add: lock_balance_def)
  have ex: "list_ex (\<lambda>r. bal_app_id r = app \<and> bal_reserved r = balance_of db app) (db_balances ?db1)"
    using row bal by (auto simp: list_ex_iff find_balance_def dest: first_row_SomeD)
  have unfold: "reserve_in_flight_chunks db app n limit = apply_reserve db app n (Some limit)"
    by (cases "apply_reserve db app n (Some limit)")
      (auto simp: reserve_in_flight_chunks_def apply_inflight_delta_def delta_defaults_def)
  show ?thesis
  proof (cases "balance_of db app + n > limit")
    case True
    then show ?thesis
      using assms(2,3) nonneg
      by (simp add: unfold apply_reserve_def lock adjust_locked_balance_def)
  next
    case False
    then obtain db' r where run: "apply_reserve db app n (Some limit) = Inr (db', r)"
      using assms(2,3) nonneg ex
      by (simp add: apply_reserve_def lock adjust_locked_balance_def Let_def)
    from run have gen: "ifr_generation r = 1"
      and fresh: "ifr_id r = serial (map rs_id (db_reservations db))"
      by (auto simp: apply_reserve_def lock adjust_locked_balance_def Let_def split: if_splits)
    have "find_reservation db (ifr_id r) = None"
      by (auto simp: find_reservation_def first_row_None_iff fresh
          dest: serial_map_fresh [where k = rs_id])
    with False apply_reserve_inv [OF run assms(1)] gen run show ?thesis
      by (simp add: unfold)
  qed
qed

theorem reserve_within_limit_witness:
  "reserve_in_flight_chunks (empty_db 0) 7 11 10 = Inl InFlightLimitExceeded
   \<and> (\<exists>db' r. reserve_in_flight_chunks (empty_db 0) 7 10 10 = Inr (db', r)
        \<and> balance_of db' 7 = 10)"
proof -
  have b: "balance_of (empty_db 0) 7 = 0" and f: "find_balance (empty_db 0) 7 = None"
    by (simp_all add: balance_of_def find_balance_def empty_db_def first_row_def)
  show ?thesis
    using reserve_within_limit [of "empty_db 0" 11 10 7] reserve_within_limit [of "empty_db 0" 10 10 7]
    by (auto simp: b f)
qed

text \<open>C18: capacity is returned exactly once. A release that reports success lowers the balance of
  the application by what the row held and makes the row released with the next generation; any
  further release with the same identity reports false and changes nothing.\<close>

theorem release_exactly_once:
  assumes "inflight_inv db"
    and "release_in_flight_reservation db rid gen reason None = Inr (db', True)"
  shows "\<exists>r r'. find_reservation db rid = Some r \<and> rs_generation r = gen \<and> is_active r
      \<and> find_reservation db' rid = Some r' \<and> rs_state r' = V_released
      \<and> rs_generation r' = gen + 1 \<and> rs_release_reason r' = Some reason
      \<and> balance_of db' (rs_app_id r) = balance_of db (rs_app_id r) - rs_reserved r
      \<and> release_in_flight_reservation db' rid gen reason2 None = Inr (db', False)"
proof -
  have wf: "inflight_wf db" using assms(1) by (simp add: inflight_inv_def)
  obtain a where a: "apply_reservation_delta db a = Inr (db', True)"
    "da_operation a = ''release''" "da_next_state a = Some V_released" "da_reason a = Some reason"
    "da_next_reserved a = None" "da_reservation_id a = Some rid" "da_generation a = Some gen"
    and active: "\<And>r. \<not> delta_refused db a r \<Longrightarrow> is_active r"
    using assms(2) by (rule release_TrueE) blast
  from a(1) wf show ?thesis
  proof (rule apply_reservation_delta_True)
    fix rid' r bs
    assume "da_reservation_id a = Some rid'" and r: "find_reservation db rid' = Some r"
      and app: "rs_app_id r = da_app_id a" and g: "da_generation a = Some (rs_generation r)"
      and ok: "\<not> delta_refused db a r"
      and db': "db' = db\<lparr>db_balances := bs, db_reservations :=
        update_rows (\<lambda>x. rs_id x = rid' \<and> rs_generation x = rs_generation r)
          (delta_row a (delta_occupancy a r)) (db_reservations db)\<rparr>"
      and bal: "\<And>x. balance_of db' x = balance_of db x
          + (if x = da_app_id a then delta_amount a r else 0)"
    from \<open>da_reservation_id a = Some rid'\<close> a(6) have rid: "rid' = rid" by simp
    have id: "rs_id r = rid" using r find_reservation_SomeD by (simp add: rid)
    let ?r' = "delta_row a (delta_occupancy a r) r"
    have "find_reservation db' rid = map_option (\<lambda>x. if rs_id x = rid \<and> rs_generation x
        = rs_generation r then delta_row a (delta_occupancy a r) x else x) (find_reservation db rid)"
      by (simp add: db' find_reservation_def rid first_row_update_rows)
    then have r': "find_reservation db' rid = Some ?r'" using r id by (simp add: rid)
    have again: "release_in_flight_reservation db' rid gen reason2 None = Inr (db', False)"
      by (rule release_stale_generation [OF r'])
        (use apply_reservation_delta_has_balance [OF a(1)] app a(3,7) g in \<open>simp_all add: delta_row_def\<close>)
    show ?thesis
      using r r' a g ok active app bal [of "rs_app_id r"] again
      by (intro exI [of _ r] exI [of _ ?r']) (simp add: rid delta_row_def delta_amount_def)
  qed
qed

text \<open>A ledger with one application, an active reservation of three chunks bound to batch 5, and an
  unbound one of two.\<close>

definition example_ledger :: db where
  "example_ledger = (empty_db 0)\<lparr>
     db_balances := [\<lparr>bal_app_id = 7, bal_reserved = 5, bal_blocked_at = None\<rparr>],
     db_reservations := [
       \<lparr>rs_id = 1, rs_app_id = 7, rs_batch_id = Some 5, rs_reserved = 3, rs_materialized = None,
        rs_state = V_batch_bound, rs_generation = 1, rs_expires_at = Some 900,
        rs_release_reason = None\<rparr>,
       \<lparr>rs_id = 2, rs_app_id = 7, rs_batch_id = None, rs_reserved = 2, rs_materialized = None,
        rs_state = V_reserved, rs_generation = 1, rs_expires_at = Some 900,
        rs_release_reason = None\<rparr>]\<rparr>"

lemma example_ledger_inv: "inflight_inv example_ledger"
  by (auto simp: inflight_inv_def inflight_wf_def conserved_iff balance_of_alt first_row_def
      example_ledger_def active_sum_def is_active_def ACTIVE_INFLIGHT_STATES_def empty_db_def)

theorem release_exactly_once_witness:
  "case release_in_flight_reservation example_ledger 1 1 ''batch-completed'' None of
     Inl e \<Rightarrow> False
   | Inr (db', b) \<Rightarrow> b \<and> release_in_flight_reservation db' 1 1 ''batch-expired'' None = Inr (db', False)"
proof -
  let ?run = "release_in_flight_reservation example_ledger 1 1 ''batch-completed'' None"
  obtain db' where run: "?run = Inr (db', True)"
    by (simp add: release_in_flight_reservation_def require_reservation_app_def
        find_reservation_def first_row_def example_ledger_def apply_inflight_delta_def
        delta_defaults_def apply_reservation_delta_def apply_locked_delta_def lock_balance_def
        find_balance_def delta_refused_def ACTIVE_INFLIGHT_STATES_def adjust_locked_balance_def
        delta_bool_def)
  with release_exactly_once [OF example_ledger_inv run] show ?thesis by auto
qed

text \<open>C19: the row that \<open>materialize\<close> reads is not locked. If its occupancy has changed by the time the
  balance is locked while generation and state still match, the transaction leaves the balance off
  by exactly that change, so the deferred trigger accepts the commit if and only if the read was
  current.\<close>

theorem materialize_stale_read_is_detected:
  assumes "inflight_inv db" "find_reservation db (rs_id seen) = Some row"
    and "rs_state seen = V_batch_bound" "rs_state row = V_batch_bound"
    and "rs_app_id seen = rs_app_id row" "rs_generation seen = rs_generation row"
    and "materialize_on db seen actual limit = Inr db'"
  shows "balance_of db' (rs_app_id row) - active_sum (db_reservations db') (rs_app_id row)
      = rs_reserved row - rs_reserved seen
    \<and> (check_send_inflight_balance_conservation db' (rs_app_id row)
         \<longleftrightarrow> rs_reserved row = rs_reserved seen)"
proof -
  have wf: "inflight_wf db"
    and con: "\<And>x. balance_of db x = active_sum (db_reservations db) x"
    using assms(1) by (auto simp: inflight_inv_def conserved_iff)
  let ?a = "(delta_defaults ''materialize'' (rs_app_id seen) (max actual 1 - rs_reserved seen))
      \<lparr>da_reservation_id := Some (rs_id seen), da_generation := Some (rs_generation seen),
       da_expected_states := Some [V_batch_bound], da_next_state := Some V_materialized,
       da_next_reserved := Some (max actual 1), da_materialized := Some actual,
       da_limit := Some limit\<rparr>"
  from assms(7,3) obtain b where run: "apply_reservation_delta db ?a = Inr (db', b)"
    by (auto simp: materialize_on_def apply_inflight_delta_def delta_defaults_def rbind_Inr_iff
        Let_def)
  have ok: "\<not> delta_refused db ?a row" using assms(4) by (simp add: delta_refused_def delta_defaults_def)
  have b
  proof (rule ccontr)
    assume "\<not> b"
    with run have "apply_reservation_delta db ?a = Inr (db', False)" by simp
    then show False
    proof (rule apply_reservation_delta_InrE)
      fix rid gen db1
      assume "da_reservation_id ?a = Some rid" "da_generation ?a = Some gen"
        "db1 = db \<or> db1 = ensure_balance db (da_app_id ?a)"
        and "apply_locked_delta db1 ?a rid gen (balance_of db1 (da_app_id ?a)) = Inr (db', False)"
      moreover from this have "find_reservation db1 rid = Some row" "\<not> delta_refused db1 ?a row"
        using assms(2) ok by auto
      ultimately show False
        using assms(5,6) by (auto simp: apply_locked_delta_def rbind_Inr_iff Let_def split: if_splits)
    qed
  qed
  with run have "apply_reservation_delta db ?a = Inr (db', True)" by simp
  from this wf have diff: "balance_of db' (rs_app_id row) - active_sum (db_reservations db') (rs_app_id row)
      = rs_reserved row - rs_reserved seen"
  proof (rule apply_reservation_delta_True)
    fix rid r bs
    assume "da_reservation_id ?a = Some rid" "find_reservation db rid = Some r"
      and bal: "\<And>x. balance_of db' x = balance_of db x
          + (if x = da_app_id ?a then delta_amount ?a r else 0)"
      and act: "\<And>x. active_sum (db_reservations db') x = active_sum (db_reservations db) x
        + (contribution x (delta_row ?a (delta_occupancy ?a r) r) - contribution x r)"
    then have "r = row" using assms(2) by simp
    then show ?thesis
      using bal [of "rs_app_id row"] act [of "rs_app_id row"] con assms(4,5)
      by (simp add: delta_simps)
  qed
  from diff show ?thesis unfolding conservation_check_iff by (intro conjI iffI) linarith+
qed

theorem materialize_stale_read_is_detected_witness:
  "case materialize_on example_ledger
      \<lparr>rs_id = 1, rs_app_id = 7, rs_batch_id = Some 5, rs_reserved = 4, rs_materialized = None,
       rs_state = V_batch_bound, rs_generation = 1, rs_expires_at = Some 900,
       rs_release_reason = None\<rparr> 6 20 of
     Inl e \<Rightarrow> False | Inr db' \<Rightarrow> \<not> check_send_inflight_balance_conservation db' 7"
proof -
  let ?row = "\<lparr>rs_id = 1, rs_app_id = 7, rs_batch_id = Some 5, rs_reserved = 3,
       rs_materialized = None, rs_state = V_batch_bound, rs_generation = 1,
       rs_expires_at = Some 900, rs_release_reason = None\<rparr>"
  let ?seen = "?row\<lparr>rs_reserved := 4\<rparr>"
  have row: "find_reservation example_ledger (rs_id ?seen) = Some ?row"
    by (simp add: find_reservation_def first_row_def example_ledger_def)
  obtain db' where run: "materialize_on example_ledger ?seen 6 20 = Inr db'"
    by (simp add: materialize_on_def find_reservation_def first_row_def example_ledger_def
        apply_inflight_delta_def delta_defaults_def apply_reservation_delta_def
        apply_locked_delta_def lock_balance_def find_balance_def delta_refused_def
        adjust_locked_balance_def)
  from materialize_stale_read_is_detected [OF example_ledger_inv row _ _ _ _ run] run
  show ?thesis by simp
qed

text \<open>C20: the conservation job repairs drift. From any well-formed ledger, conserved or not, it makes
  the balance of every application it is given equal to the sum of that application's active
  reservations, unless a batch of the application has two of them, in which case the application
  is blocked instead; the reservations themselves are left alone.\<close>

theorem conservation_job_repairs:
  assumes "inflight_wf db"
    and "reconcile_inflight_balance_conservation db limit (Some apps) = (db', n)"
    and "app \<in> set apps" "\<not> duplicate_bound db app"
  shows "check_send_inflight_balance_conservation db' app \<and> db_reservations db' = db_reservations db"
proof -
  have bal: "db_reservations (fst (fold reconcile_app_step xs (d, k))) = db_reservations d
      \<and> balance_of (fst (fold reconcile_app_step xs (d, k))) app =
        (if app \<in> set xs \<and> \<not> duplicate_bound d app then active_sum (db_reservations d) app
         else balance_of d app)" for xs d k
  proof (induction xs arbitrary: d k)
    case (Cons x xs)
    obtain d1 o1 where r: "reconcile_send_inflight_app d x = (d1, o1)" by force
    have res: "db_reservations d1 = db_reservations d"
      using reconcile_app_reservations [of d x] by (simp add: r)
    have b1: "balance_of d1 app = (if app = x \<and> \<not> duplicate_bound d x
        then active_sum (db_reservations d) x else balance_of d app)"
      using reconcile_app_balance [of d x app] by (simp add: r)
    have dup: "duplicate_bound d1 y = duplicate_bound d y" for y
      using res by (simp add: duplicate_bound_def active_rows_def)
    obtain k1 where "reconcile_app_step x (d, k) = (d1, k1)" by (simp add: reconcile_app_step_def r)
    then show ?case using Cons.IH [of d1 k1] b1 by (cases "app = x") (simp_all add: res dup)
  qed simp
  from assms(2) have "db' = fst (fold reconcile_app_step (sort (remdups apps)) (db, 0))"
    by (simp add: reconcile_inflight_balance_conservation_def)
  with bal [of "sort (remdups apps)" db 0] assms(3,4) show ?thesis
    by (simp add: conservation_check_iff)
qed

theorem conservation_job_repairs_witness:
  "case reconcile_inflight_balance_conservation
      (example_ledger\<lparr>db_balances := [\<lparr>bal_app_id = 7, bal_reserved = 9, bal_blocked_at = None\<rparr>]\<rparr>)
      100 (Some [7]) of
     (db', n) \<Rightarrow> check_send_inflight_balance_conservation db' 7"
proof -
  let ?db = "example_ledger\<lparr>db_balances := [\<lparr>bal_app_id = 7, bal_reserved = 9, bal_blocked_at = None\<rparr>]\<rparr>"
  have "inflight_wf ?db" using example_ledger_inv by (simp add: inflight_inv_def inflight_wf_def)
  moreover have "\<not> duplicate_bound ?db 7"
    by (simp add: duplicate_bound_def active_rows_def example_ledger_def is_active_def
        ACTIVE_INFLIGHT_STATES_def)
  ultimately show ?thesis
    using conservation_job_repairs [of ?db 100 "[7]" _ _ 7] by (auto split: prod.split)
qed

text \<open>C21: after a commit whose outcome is unknown, \<open>UNBOUND\<close> (the answer that lets the caller release
  the capacity) is given only when the reservation exists, belongs to the application and is bound
  to no batch, and while it is still reserved only when no batch is recorded under the request's
  idempotency key. A reservation that is bound or materialized is never reported as unbound.\<close>

theorem resolve_unbound_is_safe:
  assumes "acr_kind (resolve_ambiguous_acceptance_commit db reachable rid gen app kind scope biz hash)
      = K_unbound"
  shows "\<exists>r. find_reservation db rid = Some r \<and> rs_app_id r = app \<and> rs_batch_id r = None
    \<and> (rs_state r = V_released
        \<or> rs_state r = V_reserved \<and> lookup_idempotent_batch db kind scope biz = None)"
proof -
  from assms obtain r where r: "find_reservation db rid = Some r"
    by (auto simp: resolve_ambiguous_acceptance_commit_def resolution_def split: if_splits option.splits)
  with assms show ?thesis
    by (cases "rs_state r")
      (auto simp: resolve_ambiguous_acceptance_commit_def resolution_def Let_def
        split: if_splits option.splits)
qed

theorem resolve_unbound_is_safe_witness:
  "acr_kind (resolve_ambiguous_acceptance_commit example_ledger True 2 1 7 ''app'' ''7'' ''b'' ''h'')
      = K_unbound
   \<and> (\<exists>r. find_reservation example_ledger 2 = Some r \<and> rs_batch_id r = None)"
proof -
  have "acr_kind (resolve_ambiguous_acceptance_commit example_ledger True 2 1 7 ''app'' ''7'' ''b'' ''h'')
      = K_unbound"
    by (simp add: resolve_ambiguous_acceptance_commit_def find_reservation_def first_row_def
        example_ledger_def lookup_idempotent_batch_def resolution_def empty_db_def)
  with resolve_unbound_is_safe [OF this] show ?thesis by auto
qed

end
