(* ===== verification/Outbox.thy ===== *)
theory Outbox
  imports Database
begin

text \<open>
  The transactional outbox (src/backend/app/services/outbox.py and outbox_repository.py): the event
  contract that keeps personal data out of the queue, the insertion keyed by \<open>dedup_key\<close>, the leases
  of the dispatcher, the execution leases of the consumers, and the executor around an effect. The
  lemmas show that lease tokens fence out every late writer, that attempts stay within their budget,
  and what a duplicate delivery can do.

  Texts are HOL strings; on them Python's decimal digits are the ASCII digits.
\<close>

section \<open>Text patterns\<close>

definition digit :: "char \<Rightarrow> bool" where
  "digit c \<longleftrightarrow> 48 \<le> (of_char c :: nat) \<and> (of_char c :: nat) \<le> 57"

definition hex_lower :: "char \<Rightarrow> bool" where
  "hex_lower c \<longleftrightarrow> digit c \<or> (97 \<le> (of_char c :: nat) \<and> (of_char c :: nat) \<le> 102)"

text \<open>\<open>str.isdecimal\<close>, the pattern \<^verbatim>\<open>[1-9][0-9]*\<close>, and \<open>int\<close> of a decimal text.\<close>

definition isdecimal :: "string \<Rightarrow> bool" where
  "isdecimal s \<longleftrightarrow> s \<noteq> [] \<and> list_all digit s"

definition startswith :: "string \<Rightarrow> string \<Rightarrow> bool" where
  "startswith s pre \<longleftrightarrow> take (length pre) s = pre"

definition positive_decimal :: "string \<Rightarrow> bool" where
  "positive_decimal s \<longleftrightarrow> isdecimal s \<and> \<not> startswith s ''0''"

definition decimal_value :: "string \<Rightarrow> int" where
  "decimal_value s = foldl (\<lambda>n c. 10 * n + int (of_char c :: nat) - 48) 0 s"

definition removeprefix :: "string \<Rightarrow> string \<Rightarrow> string" where
  "removeprefix s pre = (if startswith s pre then drop (length pre) s else s)"

text \<open>\<open>s.rsplit(c, 1)[-1]\<close> and the two halves of \<open>s.partition(c)\<close>.\<close>

definition rsplit_last :: "char \<Rightarrow> string \<Rightarrow> string" where
  "rsplit_last c s = rev (takeWhile (\<lambda>d. d \<noteq> c) (rev s))"

definition partition_head :: "char \<Rightarrow> string \<Rightarrow> string" where
  "partition_head c s = takeWhile (\<lambda>d. d \<noteq> c) s"

definition partition_tail :: "char \<Rightarrow> string \<Rightarrow> string option" where
  "partition_tail c s =
     (case dropWhile (\<lambda>d. d \<noteq> c) s of [] \<Rightarrow> None | _ # t \<Rightarrow> Some t)"

text \<open>\<open>PHONE_IN_TEXT\<close>: an 11-digit run that starts with 1 and stands between non-digits.\<close>

definition phone_here :: "string \<Rightarrow> bool" where
  "phone_here s \<longleftrightarrow> startswith s ''1'' \<and> length (takeWhile digit s) = 11"

fun phone_after :: "bool \<Rightarrow> string \<Rightarrow> bool" where
  "phone_after prev [] = False"
| "phone_after prev (c # cs) = ((\<not> prev \<and> phone_here (c # cs)) \<or> phone_after (digit c) cs)"

definition phone_in_text :: "string \<Rightarrow> bool" where
  "phone_in_text s = phone_after False s"

definition BATCH_REFERENCE :: "string \<Rightarrow> bool" where
  "BATCH_REFERENCE s \<longleftrightarrow> length s = 32 \<and> list_all hex_lower s"

definition UUID_REFERENCE :: "string \<Rightarrow> bool" where
  "UUID_REFERENCE s \<longleftrightarrow> length s = 36
     \<and> list_all hex_lower (take 8 s) \<and> s ! 8 = CHR ''-''
     \<and> list_all hex_lower (take 4 (drop 9 s)) \<and> s ! 13 = CHR ''-''
     \<and> s ! 14 \<in> set ''12345'' \<and> list_all hex_lower (take 3 (drop 15 s)) \<and> s ! 18 = CHR ''-''
     \<and> s ! 19 \<in> set ''89ab'' \<and> list_all hex_lower (take 3 (drop 20 s)) \<and> s ! 23 = CHR ''-''
     \<and> list_all hex_lower (take 12 (drop 24 s))"

text \<open>The split of a text at its first \<open>:\<close> serves the alternatives of \<open>STRUCTURED_REFERENCE\<close>.\<close>

definition after_prefix :: "string \<Rightarrow> string \<Rightarrow> (string \<Rightarrow> bool) \<Rightarrow> bool" where
  "after_prefix s pre p \<longleftrightarrow> startswith s pre \<and> p (drop (length pre) s)"

definition two_parts :: "(string \<Rightarrow> bool) \<Rightarrow> (string \<Rightarrow> bool) \<Rightarrow> string \<Rightarrow> bool" where
  "two_parts p q s = (case partition_tail CHR '':'' s of
      None \<Rightarrow> False | Some t \<Rightarrow> p (partition_head CHR '':'' s) \<and> q t)"

definition STRUCTURED_REFERENCE :: "string \<Rightarrow> bool" where
  "STRUCTURED_REFERENCE s \<longleftrightarrow>
       after_prefix s ''batch.ready:'' BATCH_REFERENCE
     \<or> after_prefix s ''chunk.ready:'' positive_decimal
     \<or> after_prefix s ''scheduled:'' (two_parts BATCH_REFERENCE (\<lambda>t. t = ''ready''))
     \<or> after_prefix s ''batch:'' (two_parts BATCH_REFERENCE (\<lambda>t. t = ''cancelled''))
     \<or> after_prefix s ''approval:''
         (two_parts positive_decimal (\<lambda>t. t \<in> {''approved'', ''rejected'', ''expired''}))
     \<or> after_prefix s ''callback:''
         (two_parts positive_decimal (\<lambda>t. after_prefix t ''attempt:'' isdecimal))
     \<or> after_prefix s ''alert:'' (two_parts positive_decimal (\<lambda>t. t \<in> {''wecom'', ''smtp''}))
     \<or> after_prefix s ''template.sync:'' (two_parts positive_decimal positive_decimal)
     \<or> after_prefix s ''usage.release:'' UUID_REFERENCE
     \<or> after_prefix s ''uncertain.effect:'' (two_parts positive_decimal positive_decimal)"

section \<open>The event contract\<close>

definition TASK_NAMES :: "string list" where
  "TASK_NAMES =
     [''app.tasks.adopt_sign'', ''app.tasks.bind_sign'', ''app.tasks.bind_template'',
      ''app.tasks.sync_template'', ''app.tasks.send.process_batch'',
      ''app.tasks.send.process_chunk'', ''app.tasks.deliver_callback'',
      ''app.tasks.outbox.compensate_quota'', ''app.tasks.outbox.deliver_alert'',
      ''app.tasks.outbox.release_usage'', ''app.tasks.outbox.publish_usage_projection'',
      ''app.tasks.outbox.trigger_job'', ''app.tasks.outbox.apply_uncertain_effect'']"

definition MANUAL_JOB_TASK_NAMES :: "string list" where
  "MANUAL_JOB_TASK_NAMES =
     [''app.tasks.poll_report'', ''app.tasks.expire_report_timeouts'', ''app.tasks.poll_reply'',
      ''app.tasks.reconcile'', ''app.tasks.expire_approvals'', ''app.tasks.dispatch_scheduled'',
      ''app.tasks.sync_templates'', ''app.tasks.sync_signs'', ''app.tasks.poll_balance'',
      ''app.tasks.anomaly_scan'', ''app.tasks.dispatch_callbacks'',
      ''app.tasks.dispatch_exports'', ''app.tasks.dispatch_imports'',
      ''app.tasks.cleanup_exports'', ''app.tasks.aggregate_stats'', ''app.tasks.housekeeping'',
      ''app.tasks.reconcile_usage_projection'', ''app.tasks.security_daily_generate'']"

definition ALLOWED_QUEUES :: "string list" where
  "ALLOWED_QUEUES = [''realtime'', ''realtime-report'', ''bulk'', ''callback'']"

record OutboxEventSpec =
  sp_event_type :: string
  sp_aggregate_type :: string
  sp_aggregate_id :: string
  sp_task_name :: string
  sp_queue :: string
  sp_args :: "outbox_arg list"
  sp_dedup_key :: string
  sp_max_attempts :: int
  sp_correlation_id :: "int option"

definition assert_safe_text :: "string \<Rightarrow> unit res" where
  "assert_safe_text s =
     (if BATCH_REFERENCE s \<or> STRUCTURED_REFERENCE s then Inr ()
      else if phone_in_text s then Inl (ValueError ''outbox args contain a phone number'')
      else Inr ())"

fun assert_safe_arg :: "outbox_arg \<Rightarrow> unit res" where
  "assert_safe_arg (Arg_str s) = assert_safe_text s"
| "assert_safe_arg (Arg_int i) = Inr ()"

definition usage_projection_reference :: "OutboxEventSpec \<Rightarrow> bool" where
  "usage_projection_reference spec =
     (let prefix = ''usage.projection:'' @ sp_aggregate_id spec @ '':'';
          tail = removeprefix (sp_dedup_key spec) prefix;
          generation = partition_head CHR '':'' tail
      in sp_task_name spec = ''app.tasks.outbox.publish_usage_projection''
         \<and> sp_event_type spec = ''usage.projection''
         \<and> sp_aggregate_type spec = ''usage_reservation'' \<and> sp_queue spec = ''realtime''
         \<and> UUID_REFERENCE (sp_aggregate_id spec)
         \<and> sp_args spec = [Arg_str (sp_aggregate_id spec)]
         \<and> (case partition_tail CHR '':'' tail of
              None \<Rightarrow> False
            | Some chunk_id \<Rightarrow> positive_decimal generation \<and> positive_decimal chunk_id))"

definition usage_release_reference :: "OutboxEventSpec \<Rightarrow> bool" where
  "usage_release_reference spec \<longleftrightarrow>
     sp_task_name spec = ''app.tasks.outbox.release_usage'' \<and> sp_event_type spec = ''usage.release''
     \<and> sp_aggregate_type spec = ''usage_reservation'' \<and> UUID_REFERENCE (sp_aggregate_id spec)
     \<and> sp_args spec = [Arg_str (sp_aggregate_id spec)]
     \<and> sp_dedup_key spec = ''usage.release:'' @ sp_aggregate_id spec"

definition uncertain_effect_reference :: "OutboxEventSpec \<Rightarrow> bool" where
  "uncertain_effect_reference spec \<longleftrightarrow>
     sp_task_name spec = ''app.tasks.outbox.apply_uncertain_effect''
     \<and> sp_event_type spec = ''uncertain.effect''
     \<and> sp_aggregate_type spec = ''sms_uncertain_resolution'' \<and> sp_queue spec = ''realtime''
     \<and> positive_decimal (sp_aggregate_id spec)
     \<and> sp_args spec = [Arg_int (decimal_value (sp_aggregate_id spec))]
     \<and> startswith (sp_dedup_key spec) (''uncertain.effect:'' @ sp_aggregate_id spec @ '':'')
     \<and> isdecimal (rsplit_last CHR '':'' (sp_dedup_key spec))"

definition chunk_ready_reference :: "OutboxEventSpec \<Rightarrow> bool" where
  "chunk_ready_reference spec \<longleftrightarrow>
     sp_task_name spec = ''app.tasks.send.process_chunk'' \<and> sp_event_type spec = ''chunk.ready''
     \<and> sp_aggregate_type spec = ''sms_chunk'' \<and> sp_queue spec \<in> {''realtime'', ''bulk''}
     \<and> positive_decimal (sp_aggregate_id spec)
     \<and> sp_args spec = [Arg_int (decimal_value (sp_aggregate_id spec))]
     \<and> sp_dedup_key spec = ''chunk.ready:'' @ sp_aggregate_id spec"

definition manual_job_reference :: "OutboxEventSpec \<Rightarrow> bool" where
  "manual_job_reference spec =
     (case sp_args spec of
        [Arg_str job] \<Rightarrow>
          job \<in> set MANUAL_JOB_TASK_NAMES
          \<and> sp_task_name spec = ''app.tasks.outbox.trigger_job''
          \<and> sp_event_type spec = ''job.trigger'' \<and> sp_aggregate_type spec = ''job''
          \<and> sp_aggregate_id spec = rsplit_last CHR ''.'' job
          \<and> startswith (sp_dedup_key spec) (''job.trigger:'' @ sp_aggregate_id spec @ '':'')
          \<and> UUID_REFERENCE (rsplit_last CHR '':'' (sp_dedup_key spec))
      | _ \<Rightarrow> False)"

definition exact_sign_sync_reference :: "OutboxEventSpec \<Rightarrow> bool" where
  "exact_sign_sync_reference spec =
     (let prefix = ''job.trigger:sync_signs:'' @ sp_aggregate_id spec @ '':'' in
      sp_task_name spec = ''app.tasks.outbox.trigger_job'' \<and> sp_event_type spec = ''job.trigger''
      \<and> sp_aggregate_type spec = ''sms_sign'' \<and> sp_queue spec = ''realtime''
      \<and> sp_max_attempts spec = 3 \<and> positive_decimal (sp_aggregate_id spec)
      \<and> decimal_value (sp_aggregate_id spec) \<le> 2147483647
      \<and> sp_args spec = [Arg_str ''app.tasks.sync_signs'',
                        Arg_int (decimal_value (sp_aggregate_id spec))]
      \<and> startswith (sp_dedup_key spec) prefix
      \<and> positive_decimal (removeprefix (sp_dedup_key spec) prefix))"

definition vendor_binding_reference :: "OutboxEventSpec \<Rightarrow> bool" where
  "vendor_binding_reference spec =
     (let template = (sp_task_name spec = ''app.tasks.bind_template'') in
      sp_task_name spec \<in> {''app.tasks.bind_template'', ''app.tasks.bind_sign''}
      \<and> sp_event_type spec = (if template then ''template.bind'' else ''sign.bind'')
      \<and> sp_aggregate_type spec = (if template then ''sms_template'' else ''sms_sign'')
      \<and> sp_queue spec = ''realtime'' \<and> sp_max_attempts spec = 1
      \<and> positive_decimal (sp_aggregate_id spec)
      \<and> sp_args spec = [Arg_int (decimal_value (sp_aggregate_id spec))]
      \<and> startswith (sp_dedup_key spec) (sp_event_type spec @ '':'' @ sp_aggregate_id spec @ '':'')
      \<and> UUID_REFERENCE (rsplit_last CHR '':'' (sp_dedup_key spec)))"

definition template_sync_reference :: "OutboxEventSpec \<Rightarrow> bool" where
  "template_sync_reference spec \<longleftrightarrow>
     sp_task_name spec = ''app.tasks.sync_template'' \<and> sp_event_type spec = ''template.sync''
     \<and> sp_aggregate_type spec = ''sms_template'' \<and> sp_queue spec = ''realtime''
     \<and> sp_max_attempts spec = 3 \<and> positive_decimal (sp_aggregate_id spec)
     \<and> sp_args spec = [Arg_int (decimal_value (sp_aggregate_id spec))]
     \<and> startswith (sp_dedup_key spec) (''template.sync:'' @ sp_aggregate_id spec @ '':'')
     \<and> positive_decimal (rsplit_last CHR '':'' (sp_dedup_key spec))"

definition sign_adoption_reference :: "OutboxEventSpec \<Rightarrow> bool" where
  "sign_adoption_reference spec =
     (sp_task_name spec = ''app.tasks.adopt_sign'' \<and> sp_event_type spec = ''sign.adopt''
      \<and> sp_aggregate_type spec = ''sms_sign'' \<and> sp_queue spec = ''realtime''
      \<and> sp_max_attempts spec = 3 \<and> positive_decimal (sp_aggregate_id spec)
      \<and> (case sp_args spec of
           [a, Arg_int n] \<Rightarrow> a = Arg_int (decimal_value (sp_aggregate_id spec))
             \<and> 0 < n \<and> n \<le> 2147483647
         | _ \<Rightarrow> False)
      \<and> startswith (sp_dedup_key spec) (''sign.adopt:'' @ sp_aggregate_id spec @ '':'')
      \<and> UUID_REFERENCE (rsplit_last CHR '':'' (sp_dedup_key spec)))"

definition is_reference :: "OutboxEventSpec \<Rightarrow> bool" where
  "is_reference spec \<longleftrightarrow> usage_release_reference spec \<or> usage_projection_reference spec
     \<or> chunk_ready_reference spec \<or> uncertain_effect_reference spec \<or> manual_job_reference spec
     \<or> exact_sign_sync_reference spec \<or> vendor_binding_reference spec
     \<or> template_sync_reference spec \<or> sign_adoption_reference spec"

definition length_between :: "int \<Rightarrow> int \<Rightarrow> string \<Rightarrow> bool" where
  "length_between lo hi s \<longleftrightarrow> lo \<le> int (length s) \<and> int (length s) \<le> hi"

text \<open>The end of \<open>validate_spec\<close>: an event that is none of the exact references is searched for
  telephone numbers.\<close>

definition assert_safe_spec :: "OutboxEventSpec \<Rightarrow> unit res" where
  "assert_safe_spec spec =
     (if is_reference spec then Inr ()
      else rbind (assert_safe_text (sp_aggregate_id spec)) (\<lambda>_.
           rbind (traverse assert_safe_arg (sp_args spec)) (\<lambda>_.
             assert_safe_text (sp_dedup_key spec))))"

definition validate_spec :: "OutboxEventSpec \<Rightarrow> unit res" where
  "validate_spec spec =
     (let task = sp_task_name spec in
      rbind (guard (sp_correlation_id spec \<noteq> Some 0)
               (ValueError ''invalid outbox correlation_id'')) (\<lambda>_.
      rbind (guard (length_between 1 64 (sp_event_type spec))
               (ValueError ''invalid outbox event_type'')) (\<lambda>_.
      rbind (guard (length_between 1 32 (sp_aggregate_type spec))
               (ValueError ''invalid outbox aggregate_type'')) (\<lambda>_.
      rbind (guard (length_between 1 128 (sp_aggregate_id spec))
               (ValueError ''invalid outbox aggregate_id'')) (\<lambda>_.
      rbind (guard (task \<in> set TASK_NAMES) (ValueError ''invalid outbox task_name'')) (\<lambda>_.
      rbind (guard (sp_queue spec \<in> set ALLOWED_QUEUES)
               (ValueError ''invalid outbox queue'')) (\<lambda>_.
      rbind (guard (length_between 1 192 (sp_dedup_key spec))
               (ValueError ''invalid outbox dedup_key'')) (\<lambda>_.
      rbind (guard (1 \<le> sp_max_attempts spec \<and> sp_max_attempts spec \<le> 100)
               (ValueError ''invalid outbox max_attempts'')) (\<lambda>_.
      rbind (guard (task = ''app.tasks.outbox.release_usage'' \<longrightarrow> usage_release_reference spec)
               (ValueError ''invalid usage release outbox contract'')) (\<lambda>_.
      rbind (guard (task = ''app.tasks.outbox.publish_usage_projection''
                      \<longrightarrow> usage_projection_reference spec)
               (ValueError ''invalid usage projection outbox contract'')) (\<lambda>_.
      rbind (guard (task = ''app.tasks.send.process_chunk'' \<longrightarrow> chunk_ready_reference spec)
               (ValueError ''invalid chunk ready outbox contract'')) (\<lambda>_.
      rbind (guard (task = ''app.tasks.outbox.apply_uncertain_effect''
                      \<longrightarrow> uncertain_effect_reference spec)
               (ValueError ''invalid uncertain effect outbox contract'')) (\<lambda>_.
      rbind (guard (task = ''app.tasks.outbox.trigger_job''
                      \<longrightarrow> manual_job_reference spec \<or> exact_sign_sync_reference spec)
               (ValueError ''invalid manual job outbox contract'')) (\<lambda>_.
      rbind (guard (task \<in> {''app.tasks.bind_template'', ''app.tasks.bind_sign''}
                      \<longrightarrow> vendor_binding_reference spec)
               (ValueError ''invalid vendor binding outbox contract'')) (\<lambda>_.
      rbind (guard (task = ''app.tasks.sync_template'' \<longrightarrow> template_sync_reference spec)
               (ValueError ''invalid template sync outbox contract'')) (\<lambda>_.
      rbind (guard (task = ''app.tasks.adopt_sign'' \<longrightarrow> sign_adoption_reference spec)
               (ValueError ''invalid sign adoption outbox contract'')) (\<lambda>_.
        assert_safe_spec spec)))))))))))))))))"

section \<open>The repository\<close>

text \<open>\<open>capacity_wait\<close> is either absent or the literal \<open>callback_retry\<close>, a delayed callback retry.\<close>

definition callback_retry_key :: "string \<Rightarrow> bool" where
  "callback_retry_key s = after_prefix s ''callback:''
     (two_parts positive_decimal (\<lambda>t. after_prefix t ''attempt:'' positive_decimal))"

definition contract :: "outbox_event \<Rightarrow> string \<times> string \<times> string \<times> string \<times> string
    \<times> outbox_arg list \<times> int" where
  "contract e = (e_event_type e, e_aggregate_type e, e_aggregate_id e, e_task_name e, e_queue e,
     e_args e, e_max_attempts e)"

definition new_event :: "db \<Rightarrow> OutboxEventSpec \<Rightarrow> int \<Rightarrow> bool \<Rightarrow> outbox_event" where
  "new_event db spec delay business_wait =
     \<lparr>e_id = db_uuids db + 1, e_dedup_key = sp_dedup_key spec, e_event_type = sp_event_type spec,
      e_aggregate_type = sp_aggregate_type spec, e_aggregate_id = sp_aggregate_id spec,
      e_task_name = sp_task_name spec, e_queue = sp_queue spec, e_args = sp_args spec,
      e_max_attempts = sp_max_attempts spec, e_state = E_pending, e_attempts = 0,
      e_failure_count = 0, e_next_attempt_at = db_now db + seconds delay,
      e_capacity_eligible_at = (if business_wait then Some (db_now db + seconds delay) else None),
      e_lease_id = None, e_lease_expires_at = None, e_last_error = None,
      e_created_at = db_now db\<rparr>"

definition enqueue_outbox ::
  "db \<Rightarrow> OutboxEventSpec \<Rightarrow> int \<Rightarrow> string option \<Rightarrow> (db \<times> int) res" where
  "enqueue_outbox db spec delay capacity_wait =
     rbind (validate_spec spec) (\<lambda>_.
     rbind (guard (0 \<le> delay \<and> delay \<le> 604800)
              (ValueError ''invalid outbox availability delay'')) (\<lambda>_.
     rbind (guard (case capacity_wait of None \<Rightarrow> True | Some w \<Rightarrow>
                w = ''callback_retry'' \<and> 0 < delay \<and> sp_event_type spec = ''callback.ready''
                \<and> sp_aggregate_type spec = ''callback_task''
                \<and> sp_task_name spec = ''app.tasks.deliver_callback''
                \<and> sp_queue spec = ''callback'' \<and> callback_retry_key (sp_dedup_key spec))
              (ValueError ''invalid outbox capacity wait'')) (\<lambda>_.
       let fresh = new_event db spec delay (capacity_wait \<noteq> None);
           db1 = db\<lparr>db_uuids := db_uuids db + 1\<rparr>;
           (db2, row) = (case first_row (\<lambda>e. e_dedup_key e = sp_dedup_key spec) (db_outbox db) of
               Some e \<Rightarrow> (db1, e)
             | None \<Rightarrow> (db1\<lparr>db_outbox := db_outbox db @ [fresh]\<rparr>, fresh))
       in if contract row \<noteq> contract fresh then Inl OutboxContractConflict
          else Inr (db2, e_id row))))"

record OutboxLease =
  ol_event_id :: int
  ol_lease_id :: int
  ol_event_type :: string
  ol_task_name :: string
  ol_queue :: string
  ol_args :: "outbox_arg list"
  ol_attempts :: int

record OutboxClaim =
  oc_event_id :: int
  oc_lease_id :: int
  oc_event_type :: string
  oc_args :: "outbox_arg list"

definition set_event :: "db \<Rightarrow> (outbox_event \<Rightarrow> bool) \<Rightarrow> (outbox_event \<Rightarrow> outbox_event) \<Rightarrow> db" where
  "set_event db p f = db\<lparr>db_outbox := update_rows p f (db_outbox db)\<rparr>"

definition find_event :: "db \<Rightarrow> int \<Rightarrow> outbox_event option" where
  "find_event db i = first_row (\<lambda>e. e_id e = i) (db_outbox db)"

definition lease_expired :: "db \<Rightarrow> outbox_event \<Rightarrow> bool" where
  "lease_expired db e = (case e_lease_expires_at e of Some t \<Rightarrow> t \<le> db_now db | None \<Rightarrow> False)"

definition lease_live :: "db \<Rightarrow> outbox_event \<Rightarrow> bool" where
  "lease_live db e = (case e_lease_expires_at e of Some t \<Rightarrow> db_now db < t | None \<Rightarrow> False)"

definition exhausted :: "db \<Rightarrow> outbox_event \<Rightarrow> bool" where
  "exhausted db e \<longleftrightarrow> e_state e \<in> {E_pending, E_leased, E_published, E_processing}
     \<and> e_max_attempts e \<le> e_attempts e
     \<and> (e_state e = E_pending \<or> e_lease_expires_at e = None \<or> lease_expired db e)"

definition bury :: "outbox_event \<Rightarrow> outbox_event" where
  "bury e = e\<lparr>e_state := E_dead, e_lease_id := None, e_lease_expires_at := None,
     e_failure_count := e_failure_count e + (if e_state e = E_pending then 0 else 1),
     e_last_error := Some (case e_last_error e of Some x \<Rightarrow> x | None \<Rightarrow> ''AttemptsExhausted'')\<rparr>"

definition is_due :: "db \<Rightarrow> outbox_event \<Rightarrow> bool" where
  "is_due db e \<longleftrightarrow> e_attempts e < e_max_attempts e
     \<and> ((e_state e = E_pending \<and> e_next_attempt_at e \<le> db_now db)
        \<or> (e_state e \<in> {E_leased, E_published, E_processing} \<and> lease_expired db e))"

definition backoff_seconds :: "int \<Rightarrow> int" where
  "backoff_seconds attempts = min 3600 (5 * 2 ^ nat (min attempts 9))"

definition lease_row :: "db \<Rightarrow> int \<Rightarrow> int \<Rightarrow> outbox_event \<Rightarrow> outbox_event" where
  "lease_row db lease lease_seconds e =
     e\<lparr>e_state := E_leased, e_attempts := e_attempts e + 1,
       e_failure_count := e_failure_count e + (if e_state e = E_pending then 0 else 1),
       e_lease_id := Some lease, e_lease_expires_at := Some (db_now db + seconds lease_seconds),
       e_next_attempt_at := db_now db + seconds (backoff_seconds (e_attempts e))\<rparr>"

definition lease_one :: "int \<Rightarrow> outbox_event \<Rightarrow> db \<times> OutboxLease list \<Rightarrow> db \<times> OutboxLease list" where
  "lease_one lease_seconds due st =
     (let (db, leases) = st; lease = db_uuids db + 1;
          db = (set_event db (\<lambda>e. e_id e = e_id due) (lease_row db lease lease_seconds))
                 \<lparr>db_uuids := lease\<rparr>
      in (db, leases @ [\<lparr>ol_event_id = e_id due, ol_lease_id = lease,
             ol_event_type = e_event_type due, ol_task_name = e_task_name due,
             ol_queue = e_queue due, ol_args = e_args due, ol_attempts = e_attempts due + 1\<rparr>]))"

definition due_events :: "db \<Rightarrow> nat \<Rightarrow> outbox_event list" where
  "due_events db limit = take limit
     (sort_key e_next_attempt_at (sort_key e_created_at (filter (is_due db) (db_outbox db))))"

definition lease_due :: "db \<Rightarrow> int \<Rightarrow> int \<Rightarrow> (db \<times> OutboxLease list) res" where
  "lease_due db limit lease_seconds =
     (if limit < 1 \<or> 1000 < limit \<or> lease_seconds < 5
      then Inl (ValueError ''invalid outbox lease request'')
      else let db = set_event db (exhausted db) bury
           in Inr (fold (lease_one lease_seconds) (due_events db (nat limit)) (db, [])))"

definition safe_error :: "string \<Rightarrow> string" where
  "safe_error s =
     (let alpha = (\<lambda>c. (65 \<le> (of_char c :: nat) \<and> (of_char c :: nat) \<le> 90)
                       \<or> (97 \<le> (of_char c :: nat) \<and> (of_char c :: nat) \<le> 122)) in
      case s of
        c # cs \<Rightarrow> if alpha c \<and> length cs \<le> 63
            \<and> list_all (\<lambda>d. alpha d \<or> digit d \<or> d = CHR ''_'' \<or> d = CHR ''.'') cs
          then s else ''OutboxError''
      | [] \<Rightarrow> ''OutboxError'')"

definition retry_or_bury :: "string \<Rightarrow> outbox_event \<Rightarrow> outbox_event" where
  "retry_or_bury error_type e =
     e\<lparr>e_state := (if e_max_attempts e \<le> e_attempts e then E_dead else E_pending),
       e_lease_id := None, e_lease_expires_at := None,
       e_failure_count := e_failure_count e + 1, e_last_error := Some (safe_error error_type)\<rparr>"

text \<open>The holder of a publishing lease that has not run out.\<close>

definition holds_lease :: "db \<Rightarrow> int \<Rightarrow> int \<Rightarrow> outbox_event \<Rightarrow> bool" where
  "holds_lease db event lease e \<longleftrightarrow> e_id e = event \<and> e_state e = E_leased
     \<and> e_lease_id e = Some lease \<and> lease_live db e"

definition publish_write ::
  "db \<Rightarrow> int \<Rightarrow> int \<Rightarrow> (outbox_event \<Rightarrow> outbox_event) \<Rightarrow> db res" where
  "publish_write db event lease f =
     (if list_ex (holds_lease db event lease) (db_outbox db)
      then Inr (set_event db (holds_lease db event lease) f)
      else case find_event db event of
        None \<Rightarrow> Inl OutboxLeaseLost
      | Some e \<Rightarrow> if e_state e \<in> {E_processing, E_completed} then Inr db else Inl OutboxLeaseLost)"

definition mark_published :: "db \<Rightarrow> int \<Rightarrow> int \<Rightarrow> db res" where
  "mark_published db event lease = publish_write db event lease (\<lambda>e. e\<lparr>e_state := E_published\<rparr>)"

definition mark_publish_failed :: "db \<Rightarrow> int \<Rightarrow> int \<Rightarrow> string \<Rightarrow> db res" where
  "mark_publish_failed db event lease error_type =
     publish_write db event lease (retry_or_bury error_type)"

definition claim_execution :: "db \<Rightarrow> int \<Rightarrow> int \<Rightarrow> (db \<times> OutboxClaim option) res" where
  "claim_execution db event lease_seconds =
     (if lease_seconds < 15 then Inl (ValueError ''invalid outbox execution lease'')
      else let lease = db_uuids db + 1; db1 = db\<lparr>db_uuids := lease\<rparr>;
               claimable = (\<lambda>e. e_id e = event \<and> e_state e \<in> {E_leased, E_published}) in
        case first_row claimable (db_outbox db) of
          None \<Rightarrow> Inr (db1, None)
        | Some e \<Rightarrow>
            Inr (set_event db1 claimable (\<lambda>e. e\<lparr>e_state := E_processing, e_lease_id := Some lease,
                   e_lease_expires_at := Some (db_now db + seconds lease_seconds)\<rparr>),
                 Some \<lparr>oc_event_id = event, oc_lease_id = lease, oc_event_type = e_event_type e,
                       oc_args = e_args e\<rparr>))"

definition executes :: "int \<Rightarrow> int \<Rightarrow> outbox_event \<Rightarrow> bool" where
  "executes event lease e \<longleftrightarrow> e_id e = event \<and> e_state e = E_processing \<and> e_lease_id e = Some lease"

definition heartbeat :: "db \<Rightarrow> int \<Rightarrow> int \<Rightarrow> int \<Rightarrow> db \<times> bool" where
  "heartbeat db event lease lease_seconds =
     (set_event db (executes event lease)
        (\<lambda>e. e\<lparr>e_lease_expires_at := Some (db_now db + seconds lease_seconds)\<rparr>),
      count_rows (executes event lease) (db_outbox db) = 1)"

definition lease_update ::
  "db \<Rightarrow> (outbox_event \<Rightarrow> bool) \<Rightarrow> (outbox_event \<Rightarrow> outbox_event) \<Rightarrow> db res" where
  "lease_update db p f =
     (if count_rows p (db_outbox db) \<noteq> 1 then Inl OutboxLeaseLost else Inr (set_event db p f))"

definition complete :: "db \<Rightarrow> int \<Rightarrow> int \<Rightarrow> db res" where
  "complete db event lease = lease_update db (executes event lease)
     (\<lambda>e. e\<lparr>e_state := E_completed, e_lease_id := None, e_lease_expires_at := None,
            e_last_error := None\<rparr>)"

definition defer_execution :: "db \<Rightarrow> int \<Rightarrow> int \<Rightarrow> datetime \<Rightarrow> db res" where
  "defer_execution db event lease next_attempt_at = lease_update db
     (\<lambda>e. executes event lease e \<and> lease_live db e \<and> e_event_type e = ''chunk.ready'')
     (\<lambda>e. e\<lparr>e_state := E_pending, e_attempts := max 0 (e_attempts e - 1),
            e_next_attempt_at := next_attempt_at,
            e_capacity_eligible_at := Some next_attempt_at,
            e_last_error := Some ''MarketWindowDeferred'',
            e_lease_id := None, e_lease_expires_at := None\<rparr>)"

definition fail_execution :: "db \<Rightarrow> int \<Rightarrow> int \<Rightarrow> string \<Rightarrow> db res" where
  "fail_execution db event lease error_type =
     lease_update db (executes event lease) (retry_or_bury error_type)"

definition retry_dead :: "db \<Rightarrow> int \<Rightarrow> db \<times> bool" where
  "retry_dead db event =
     (let dead = (\<lambda>e. e_id e = event \<and> e_state e = E_dead) in
      if list_ex dead (db_outbox db)
      then (set_event db dead (\<lambda>e. e\<lparr>e_state := E_pending, e_attempts := 0,
              e_next_attempt_at := db_now db, e_lease_id := None, e_lease_expires_at := None,
              e_last_error := None\<rparr>), True)
      else (db, False))"

text \<open>The re-arming update that the sending path issues after inserting a ready event.\<close>

definition rearm_event :: "db \<Rightarrow> string \<Rightarrow> string \<Rightarrow> db" where
  "rearm_event db dedup event_type = set_event db
     (\<lambda>e. e_dedup_key e = dedup \<and> e_event_type e = event_type \<and> e_state e \<in> {E_completed, E_dead})
     (\<lambda>e. e\<lparr>e_state := E_pending, e_next_attempt_at := db_now db, e_attempts := 0,
            e_failure_count := 0, e_lease_id := None, e_lease_expires_at := None,
            e_last_error := None\<rparr>)"

section \<open>Dispatcher and executor\<close>

text \<open>The broker is a parameter: \<open>publish\<close> answers with the type of the exception it raises, or with
  nothing when the message was handed over. One worker of \<open>dispatch_once\<close>, with what is left of the
  batch budget; the other workers of a round interleave the same repository calls.\<close>

definition publish_one :: "(OutboxLease \<Rightarrow> string option) \<Rightarrow> db \<Rightarrow> OutboxLease \<Rightarrow> (db \<times> nat) res" where
  "publish_one publish db event =
     (case publish event of
        Some error_type \<Rightarrow>
          rbind (mark_publish_failed db (ol_event_id event) (ol_lease_id event) error_type)
            (\<lambda>db. Inr (db, 0))
      | None \<Rightarrow> rbind (mark_published db (ol_event_id event) (ol_lease_id event))
            (\<lambda>db. Inr (db, 1)))"

fun publish_worker ::
  "(OutboxLease \<Rightarrow> string option) \<Rightarrow> int \<Rightarrow> nat \<Rightarrow> db \<Rightarrow> (db \<times> nat) res" where
  "publish_worker publish lease_seconds 0 db = Inr (db, 0)"
| "publish_worker publish lease_seconds (Suc budget) db =
     (case lease_due db 1 lease_seconds of
        Inl e \<Rightarrow> Inl e
      | Inr (db1, leases) \<Rightarrow>
          (case leases of
             [] \<Rightarrow> Inr (db1, 0)
           | lease # _ \<Rightarrow>
               (case publish_one publish db1 lease of
                  Inl e \<Rightarrow> Inl e
                | Inr (db2, n) \<Rightarrow>
                    (case publish_worker publish lease_seconds budget db2 of
                       Inl e \<Rightarrow> Inl e
                     | Inr (db3, m) \<Rightarrow> Inr (db3, n + m)))))"

text \<open>What an effect does: it returns, asks to be deferred, or raises. Together with it comes the
  database it leaves behind and whether the heartbeat has lost the lease meanwhile.\<close>

datatype 'a effect_outcome = Eff_return 'a | Eff_deferred datetime | Eff_raise string

datatype 'a run_result = Run_skipped | Run_done 'a | Run_raised exn

definition finish_run :: "db \<Rightarrow> 'a run_result \<Rightarrow> db res \<Rightarrow> db \<times> 'a run_result" where
  "finish_run db r write =
     (case write of Inl e \<Rightarrow> (db, Run_raised e) | Inr db' \<Rightarrow> (db', r))"

definition executor_run ::
  "db \<Rightarrow> int \<Rightarrow> int \<Rightarrow> string \<Rightarrow> (OutboxClaim \<Rightarrow> db \<Rightarrow> db \<times> 'a effect_outcome \<times> bool)
     \<Rightarrow> db \<times> 'a run_result" where
  "executor_run db event lease_seconds expected_type effect =
     (case claim_execution db event lease_seconds of
        Inl e \<Rightarrow> (db, Run_raised e)
      | Inr (db, None) \<Rightarrow> (db, Run_skipped)
      | Inr (db, Some claim) \<Rightarrow>
          let eid = oc_event_id claim; lease = oc_lease_id claim in
          if oc_event_type claim \<noteq> expected_type
          then finish_run db Run_skipped (fail_execution db eid lease ''OutboxEventTypeMismatch'')
          else let (db, outcome, lease_lost) = effect claim db in
            (case outcome of
               Eff_return x \<Rightarrow>
                 if lease_lost then (db, Run_raised OutboxLeaseLost)
                 else finish_run db (Run_done x) (complete db eid lease)
             | Eff_deferred t \<Rightarrow>
                 if lease_lost then (db, Run_raised OutboxLeaseLost)
                 else if expected_type \<noteq> ''chunk.ready''
                 then finish_run db (Run_raised (OtherError ''OutboxDeferred''))
                        (fail_execution db eid lease ''InvalidDeferral'')
                 else finish_run db Run_skipped (defer_execution db eid lease t)
             | Eff_raise name \<Rightarrow>
                 if lease_lost then (db, Run_raised (OtherError name))
                 else finish_run db (Run_raised (OtherError name))
                        (fail_execution db eid lease name)))"

section \<open>Invariant and steps\<close>

definition event_ok :: "int \<Rightarrow> outbox_event \<Rightarrow> bool" where
  "event_ok n e \<longleftrightarrow> e_id e \<le> n \<and> (\<forall>l. e_lease_id e = Some l \<longrightarrow> l \<le> n)
     \<and> 0 \<le> e_attempts e \<and> e_attempts e \<le> e_max_attempts e
     \<and> 1 \<le> e_max_attempts e \<and> e_max_attempts e \<le> 100
     \<and> (e_lease_id e \<noteq> None \<longleftrightarrow> e_state e \<in> {E_leased, E_published, E_processing})
     \<and> (e_lease_expires_at e \<noteq> None \<longleftrightarrow> e_lease_id e \<noteq> None)"

definition outbox_inv :: "db \<Rightarrow> bool" where
  "outbox_inv db \<longleftrightarrow> distinct (map e_id (db_outbox db)) \<and> distinct (map e_dedup_key (db_outbox db))
     \<and> (\<forall>e\<in>set (db_outbox db). event_ok (db_uuids db) e)"

definition holds_token :: "db \<Rightarrow> int \<Rightarrow> int \<Rightarrow> bool" where
  "holds_token db event lease \<longleftrightarrow>
     (\<exists>e\<in>set (db_outbox db). e_id e = event \<and> e_lease_id e = Some lease)"

text \<open>What no step undoes: events stay with their contract, and a token that an event no longer
  holds is never handed out again.\<close>

definition outbox_later :: "db \<Rightarrow> db \<Rightarrow> bool" where
  "outbox_later db db' \<longleftrightarrow> db_uuids db \<le> db_uuids db'
     \<and> (\<forall>event lease. lease \<le> db_uuids db \<longrightarrow> \<not> holds_token db event lease
          \<longrightarrow> \<not> holds_token db' event lease)
     \<and> (\<forall>e\<in>set (db_outbox db). \<exists>e'\<in>set (db_outbox db'). e_id e' = e_id e
          \<and> e_dedup_key e' = e_dedup_key e \<and> contract e' = contract e)"

inductive outbox_step :: "db \<Rightarrow> db \<Rightarrow> bool" where
  enqueue: "enqueue_outbox db spec delay wait = Inr (db', i) \<Longrightarrow> outbox_step db db'"
| lease: "lease_due db limit s = Inr (db', ls) \<Longrightarrow> outbox_step db db'"
| published: "mark_published db event l = Inr db' \<Longrightarrow> outbox_step db db'"
| publish_failed: "mark_publish_failed db event l err = Inr db' \<Longrightarrow> outbox_step db db'"
| claim: "claim_execution db event s = Inr (db', c) \<Longrightarrow> outbox_step db db'"
| heartbeat: "heartbeat db event l s = (db', b) \<Longrightarrow> outbox_step db db'"
| complete: "complete db event l = Inr db' \<Longrightarrow> outbox_step db db'"
| deferred: "defer_execution db event l t = Inr db' \<Longrightarrow> outbox_step db db'"
| fail: "fail_execution db event l err = Inr db' \<Longrightarrow> outbox_step db db'"
| retry: "retry_dead db event = (db', b) \<Longrightarrow> outbox_step db db'"
| rearm: "db' = rearm_event db key ty \<Longrightarrow> outbox_step db db'"
| outside: "db_outbox db' = db_outbox db \<Longrightarrow> db_uuids db' = db_uuids db \<Longrightarrow> outbox_step db db'"

text \<open>An update of some events that keeps their identity and contract and gives each of them no
  lease, its own, or one above the supply.\<close>

definition safe_write :: "db \<Rightarrow> int \<Rightarrow> outbox_event \<Rightarrow> outbox_event \<Rightarrow> bool" where
  "safe_write db n e e' \<longleftrightarrow> e_id e' = e_id e \<and> e_dedup_key e' = e_dedup_key e
     \<and> contract e' = contract e \<and> event_ok n e'
     \<and> (\<forall>l. e_lease_id e' = Some l \<longrightarrow> e_lease_id e = Some l \<or> db_uuids db < l)"

lemma event_ok_mono: "event_ok n e \<Longrightarrow> n \<le> m \<Longrightarrow> event_ok m e"
  by (auto simp: event_ok_def)

lemma update_rows_id: "\<forall>e\<in>set rows. p e \<longrightarrow> k (f e) = k e \<Longrightarrow> map k (update_rows p f rows) = map k rows"
  by (auto simp: update_rows_def)

lemma set_event_ok:
  assumes inv: "outbox_inv db" and n: "db_uuids db \<le> n"
    and wr: "\<And>e. e \<in> set (db_outbox db) \<Longrightarrow> p e \<Longrightarrow> safe_write db n e (f e)"
  shows "outbox_inv ((set_event db p f)\<lparr>db_uuids := n\<rparr>)"
    and "outbox_later db ((set_event db p f)\<lparr>db_uuids := n\<rparr>)"
proof -
  let ?db = "(set_event db p f)\<lparr>db_uuids := n\<rparr>"
  have rows: "db_outbox ?db = update_rows p f (db_outbox db)" by (simp add: set_event_def)
  have ids: "map e_id (db_outbox ?db) = map e_id (db_outbox db)"
    and keys: "map e_dedup_key (db_outbox ?db) = map e_dedup_key (db_outbox db)"
    unfolding rows using wr by (auto intro!: update_rows_id simp: safe_write_def)
  have ok: "\<And>e. e \<in> set (db_outbox db) \<Longrightarrow> event_ok (db_uuids db) e"
    using inv by (simp add: outbox_inv_def)
  have "event_ok n e" if "e \<in> set (db_outbox ?db)" for e
    using that wr ok n unfolding rows set_update_rows
    by (auto simp: safe_write_def intro: event_ok_mono)
  then show "outbox_inv ?db"
    using inv unfolding outbox_inv_def ids keys by simp
  show "outbox_later db ?db"
    unfolding outbox_later_def
  proof (intro conjI allI impI ballI)
    show "db_uuids db \<le> db_uuids ?db" using n by simp
  next
    fix event lease assume "lease \<le> db_uuids db" "\<not> holds_token db event lease"
    then show "\<not> holds_token ?db event lease"
      using wr unfolding holds_token_def rows set_update_rows by (fastforce simp: safe_write_def)
  next
    fix e assume e: "e \<in> set (db_outbox db)"
    let ?e = "if p e then f e else e"
    have "?e \<in> set (db_outbox ?db)" using e unfolding rows set_update_rows by auto
    moreover have "e_id ?e = e_id e \<and> e_dedup_key ?e = e_dedup_key e \<and> contract ?e = contract e"
      using wr [OF e] by (simp add: safe_write_def)
    ultimately show "\<exists>e'\<in>set (db_outbox ?db). e_id e' = e_id e
        \<and> e_dedup_key e' = e_dedup_key e \<and> contract e' = contract e" by blast
  qed
qed

lemma set_event_uuids [simp]: "(set_event db p f)\<lparr>db_uuids := db_uuids db\<rparr> = set_event db p f"
  by (simp add: set_event_def)

lemma set_event_same:
  assumes "outbox_inv db"
    and "\<And>e. e \<in> set (db_outbox db) \<Longrightarrow> p e \<Longrightarrow> safe_write db (db_uuids db) e (f e)"
  shows "outbox_inv (set_event db p f) \<and> outbox_later db (set_event db p f)"
  using set_event_ok [OF assms(1) order_refl assms(2)] by simp

lemma outbox_later_refl [simp]: "outbox_later db db"
  by (auto simp: outbox_later_def)

lemma outbox_later_trans:
  assumes "outbox_later a b" "outbox_later b c"
  shows "outbox_later a c"
  using assms unfolding outbox_later_def by (metis order_trans)

lemma inv_event: "outbox_inv db \<Longrightarrow> e \<in> set (db_outbox db) \<Longrightarrow> event_ok (db_uuids db) e"
  by (simp add: outbox_inv_def)

lemmas write_simps = safe_write_def event_ok_def contract_def retry_or_bury_def

lemma publish_write_ok:
  assumes "publish_write db event lease f = Inr db'" "outbox_inv db"
    and "\<And>e. e \<in> set (db_outbox db) \<Longrightarrow> holds_lease db event lease e
      \<Longrightarrow> safe_write db (db_uuids db) e (f e)"
  shows "outbox_inv db' \<and> outbox_later db db'"
  using assms set_event_same [OF assms(2), of "holds_lease db event lease" f]
  by (auto simp: publish_write_def split: if_splits option.splits)

lemma mark_published_ok:
  "mark_published db event lease = Inr db' \<Longrightarrow> outbox_inv db \<Longrightarrow> outbox_inv db' \<and> outbox_later db db'"
  unfolding mark_published_def
  by (erule publish_write_ok, assumption, drule (1) inv_event)
    (auto simp: write_simps holds_lease_def)

lemma mark_publish_failed_ok:
  "mark_publish_failed db event lease err = Inr db' \<Longrightarrow> outbox_inv db
     \<Longrightarrow> outbox_inv db' \<and> outbox_later db db'"
  unfolding mark_publish_failed_def
  by (erule publish_write_ok, assumption, drule (1) inv_event)
    (auto simp: write_simps holds_lease_def)

lemma lease_update_ok:
  assumes "lease_update db p f = Inr db'" "outbox_inv db"
    and "\<And>e. e \<in> set (db_outbox db) \<Longrightarrow> p e \<Longrightarrow> safe_write db (db_uuids db) e (f e)"
  shows "outbox_inv db' \<and> outbox_later db db'"
  using assms set_event_same [OF assms(2), of p f] by (auto simp: lease_update_def split: if_splits)

lemma complete_ok:
  "complete db event lease = Inr db' \<Longrightarrow> outbox_inv db \<Longrightarrow> outbox_inv db' \<and> outbox_later db db'"
  unfolding complete_def
  by (erule lease_update_ok, assumption, drule (1) inv_event) (auto simp: write_simps executes_def)

lemma fail_execution_ok:
  "fail_execution db event lease err = Inr db' \<Longrightarrow> outbox_inv db
     \<Longrightarrow> outbox_inv db' \<and> outbox_later db db'"
  unfolding fail_execution_def
  by (erule lease_update_ok, assumption, drule (1) inv_event) (auto simp: write_simps executes_def)

lemma defer_execution_ok:
  "defer_execution db event lease t = Inr db' \<Longrightarrow> outbox_inv db
     \<Longrightarrow> outbox_inv db' \<and> outbox_later db db'"
  unfolding defer_execution_def
  by (erule lease_update_ok, assumption, drule (1) inv_event) (auto simp: write_simps executes_def)

lemma heartbeat_ok:
  "heartbeat db event lease s = (db', b) \<Longrightarrow> outbox_inv db \<Longrightarrow> outbox_inv db' \<and> outbox_later db db'"
  unfolding heartbeat_def
  by (clarsimp, rule set_event_same, assumption, drule (1) inv_event)
    (auto simp: write_simps executes_def)

lemma retry_dead_ok:
  "retry_dead db event = (db', b) \<Longrightarrow> outbox_inv db \<Longrightarrow> outbox_inv db' \<and> outbox_later db db'"
  unfolding retry_dead_def Let_def
  by (split if_splits, clarsimp, rule set_event_same, assumption, drule (1) inv_event)
    (auto simp: write_simps)

lemma rearm_event_ok:
  "outbox_inv db \<Longrightarrow> outbox_inv (rearm_event db key ty) \<and> outbox_later db (rearm_event db key ty)"
  unfolding rearm_event_def
  by (rule set_event_same, assumption, drule (1) inv_event) (auto simp: write_simps)

lemma outbox_inv_uuids: "outbox_inv db \<Longrightarrow> db_uuids db \<le> n \<Longrightarrow> outbox_inv (db\<lparr>db_uuids := n\<rparr>)"
  by (auto simp: outbox_inv_def intro: event_ok_mono)

lemma outbox_later_uuids: "db_uuids db \<le> n \<Longrightarrow> outbox_later db (db\<lparr>db_uuids := n\<rparr>)"
  by (auto simp: outbox_later_def holds_token_def)

lemma validate_spec_attempts:
  "validate_spec spec = Inr () \<Longrightarrow> 1 \<le> sp_max_attempts spec \<and> sp_max_attempts spec \<le> 100"
  unfolding validate_spec_def Let_def by (auto simp only: rbind_Inr_iff guard_Inr_iff)

lemma enqueue_outbox_cases:
  assumes "enqueue_outbox db spec delay wait = Inr (db', i)"
  obtains (existing) e where "validate_spec spec = Inr ()"
      "e \<in> set (db_outbox db)" "e_dedup_key e = sp_dedup_key spec" "e_id e = i"
      "contract e = contract (new_event db spec delay False)"
      "db' = db\<lparr>db_uuids := db_uuids db + 1\<rparr>"
  | (fresh) e where "validate_spec spec = Inr ()"
      "\<forall>x\<in>set (db_outbox db). e_dedup_key x \<noteq> sp_dedup_key spec"
      "e = new_event db spec delay (wait \<noteq> None)" "i = e_id e"
      "db' = db\<lparr>db_uuids := db_uuids db + 1, db_outbox := db_outbox db @ [e]\<rparr>"
proof -
  have c: "contract (new_event db spec delay b) = contract (new_event db spec delay False)" for b
    by (simp add: contract_def new_event_def)
  have v: "validate_spec spec = Inr ()"
    using assms unfolding enqueue_outbox_def by (auto simp: rbind_Inr_iff)
  show thesis
  proof (cases "first_row (\<lambda>e. e_dedup_key e = sp_dedup_key spec) (db_outbox db)")
    case None
    then have n: "\<forall>x\<in>set (db_outbox db). e_dedup_key x \<noteq> sp_dedup_key spec"
      by (simp add: first_row_None_iff)
    show thesis
      by (rule fresh [OF v n refl])
        (use assms None in \<open>auto simp: enqueue_outbox_def rbind_Inr_iff Let_def split: if_splits\<close>)
  next
    case (Some e)
    then have e: "e \<in> set (db_outbox db)" "e_dedup_key e = sp_dedup_key spec"
      by (auto dest: first_row_SomeD)
    show thesis
      by (rule existing [OF v e])
        (use assms Some c in \<open>auto simp: enqueue_outbox_def rbind_Inr_iff Let_def split: if_splits\<close>)
  qed
qed

lemma enqueue_outbox_ok:
  assumes "enqueue_outbox db spec delay wait = Inr (db', i)" "outbox_inv db"
  shows "outbox_inv db' \<and> outbox_later db db'"
  using assms(1)
proof (cases rule: enqueue_outbox_cases)
  case (existing e)
  with assms(2) show ?thesis by (simp add: outbox_inv_uuids outbox_later_uuids)
next
  case (fresh e)
  have "e_id x < e_id e" if "x \<in> set (db_outbox db)" for x
    using inv_event [OF assms(2) that] by (simp add: fresh(3) new_event_def event_ok_def)
  then have "outbox_inv db'"
    using assms(2) fresh(2) validate_spec_attempts [OF fresh(1)]
    by (auto simp: fresh(3,5) outbox_inv_def new_event_def event_ok_def)
      (metis less_irrefl add.commute dual_order.strict_iff_order zless_add1_eq)+
  moreover have "outbox_later db db'"
    by (auto simp: fresh(3,5) outbox_later_def holds_token_def new_event_def contract_def)
  ultimately show ?thesis by simp
qed

lemma claim_execution_ok:
  assumes "claim_execution db event s = Inr (db', c)" "outbox_inv db"
  shows "outbox_inv db' \<and> outbox_later db db'"
proof (cases "first_row (\<lambda>e. e_id e = event \<and> e_state e \<in> {E_leased, E_published}) (db_outbox db)")
  case None
  with assms(1) have "db' = db\<lparr>db_uuids := db_uuids db + 1\<rparr>"
    by (auto simp: claim_execution_def Let_def split: if_splits)
  with assms(2) show ?thesis by (simp add: outbox_inv_uuids outbox_later_uuids)
next
  case (Some e)
  let ?p = "\<lambda>e. e_id e = event \<and> e_state e \<in> {E_leased, E_published}"
  let ?f = "\<lambda>e. e\<lparr>e_state := E_processing, e_lease_id := Some (db_uuids db + 1),
      e_lease_expires_at := Some (db_now db + seconds s)\<rparr>"
  from Some assms(1) have db': "db' = (set_event db ?p ?f)\<lparr>db_uuids := db_uuids db + 1\<rparr>"
    by (auto simp: claim_execution_def Let_def set_event_def split: if_splits)
  have "safe_write db (db_uuids db + 1) e (?f e)" if "e \<in> set (db_outbox db)" for e
    using inv_event [OF assms(2) that] by (auto simp: write_simps)
  then show ?thesis
    unfolding db' using set_event_ok [OF assms(2), of "db_uuids db + 1" ?p ?f] by simp
qed

lemma lease_one_ok:
  assumes "outbox_inv db" "e_attempts due < e_max_attempts due" "due \<in> set (db_outbox db)"
    and "lease_one s due (db, ls) = (db', ls')"
  shows "outbox_inv db' \<and> outbox_later db db'"
    and "\<And>e. e \<in> set (db_outbox db) \<Longrightarrow> e_id e \<noteq> e_id due \<Longrightarrow> e \<in> set (db_outbox db')"
proof -
  let ?p = "\<lambda>e. e_id e = e_id due" and ?f = "lease_row db (db_uuids db + 1) s"
  have db': "db' = (set_event db ?p ?f)\<lparr>db_uuids := db_uuids db + 1\<rparr>"
    using assms(4) by (simp add: lease_one_def Let_def)
  have "safe_write db (db_uuids db + 1) e (?f e)" if e: "e \<in> set (db_outbox db)" "?p e" for e
  proof -
    have "e = due" using assms(1,3) e by (auto simp: outbox_inv_def distinct_map inj_on_def)
    then show ?thesis using inv_event [OF assms(1) e(1)] assms(2)
      by (auto simp: write_simps lease_row_def)
  qed
  then show "outbox_inv db' \<and> outbox_later db db'"
    unfolding db' using set_event_ok [OF assms(1), of "db_uuids db + 1" ?p ?f] by simp
  show "\<And>e. e \<in> set (db_outbox db) \<Longrightarrow> e_id e \<noteq> e_id due \<Longrightarrow> e \<in> set (db_outbox db')"
    unfolding db' by (auto simp: set_event_def set_update_rows)
qed

lemma lease_fold_ok:
  assumes "outbox_inv db" "distinct (map e_id dues)" "set dues \<subseteq> set (db_outbox db)"
    and "\<forall>e\<in>set dues. e_attempts e < e_max_attempts e"
    and "fold (lease_one s) dues (db, ls) = (db', ls')"
  shows "outbox_inv db' \<and> outbox_later db db'"
  using assms
proof (induction dues arbitrary: db ls)
  case (Cons due dues)
  obtain db1 ls1 where one: "lease_one s due (db, ls) = (db1, ls1)" by force
  note step = lease_one_ok [OF Cons.prems(1) _ _ one]
  have ok1: "outbox_inv db1 \<and> outbox_later db db1" using step(1) Cons.prems(3,4) by simp
  have "set dues \<subseteq> set (db_outbox db1)"
    using step(2) Cons.prems(2-4) by (force simp: image_iff)
  then have "outbox_inv db' \<and> outbox_later db1 db'"
    using Cons.IH [of db1 ls1] ok1 Cons.prems one by simp
  with ok1 show ?case using outbox_later_trans by blast
qed simp

lemma bury_ok:
  assumes "outbox_inv db"
  shows "outbox_inv (set_event db (exhausted d) bury) \<and> outbox_later db (set_event db (exhausted d) bury)"
  by (rule set_event_same [OF assms], drule inv_event [OF assms]) (auto simp: write_simps bury_def)

lemma due_events_props:
  assumes "outbox_inv db"
  shows "distinct (map e_id (due_events db n))" "set (due_events db n) \<subseteq> set (db_outbox db)"
    "\<forall>e\<in>set (due_events db n). is_due db e"
proof -
  have sub: "set (due_events db n) \<subseteq> {e \<in> set (db_outbox db). is_due db e}"
    unfolding due_events_def using set_take_subset by fastforce
  then show "set (due_events db n) \<subseteq> set (db_outbox db)" "\<forall>e\<in>set (due_events db n). is_due db e"
    by auto
  have "inj_on e_id (set (db_outbox db))" "distinct (db_outbox db)"
    using assms by (auto simp: outbox_inv_def distinct_map)
  moreover have "distinct (due_events db n)" using \<open>distinct (db_outbox db)\<close> by (simp add: due_events_def)
  ultimately show "distinct (map e_id (due_events db n))"
    using sub by (auto simp: distinct_map intro: inj_on_subset)
qed

lemma lease_due_ok:
  assumes "lease_due db limit s = Inr (db', ls)" "outbox_inv db"
  shows "outbox_inv db' \<and> outbox_later db db'"
proof -
  let ?db = "set_event db (exhausted db) bury"
  from assms(1) have "fold (lease_one s) (due_events ?db (nat limit)) (?db, []) = (db', ls)"
    by (auto simp: lease_due_def Let_def split: if_splits)
  moreover have inv: "outbox_inv ?db" and later: "outbox_later db ?db" using bury_ok [OF assms(2)] by auto
  ultimately have "outbox_inv db' \<and> outbox_later ?db db'"
    using due_events_props [OF inv, of "nat limit"] lease_fold_ok [of ?db] by (simp add: is_due_def)
  with later show ?thesis using outbox_later_trans by blast
qed

lemma outbox_step_ok:
  assumes "outbox_step db db'" "outbox_inv db"
  shows "outbox_inv db' \<and> outbox_later db db'"
  using assms
proof (induction rule: outbox_step.induct)
  case (outside db' db)
  then show ?case by (auto simp: outbox_inv_def outbox_later_def holds_token_def)
qed (erule (1) enqueue_outbox_ok lease_due_ok mark_published_ok mark_publish_failed_ok
    claim_execution_ok heartbeat_ok complete_ok defer_execution_ok fail_execution_ok retry_dead_ok
    | simp add: rearm_event_ok)+

interpretation outbox: monotone_system outbox_step outbox_inv outbox_later
proof
  show "\<And>s s'. outbox_step s s' \<Longrightarrow> outbox_inv s \<Longrightarrow> outbox_inv s'" using outbox_step_ok by blast
  show "\<And>s. outbox_later s s" by simp
  show "\<And>s s' s''. outbox_later s s' \<Longrightarrow> outbox_later s' s'' \<Longrightarrow> outbox_later s s''"
    by (rule outbox_later_trans)
  show "\<And>s s'. outbox_step s s' \<Longrightarrow> outbox_inv s \<Longrightarrow> outbox_later s s'" using outbox_step_ok by blast
qed

lemma fresh_token: "outbox_inv db \<Longrightarrow> \<not> holds_token db x (db_uuids db + 1)"
  by (auto simp: holds_token_def event_ok_def dest: inv_event)

section \<open>Properties\<close>

text \<open>C22: fencing. When an event no longer holds an execution lease (because it was completed, failed,
  deferred or leased again), the token stays useless for ever: in every later state, whatever the
  dispatcher and the other consumers have done since, completing, failing or deferring with it
  raises \<open>OutboxLeaseLost\<close>, and a heartbeat with it reports the loss and changes nothing.\<close>

theorem lost_lease_is_fenced:
  assumes "outbox_inv db" "lease \<le> db_uuids db" "\<not> holds_token db event lease"
    and "outbox_step\<^sup>*\<^sup>* db db'"
  shows "complete db' event lease = Inl OutboxLeaseLost
    \<and> fail_execution db' event lease err = Inl OutboxLeaseLost
    \<and> defer_execution db' event lease t = Inl OutboxLeaseLost
    \<and> heartbeat db' event lease s = (db', False)"
proof -
  have "\<not> holds_token db' event lease"
    using outbox.run_rel [OF assms(4,1)] assms(2,3) by (auto simp: outbox_later_def)
  then have none: "\<forall>e\<in>set (db_outbox db'). \<not> executes event lease e"
    by (auto simp: holds_token_def executes_def)
  then have "count_rows (\<lambda>e. executes event lease e \<and> P e) (db_outbox db') = 0" for P
    by (auto simp: count_rows_def filter_empty_conv)
  from this [of "\<lambda>_. True"] this
  have c: "count_rows (executes event lease) (db_outbox db') = 0"
    "count_rows (\<lambda>e. executes event lease e \<and> lease_live db' e \<and> e_event_type e = ''chunk.ready'')
       (db_outbox db') = 0" by simp_all
  have "set_event db' (executes event lease) f = db'" for f
    using none by (simp add: set_event_def update_rows_none)
  with c show ?thesis
    by (simp add: complete_def fail_execution_def defer_execution_def heartbeat_def lease_update_def)
qed

definition example_event :: outbox_event where
  "example_event = \<lparr>e_id = 1, e_dedup_key = ''chunk.ready:7'', e_event_type = ''chunk.ready'',
     e_aggregate_type = ''sms_chunk'', e_aggregate_id = ''7'',
     e_task_name = ''app.tasks.send.process_chunk'', e_queue = ''realtime'', e_args = [Arg_int 7],
     e_max_attempts = 12, e_state = E_processing, e_attempts = 1, e_failure_count = 0,
     e_next_attempt_at = 5, e_capacity_eligible_at = None, e_lease_id = Some 3,
     e_lease_expires_at = Some 60, e_last_error = None, e_created_at = 0\<rparr>"

definition example_outbox :: db where
  "example_outbox = (empty_db 0)\<lparr>db_uuids := 3, db_outbox := [example_event]\<rparr>"

lemma example_outbox_inv: "outbox_inv example_outbox"
  by (simp add: example_outbox_def outbox_inv_def example_event_def event_ok_def)

theorem lost_lease_is_fenced_witness:
  "complete example_outbox 1 2 = Inl OutboxLeaseLost
   \<and> (\<exists>db'. complete example_outbox 1 3 = Inr db')"
  using lost_lease_is_fenced [OF example_outbox_inv, of 2 1 example_outbox]
  by (simp add: example_outbox_def holds_token_def example_event_def complete_def lease_update_def
      count_rows_def executes_def)

text \<open>C23: duplicate deliveries. While an event is being processed, is finished or is dead, a second
  claim by event id gets nothing and changes no event; a claim that succeeds found the event leased
  or published, makes it processing, and holds a token that no event held before.\<close>

theorem claim_is_exclusive:
  assumes "outbox_inv db" "claim_execution db event s = Inr (db', c)"
  shows "case c of
      None \<Rightarrow> db_outbox db' = db_outbox db
        \<and> (\<forall>e. find_event db event = Some e \<longrightarrow> e_state e \<notin> {E_leased, E_published})
    | Some cl \<Rightarrow> (\<exists>e e'. find_event db event = Some e \<and> e_state e \<in> {E_leased, E_published}
        \<and> find_event db' event = Some e' \<and> executes event (oc_lease_id cl) e'
        \<and> (\<forall>x. \<not> holds_token db x (oc_lease_id cl))
        \<and> claim_execution db' event s = Inr (db'\<lparr>db_uuids := db_uuids db' + 1\<rparr>, None))"
proof -
  let ?p = "\<lambda>e. e_id e = event \<and> e_state e \<in> {E_leased, E_published}"
  have dist: "distinct (map e_id (db_outbox db))" using assms(1) by (simp add: outbox_inv_def)
  have s: "\<not> s < 15" using assms(2) by (auto simp: claim_execution_def split: if_splits)
  show ?thesis
  proof (cases "first_row ?p (db_outbox db)")
    case None
    with assms(2) have "c = None" "db_outbox db' = db_outbox db"
      by (auto simp: claim_execution_def Let_def split: if_splits)
    with None show ?thesis
      by (auto simp: find_event_def first_row_None_iff dest!: first_row_SomeD)
  next
    case (Some e)
    then have e: "e \<in> set (db_outbox db)" "?p e" by (auto dest: first_row_SomeD)
    have f: "find_event db event = Some e"
      using first_row_unique [OF dist e(1)] e(2) by (simp add: find_event_def)
    let ?f = "\<lambda>e. e\<lparr>e_state := E_processing, e_lease_id := Some (db_uuids db + 1),
        e_lease_expires_at := Some (db_now db + seconds s)\<rparr>"
    have db': "db' = (set_event db ?p ?f)\<lparr>db_uuids := db_uuids db + 1\<rparr>"
      and c: "c = Some \<lparr>oc_event_id = event, oc_lease_id = db_uuids db + 1,
         oc_event_type = e_event_type e, oc_args = e_args e\<rparr>"
      using Some assms(2) s by (auto simp: claim_execution_def Let_def set_event_def)
    have "find_event db' event = map_option (\<lambda>x. if ?p x then ?f x else x) (find_event db event)"
      unfolding db' by (simp add: find_event_def set_event_def first_row_update_rows)
    then have f': "find_event db' event = Some (?f e)" using f e(2) by simp
    have token: "\<not> holds_token db x (db_uuids db + 1)" for x by (rule fresh_token [OF assms(1)])
    have "first_row ?p (update_rows ?p ?f rows) = None" for rows
      by (induction rows) (simp_all add: update_rows_def first_row_def)
    then have "first_row ?p (db_outbox db') = None" unfolding db' set_event_def by simp
    then have "claim_execution db' event s = Inr (db'\<lparr>db_uuids := db_uuids db' + 1\<rparr>, None)"
      using s by (simp add: claim_execution_def Let_def)
    moreover have "executes event (db_uuids db + 1) (?f e)" using e(2) by (simp add: executes_def)
    ultimately show ?thesis using f f' e(2) token by (simp add: c del: insert_iff)
  qed
qed

theorem claim_is_exclusive_witness:
  "case claim_execution (example_outbox\<lparr>db_outbox := [example_event\<lparr>e_state := E_published\<rparr>]\<rparr>) 1 60 of
     Inr (db', Some cl) \<Rightarrow> oc_lease_id cl = 4
       \<and> claim_execution db' 1 60 = Inr (db'\<lparr>db_uuids := 5\<rparr>, None)
   | _ \<Rightarrow> False"
proof -
  let ?db = "example_outbox\<lparr>db_outbox := [example_event\<lparr>e_state := E_published\<rparr>]\<rparr>"
  have inv: "outbox_inv ?db"
    by (simp add: example_outbox_def outbox_inv_def example_event_def event_ok_def)
  obtain db' cl where run: "claim_execution ?db 1 60 = Inr (db', Some cl)" "oc_lease_id cl = 4"
    "db_uuids db' = 4"
    by (simp add: claim_execution_def example_outbox_def example_event_def first_row_def
        set_event_def)
  from claim_is_exclusive [OF inv run(1)] run show ?thesis by auto
qed

text \<open>C24: a business event has one identity. Once a contract is enqueued, enqueueing it again in any
  later state returns the same event id and adds no event, and a different contract under the same
  key is refused.\<close>

theorem enqueue_is_idempotent:
  assumes "outbox_inv db" "enqueue_outbox db spec delay wait = Inr (db1, i)"
    and "outbox_step\<^sup>*\<^sup>* db1 db2"
  shows "(\<exists>db3. enqueue_outbox db2 spec delay wait = Inr (db3, i)
      \<and> db_outbox db3 = db_outbox db2)
    \<and> (\<forall>spec2. validate_spec spec2 = Inr () \<longrightarrow> sp_dedup_key spec2 = sp_dedup_key spec
        \<longrightarrow> contract (new_event db2 spec2 0 False) \<noteq> contract (new_event db2 spec 0 False)
        \<longrightarrow> enqueue_outbox db2 spec2 0 None = Inl OutboxContractConflict)"
proof -
  have c: "contract (new_event d spec x b) = contract (new_event d' spec y False)" for d d' x y b spec
    by (simp add: contract_def new_event_def)
  obtain e1 where e1: "e1 \<in> set (db_outbox db1)" "e_id e1 = i"
    "e_dedup_key e1 = sp_dedup_key spec" "contract e1 = contract (new_event db2 spec 0 False)"
    using assms(2)
  proof (cases rule: enqueue_outbox_cases)
    case (existing e)
    with c [of db spec delay False db2 0] show thesis by (intro that [of e]) simp_all
  next
    case (fresh e)
    with c [of db spec delay _ db2 0] show thesis
      by (intro that [of e]) (simp_all add: new_event_def contract_def)
  qed
  have inv1: "outbox_inv db1" using enqueue_outbox_ok [OF assms(2,1)] by simp
  have later: "outbox_later db1 db2" by (rule outbox.run_rel [OF assms(3) inv1])
  have inv2: "outbox_inv db2" by (rule outbox.run_inv [OF assms(3) inv1])
  from later e1 obtain e where e: "e \<in> set (db_outbox db2)" "e_id e = i"
    "e_dedup_key e = sp_dedup_key spec" "contract e = contract (new_event db2 spec 0 False)"
    unfolding outbox_later_def by metis
  have row: "first_row (\<lambda>x. e_dedup_key x = sp_dedup_key spec) (db_outbox db2) = Some e"
    using first_row_unique [of e_dedup_key "db_outbox db2" e] inv2 e by (simp add: outbox_inv_def)
  from assms(2) have ok: "validate_spec spec = Inr ()" "0 \<le> delay" "delay \<le> 604800"
    "case wait of None \<Rightarrow> True | Some w \<Rightarrow>
        w = ''callback_retry'' \<and> 0 < delay \<and> sp_event_type spec = ''callback.ready''
        \<and> sp_aggregate_type spec = ''callback_task''
        \<and> sp_task_name spec = ''app.tasks.deliver_callback''
        \<and> sp_queue spec = ''callback'' \<and> callback_retry_key (sp_dedup_key spec)"
    unfolding enqueue_outbox_def by (simp_all add: rbind_Inr_iff)
  have "enqueue_outbox db2 spec delay wait = Inr (db2\<lparr>db_uuids := db_uuids db2 + 1\<rparr>, i)"
    using ok e(2,4) c [of db2 spec delay "wait \<noteq> None" db2 0]
    by (simp add: enqueue_outbox_def row Let_def guard_def)
  moreover have "enqueue_outbox db2 spec2 0 None = Inl OutboxContractConflict"
    if "validate_spec spec2 = Inr ()" "sp_dedup_key spec2 = sp_dedup_key spec"
      "contract (new_event db2 spec2 0 False) \<noteq> contract (new_event db2 spec 0 False)" for spec2
    using that e(4) by (auto simp: enqueue_outbox_def row Let_def guard_def)
  ultimately show ?thesis by auto
qed

definition example_spec :: OutboxEventSpec where
  "example_spec = \<lparr>sp_event_type = ''chunk.ready'', sp_aggregate_type = ''sms_chunk'',
     sp_aggregate_id = ''7'', sp_task_name = ''app.tasks.send.process_chunk'',
     sp_queue = ''realtime'', sp_args = [Arg_int 7], sp_dedup_key = ''chunk.ready:7'',
     sp_max_attempts = 12, sp_correlation_id = None\<rparr>"

lemma example_spec_valid: "validate_spec example_spec = Inr ()"
  by (simp add: validate_spec_def example_spec_def guard_def length_between_def TASK_NAMES_def
      assert_safe_spec_def
      ALLOWED_QUEUES_def is_reference_def chunk_ready_reference_def positive_decimal_def
      isdecimal_def digit_def startswith_def decimal_value_def)

theorem enqueue_is_idempotent_witness:
  "\<exists>db1 i. enqueue_outbox (empty_db 0) example_spec 0 None = Inr (db1, i)
     \<and> (\<exists>db3. enqueue_outbox db1 example_spec 0 None = Inr (db3, i) \<and> db_outbox db3 = db_outbox db1)"
proof -
  have inv: "outbox_inv (empty_db 0)" by (simp add: outbox_inv_def empty_db_def)
  obtain db1 i where run: "enqueue_outbox (empty_db 0) example_spec 0 None = Inr (db1, i)"
    by (simp add: enqueue_outbox_def example_spec_valid guard_def first_row_def empty_db_def
        Let_def)
  from enqueue_is_idempotent [OF inv run rtranclp.rtrancl_refl] run show ?thesis by blast
qed

definition safe_argument :: "outbox_arg \<Rightarrow> bool" where
  "safe_argument a = (case a of Arg_int i \<Rightarrow> True
     | Arg_str s \<Rightarrow> \<not> phone_in_text s \<or> BATCH_REFERENCE s \<or> STRUCTURED_REFERENCE s
         \<or> UUID_REFERENCE s)"

lemma job_names_safe: "list_all (\<lambda>s. \<not> phone_in_text s) MANUAL_JOB_TASK_NAMES"
  by (simp add: MANUAL_JOB_TASK_NAMES_def phone_in_text_def phone_here_def startswith_def digit_def)

lemma sync_signs_safe: "\<not> phone_in_text ''app.tasks.sync_signs''"
  using job_names_safe by (simp add: list_all_iff MANUAL_JOB_TASK_NAMES_def)

lemma manual_job_args:
  "manual_job_reference spec \<Longrightarrow> \<exists>j\<in>set MANUAL_JOB_TASK_NAMES. sp_args spec = [Arg_str j]"
  unfolding manual_job_reference_def
  by (cases "sp_args spec"; cases "hd (sp_args spec)"; cases "tl (sp_args spec)"; simp)

lemma sign_adoption_args:
  "sign_adoption_reference spec \<Longrightarrow> \<exists>i n. sp_args spec = [Arg_int i, Arg_int n]"
  unfolding sign_adoption_reference_def
  by (cases "sp_args spec"; cases "tl (sp_args spec)"; cases "hd (tl (sp_args spec))";
      cases "tl (tl (sp_args spec))"; simp)

lemma reference_args:
  assumes "is_reference spec"
  shows "(\<exists>u. sp_args spec = [Arg_str u] \<and> (UUID_REFERENCE u \<or> u \<in> set MANUAL_JOB_TASK_NAMES))
    \<or> (\<exists>i. sp_args spec = [Arg_int i]) \<or> (\<exists>i. sp_args spec = [Arg_str ''app.tasks.sync_signs'', Arg_int i])
    \<or> (\<exists>i n. sp_args spec = [Arg_int i, Arg_int n])"
  using assms unfolding is_reference_def
proof (elim disjE)
  assume "manual_job_reference spec"
  then show ?thesis using manual_job_args by blast
next
  assume "sign_adoption_reference spec"
  then show ?thesis using sign_adoption_args by blast
next
  assume "exact_sign_sync_reference spec"
  then show ?thesis unfolding exact_sign_sync_reference_def Let_def by blast
qed (simp_all add: usage_release_reference_def usage_projection_reference_def Let_def
  chunk_ready_reference_def uncertain_effect_reference_def vendor_binding_reference_def
  template_sync_reference_def)

lemma reference_arguments_safe:
  assumes "is_reference spec" shows "list_all safe_argument (sp_args spec)"
  using reference_args [OF assms] job_names_safe sync_signs_safe
  by (auto simp: safe_argument_def list_all_iff)

lemma assert_safe_arg_safe: "assert_safe_arg a = Inr u \<Longrightarrow> safe_argument a"
  by (cases a) (auto simp: safe_argument_def assert_safe_text_def split: if_splits)

lemma validate_spec_tail:
  assumes "validate_spec spec = Inr ()"
  shows "is_reference spec \<or> (\<exists>us. traverse assert_safe_arg (sp_args spec) = Inr us)"
proof -
  have "assert_safe_spec spec = Inr ()"
    using assms unfolding validate_spec_def Let_def rbind_Inr_iff by (elim exE conjE)
  then show ?thesis by (auto simp: assert_safe_spec_def rbind_Inr_iff split: if_splits)
qed



text \<open>C26: the executor around an effect. It reports a result only after the effect returned under a
  claim of its own, on an event of the expected type, with the lease still held, and leaves the
  event completed; without a claim the effect is not run at all; and once the lease is lost it
  writes nothing.\<close>

theorem executor_contract:
  assumes "executor_run db event s ty effect = (db', r)"
  shows "(r = Run_done x \<longrightarrow> (\<exists>db1 cl db2. claim_execution db event s = Inr (db1, Some cl)
        \<and> oc_event_type cl = ty \<and> effect cl db1 = (db2, Eff_return x, False)
        \<and> complete db2 event (oc_lease_id cl) = Inr db'
        \<and> (\<exists>e\<in>set (db_outbox db'). e_id e = event \<and> e_state e = E_completed
             \<and> e_lease_id e = None)))
    \<and> (claim_execution db event s = Inr (db1, None) \<longrightarrow> (db', r) = (db1, Run_skipped))
    \<and> (claim_execution db event s = Inr (db1, Some cl) \<longrightarrow> oc_event_type cl = ty
        \<longrightarrow> effect cl db1 = (db2, outcome, True) \<longrightarrow> db' = db2 \<and> (\<exists>e. r = Run_raised e))"
proof -
  have id: "oc_event_id cl = event" if "claim_execution db event s = Inr (db1, Some cl)" for db1 cl
    using that by (auto simp: claim_execution_def Let_def split: if_splits option.splits)
  have completed: "\<exists>e\<in>set (db_outbox d'). e_id e = event \<and> e_state e = E_completed
      \<and> e_lease_id e = None" if "complete d event l = Inr d'" for d d' l
  proof -
    from that have "count_rows (executes event l) (db_outbox d) = 1"
      and d': "d' = set_event d (executes event l) (\<lambda>e. e\<lparr>e_state := E_completed, e_lease_id := None,
          e_lease_expires_at := None, e_last_error := None\<rparr>)"
      by (auto simp: complete_def lease_update_def split: if_splits)
    then have "filter (executes event l) (db_outbox d) \<noteq> []" by (auto simp: count_rows_def)
    then obtain e where e: "e \<in> set (db_outbox d)" "executes event l e"
      by (auto simp: filter_empty_conv)
    let ?e = "e\<lparr>e_state := E_completed, e_lease_id := None, e_lease_expires_at := None,
        e_last_error := None\<rparr>"
    have "?e \<in> set (db_outbox d')" using e by (auto simp: d' set_event_def set_update_rows)
    with e(2) show ?thesis by (intro bexI [of _ ?e]) (simp_all add: executes_def)
  qed
  show ?thesis
  proof (intro conjI impI)
    assume r: "r = Run_done x"
    from assms r obtain db1 cl db2 where
      *: "claim_execution db event s = Inr (db1, Some cl)" "oc_event_type cl = ty"
         "effect cl db1 = (db2, Eff_return x, False)"
         "complete db2 (oc_event_id cl) (oc_lease_id cl) = Inr db'"
      by (auto simp: executor_run_def finish_run_def Let_def
          split: sum.splits option.splits if_splits prod.splits effect_outcome.splits)
    with id [OF *(1)] completed show "\<exists>db1 cl db2. claim_execution db event s = Inr (db1, Some cl)
        \<and> oc_event_type cl = ty \<and> effect cl db1 = (db2, Eff_return x, False)
        \<and> complete db2 event (oc_lease_id cl) = Inr db'
        \<and> (\<exists>e\<in>set (db_outbox db'). e_id e = event \<and> e_state e = E_completed
             \<and> e_lease_id e = None)" by simp
  qed (use assms in \<open>auto simp: executor_run_def Let_def split: effect_outcome.splits\<close>)
qed

theorem executor_contract_witness:
  "\<exists>db'. executor_run (example_outbox\<lparr>db_outbox := [example_event\<lparr>e_state := E_published\<rparr>]\<rparr>) 1 60
       ''chunk.ready'' (\<lambda>cl db. (db, Eff_return (5::int), False)) = (db', Run_done 5)
     \<and> (\<exists>e\<in>set (db_outbox db'). e_id e = 1 \<and> e_state e = E_completed)"
proof -
  let ?db = "example_outbox\<lparr>db_outbox := [example_event\<lparr>e_state := E_published\<rparr>]\<rparr>"
  obtain db' where run: "executor_run ?db 1 60 ''chunk.ready''
      (\<lambda>cl db. (db, Eff_return (5::int), False)) = (db', Run_done 5)"
    by (simp add: executor_run_def claim_execution_def example_outbox_def example_event_def
        first_row_def set_event_def finish_run_def complete_def lease_update_def count_rows_def
        executes_def update_rows_def)
  from executor_contract [OF run, of 5] run show ?thesis by blast
qed

lemma find_event_set_event:
  assumes "\<And>x. e_id (f x) = e_id x"
  shows "find_event ((set_event db p f)\<lparr>db_uuids := n\<rparr>) i
    = map_option (\<lambda>x. if p x then f x else x) (find_event db i)"
  using assms by (simp add: find_event_def set_event_def first_row_update_rows)

text \<open>C40: what the dispatcher is handed. Every lease of a round is for an event that was due and still
  had an attempt left, the event is now leased under that fresh token until the lease runs out, and
  its attempts have grown by one within the budget.\<close>

theorem lease_due_single:
  assumes "outbox_inv db" "lease_due db 1 s = Inr (db', ls)"
  shows "case ls of [] \<Rightarrow> True
    | l # rest \<Rightarrow> rest = [] \<and> (\<exists>e e'. find_event (set_event db (exhausted db) bury) (ol_event_id l) = Some e
        \<and> is_due db e \<and> find_event db' (ol_event_id l) = Some e'
        \<and> e_state e' = E_leased \<and> e_lease_id e' = Some (ol_lease_id l)
        \<and> e_lease_expires_at e' = Some (db_now db + seconds s)
        \<and> e_attempts e' = e_attempts e + 1 \<and> e_attempts e' \<le> e_max_attempts e'
        \<and> (\<forall>x. \<not> holds_token db x (ol_lease_id l)))"
proof (cases "due_events (set_event db (exhausted db) bury) 1")
  case Nil
  with assms(2) show ?thesis by (auto simp: lease_due_def Let_def split: if_splits)
next
  case (Cons e es)
  let ?db = "set_event db (exhausted db) bury"
  have inv: "outbox_inv ?db" using bury_ok [OF assms(1)] by simp
  have "length (due_events ?db 1) \<le> 1" by (simp add: due_events_def)
  with Cons have es: "es = []" by simp
  note due = due_events_props [OF inv, of 1, unfolded Cons es, simplified]
  have e: "find_event ?db (e_id e) = Some e"
    using first_row_unique [of e_id "db_outbox ?db" e] inv due by (simp add: find_event_def outbox_inv_def)
  have now: "db_now ?db = db_now db" "db_uuids ?db = db_uuids db" by (simp_all add: set_event_def)
  have db': "db' = (set_event ?db (\<lambda>x. e_id x = e_id e) (lease_row ?db (db_uuids db + 1) s))
        \<lparr>db_uuids := db_uuids db + 1\<rparr>"
    and ls: "ls = [\<lparr>ol_event_id = e_id e, ol_lease_id = db_uuids db + 1,
       ol_event_type = e_event_type e, ol_task_name = e_task_name e, ol_queue = e_queue e,
       ol_args = e_args e, ol_attempts = e_attempts e + 1\<rparr>]"
    using assms(2) Cons es
    by (auto simp: lease_due_def Let_def lease_one_def now split: if_splits)
  have "find_event db' (e_id e) = map_option (\<lambda>x. if e_id x = e_id e
      then lease_row ?db (db_uuids db + 1) s x else x) (find_event ?db (e_id e))"
    unfolding db' by (rule find_event_set_event) (simp add: lease_row_def)
  then have "find_event db' (e_id e) = Some (lease_row ?db (db_uuids db + 1) s e)" using e by simp
  moreover have "is_due db e" using due(3) unfolding is_due_def lease_expired_def now .
  ultimately show ?thesis
    using e fresh_token [OF assms(1)] by (simp add: ls lease_row_def now is_due_def)
qed

theorem lease_due_single_witness:
  "case lease_due (example_outbox\<lparr>db_now := 60\<rparr>) 1 60 of
     Inr (db', [l]) \<Rightarrow> ol_lease_id l = 4 \<and> (\<exists>e'. find_event db' 1 = Some e' \<and> e_attempts e' = 2)
   | _ \<Rightarrow> False"
proof -
  let ?db = "example_outbox\<lparr>db_now := 60\<rparr>"
  have inv: "outbox_inv ?db" using example_outbox_inv by (simp add: outbox_inv_def)
  obtain db' l where run: "lease_due ?db 1 60 = Inr (db', [l])" "ol_lease_id l = 4" "ol_event_id l = 1"
    by (simp add: lease_due_def example_outbox_def example_event_def set_event_def update_rows_def
        exhausted_def due_events_def is_due_def lease_expired_def lease_one_def)
  have "find_event (set_event ?db (exhausted ?db) bury) 1 = Some example_event"
    by (simp add: find_event_def set_event_def update_rows_def first_row_def example_outbox_def
        example_event_def exhausted_def)
  with lease_due_single [OF inv run(1)] run show ?thesis by (auto simp: example_event_def)
qed

end
