(* ===== verification/Live_Test.thy ===== *)
theory Live_Test
  imports Database
begin

text \<open>
  The daily budget of live tests against the real provider
  (src/backend/app/services/vendor_test_budget.py, and \<open>_reserve_submission_budget\<close> of
  src/backend/app/tasks/send_repository.py): a ledger of attempts and one usage row per day of the
  Shanghai calendar. The constraints of the two tables are part of the model, a statement that
  breaks one raises. The lemmas show that each usage row is at every moment the sum of its ledger,
  that a day never exceeds its limit, and that settling an attempt never fails.

  A date is the number of days since 1970-01-01; Shanghai is UTC+8 all year.
\<close>

section \<open>Model\<close>

definition LIVE_TEST_DAILY_SEGMENT_LIMIT :: int where
  "LIVE_TEST_DAILY_SEGMENT_LIMIT = 100"

datatype SubmissionClaimStatus = S_CLAIMED | S_STALE | S_DAILY_LIMIT

record SubmissionClaim =
  sc_status :: SubmissionClaimStatus
  sc_reset_at :: "datetime option"

definition submission_claim :: "SubmissionClaimStatus \<Rightarrow> SubmissionClaim" where
  "submission_claim s = \<lparr>sc_status = s, sc_reset_at = None\<rparr>"

definition day_us :: int where
  "day_us = 86400 * 1000000"

definition shanghai_offset :: int where
  "shanghai_offset = 8 * 3600 * 1000000"

definition live_test_usage_window :: "datetime \<Rightarrow> int \<times> datetime" where
  "live_test_usage_window now =
     (let usage_date = (now + shanghai_offset) div day_us
      in (usage_date, (usage_date + 1) * day_us - shanghai_offset))"

text \<open>The checks of \<open>vendor_test_daily_usage\<close>.\<close>

definition usage_allowed :: "daily_usage \<Rightarrow> bool" where
  "usage_allowed u \<longleftrightarrow> 0 \<le> u_in_flight u \<and> 0 \<le> u_confirmed u \<and> 0 \<le> u_uncertain u
     \<and> u_in_flight u + u_confirmed u + u_uncertain u \<le> 100"

text \<open>\<open>UPDATE vendor_test_daily_usage SET f WHERE p\<close>, and its row count.\<close>

definition update_usage ::
  "db \<Rightarrow> (daily_usage \<Rightarrow> bool) \<Rightarrow> (daily_usage \<Rightarrow> daily_usage) \<Rightarrow> (db \<times> nat) res" where
  "update_usage db p f =
     (if list_all (\<lambda>u. p u \<longrightarrow> usage_allowed (f u)) (db_usage db)
      then Inr (db\<lparr>db_usage := update_rows p f (db_usage db)\<rparr>, count_rows p (db_usage db))
      else Inl (IntegrityError ''vendor_test_daily_usage''))"

definition is_reserved :: "test_attempt \<Rightarrow> bool" where
  "is_reserved t \<longleftrightarrow> t_status t = T_reserved"

definition move_segments :: "settlement \<Rightarrow> int \<Rightarrow> daily_usage \<Rightarrow> daily_usage" where
  "move_segments status n u =
     u\<lparr>u_in_flight := u_in_flight u - n,
       u_confirmed := u_confirmed u + (if status = T_confirmed then n else 0),
       u_uncertain := u_uncertain u + (if status = T_uncertain then n else 0)\<rparr>"

text \<open>\<open>UPDATE ... FROM settled\<close> applies one row of \<open>settled\<close> to each usage row of its date.\<close>

definition settle_live_test_attempt :: "db \<Rightarrow> int \<Rightarrow> settlement \<Rightarrow> (db \<times> nat) res" where
  "settle_live_test_attempt db chunk_id status =
     (if status \<notin> {T_confirmed, T_uncertain, T_released}
      then Inl (ValueError ''unsupported live-test settlement'')
      else let p = (\<lambda>t. t_chunk_id t = chunk_id \<and> is_reserved t);
               settled = filter p (db_test_attempts db);
               db = db\<lparr>db_test_attempts :=
                      update_rows p (\<lambda>t. t\<lparr>t_status := status\<rparr>) (db_test_attempts db)\<rparr>
           in update_usage db (\<lambda>u. \<exists>t\<in>set settled. t_usage_date t = u_date u)
                (\<lambda>u. case first_row (\<lambda>t. t_usage_date t = u_date u) settled of
                       None \<Rightarrow> u
                     | Some t \<Rightarrow> move_segments status (t_segments t) u))"

text \<open>The settlement of a set of chunks inside the recovery statement, with sums per date.\<close>

definition date_total :: "int \<Rightarrow> test_attempt list \<Rightarrow> int" where
  "date_total d ts = sum_list (map t_segments (filter (\<lambda>t. t_usage_date t = d) ts))"

definition settle_chunks_uncertain :: "db \<Rightarrow> int list \<Rightarrow> (db \<times> nat) res" where
  "settle_chunks_uncertain db ids =
     (let p = (\<lambda>t. t_chunk_id t \<in> set ids \<and> is_reserved t);
          settled = filter p (db_test_attempts db);
          db = db\<lparr>db_test_attempts :=
                 update_rows p (\<lambda>t. t\<lparr>t_status := T_uncertain\<rparr>) (db_test_attempts db)\<rparr>
      in update_usage db (\<lambda>u. \<exists>t\<in>set settled. t_usage_date t = u_date u)
           (\<lambda>u. move_segments T_uncertain (date_total (u_date u) settled) u))"

definition reserve_submission_budget ::
  "db \<Rightarrow> datetime \<Rightarrow> int \<Rightarrow> int \<Rightarrow> int \<Rightarrow> (db \<times> SubmissionClaim) res" where
  "reserve_submission_budget db clock chunk_id segments attempt_no =
     (if segments < 1 \<or> attempt_no < 1
      then Inl (ValueError ''submission budget identity invalid'')
      else let (usage_date, reset_at) = live_test_usage_window clock;
               empty = \<lparr>u_date = usage_date, u_in_flight = 0, u_confirmed = 0, u_uncertain = 0\<rparr>;
               (db, usage) =
                 (case first_row (\<lambda>u. u_date u = usage_date) (db_usage db) of
                    Some u \<Rightarrow> (db, u)
                  | None \<Rightarrow> (db\<lparr>db_usage := db_usage db @ [empty]\<rparr>, empty));
               total = u_in_flight usage + u_confirmed usage + u_uncertain usage
           in if total + segments > LIVE_TEST_DAILY_SEGMENT_LIMIT
              then Inr (db, \<lparr>sc_status = S_DAILY_LIMIT, sc_reset_at = Some reset_at\<rparr>)
              else if list_ex (\<lambda>t. t_chunk_id t = chunk_id
                         \<and> (t_attempt_no t = attempt_no \<or> is_reserved t)) (db_test_attempts db)
              then Inl (IntegrityError ''vendor_test_send_attempt'')
              else let db = db\<lparr>db_test_attempts := db_test_attempts db @
                          [\<lparr>t_usage_date = usage_date, t_chunk_id = chunk_id,
                            t_attempt_no = attempt_no, t_segments = segments,
                            t_status = T_reserved\<rparr>]\<rparr>
                   in rbind (update_usage db (\<lambda>u. u_date u = usage_date)
                               (\<lambda>u. u\<lparr>u_in_flight := u_in_flight u + segments\<rparr>))
                        (\<lambda>(db, _). Inr (db, submission_claim S_CLAIMED)))"

section \<open>The invariant of the budget\<close>

definition spent :: "settlement \<Rightarrow> int \<Rightarrow> test_attempt list \<Rightarrow> int" where
  "spent s d ts =
     sum_list (map (\<lambda>t. if t_status t = s \<and> t_usage_date t = d then t_segments t else 0) ts)"

text \<open>A usage row is the sum of the ledger of its day, within the daily limit.\<close>

definition usage_exact :: "test_attempt list \<Rightarrow> daily_usage \<Rightarrow> bool" where
  "usage_exact ts u \<longleftrightarrow> u_in_flight u = spent T_reserved (u_date u) ts
     \<and> u_confirmed u = spent T_confirmed (u_date u) ts
     \<and> u_uncertain u = spent T_uncertain (u_date u) ts
     \<and> u_in_flight u + u_confirmed u + u_uncertain u \<le> LIVE_TEST_DAILY_SEGMENT_LIMIT"

definition ledger_keys :: "test_attempt list \<Rightarrow> bool" where
  "ledger_keys ts \<longleftrightarrow> distinct (map (\<lambda>t. (t_chunk_id t, t_attempt_no t)) ts)
     \<and> distinct (map t_chunk_id (filter is_reserved ts)) \<and> (\<forall>t\<in>set ts. 0 < t_segments t)"

definition budget_ok :: "daily_usage list \<Rightarrow> test_attempt list \<Rightarrow> bool" where
  "budget_ok us ts \<longleftrightarrow> distinct (map u_date us) \<and> ledger_keys ts
     \<and> (\<forall>t\<in>set ts. t_usage_date t \<in> u_date ` set us) \<and> (\<forall>u\<in>set us. usage_exact ts u)"

abbreviation budget_inv :: "db \<Rightarrow> bool" where
  "budget_inv db \<equiv> budget_ok (db_usage db) (db_test_attempts db)"

section \<open>Lemmas on the ledger\<close>

lemma spent_simps:
  "spent s d [] = 0"
  "spent s d (t # ts) = (if t_status t = s \<and> t_usage_date t = d then t_segments t else 0) + spent s d ts"
  "spent s d (ts @ us) = spent s d ts + spent s d us"
  by (simp_all add: spent_def)

lemma date_total_simps:
  "date_total d [] = 0"
  "date_total d (t # ts) = (if t_usage_date t = d then t_segments t else 0) + date_total d ts"
  by (simp_all add: date_total_def)

lemma spent_nonneg: "\<forall>t\<in>set ts. 0 < t_segments t \<Longrightarrow> 0 \<le> spent s d ts"
  by (induction ts) (auto simp: spent_simps)

lemma date_total_nonneg: "\<forall>t\<in>set ts. 0 < t_segments t \<Longrightarrow> 0 \<le> date_total d ts"
  by (induction ts) (auto simp: date_total_simps)

lemma date_total_zero: "\<forall>t\<in>set ts. t_usage_date t \<noteq> d \<Longrightarrow> date_total d ts = 0"
  by (induction ts) (auto simp: date_total_simps)

lemma move_segments_zero [simp]: "move_segments s 0 u = u"
  by (simp add: move_segments_def)

lemma spent_settle:
  assumes "\<And>t. p t \<Longrightarrow> is_reserved t" "s \<noteq> T_reserved"
  shows "spent r d (update_rows p (\<lambda>t. t\<lparr>t_status := s\<rparr>) ts) =
    spent r d ts + (if r = s then date_total d (filter p ts)
                    else if r = T_reserved then - date_total d (filter p ts) else 0)"
proof (induction ts)
  case Nil
  then show ?case by (simp add: update_rows_def spent_simps date_total_simps)
next
  case (Cons t ts)
  then show ?case using assms(1) [of t] assms(2)
    by (auto simp: update_rows_def spent_simps date_total_simps is_reserved_def)
qed

lemma usage_exact_settle:
  assumes "usage_exact ts u" "\<And>t. p t \<Longrightarrow> is_reserved t" "s \<in> {T_confirmed, T_uncertain, T_released}"
    "\<forall>t\<in>set ts. 0 < t_segments t"
  shows "usage_exact (update_rows p (\<lambda>t. t\<lparr>t_status := s\<rparr>) ts)
    (move_segments s (date_total (u_date u) (filter p ts)) u)"
proof -
  have "0 \<le> date_total (u_date u) (filter p ts)" using assms(4) by (intro date_total_nonneg) auto
  with assms show ?thesis
    by (auto simp: usage_exact_def move_segments_def spent_settle)
qed

lemma usage_exact_allowed:
  "usage_exact ts u \<Longrightarrow> \<forall>t\<in>set ts. 0 < t_segments t \<Longrightarrow> usage_allowed u"
  using spent_nonneg [of ts]
  by (auto simp: usage_exact_def usage_allowed_def LIVE_TEST_DAILY_SEGMENT_LIMIT_def)

lemma ledger_keys_settle:
  assumes "ledger_keys ts" "s \<noteq> T_reserved"
  shows "ledger_keys (update_rows p (\<lambda>t. t\<lparr>t_status := s\<rparr>) ts)"
proof -
  let ?u = "update_rows p (\<lambda>t. t\<lparr>t_status := s\<rparr>) ts"
  have k: "map (\<lambda>t. (t_chunk_id t, t_attempt_no t)) ?u = map (\<lambda>t. (t_chunk_id t, t_attempt_no t)) ts"
    by (simp add: update_rows_def)
  have "filter is_reserved ?u = filter (\<lambda>t. is_reserved t \<and> \<not> p t) ts"
    using assms(2) by (induction ts) (auto simp: update_rows_def is_reserved_def)
  moreover have "distinct (map t_chunk_id (filter (\<lambda>t. is_reserved t \<and> \<not> p t) ts))"
    using assms(1) distinct_map_filter [of t_chunk_id "filter is_reserved ts" "\<lambda>t. \<not> p t"]
    by (simp add: ledger_keys_def)
  ultimately show ?thesis using assms(1) k
    by (auto simp: ledger_keys_def set_update_rows)
qed

text \<open>A settlement of any set of reserved attempts succeeds and keeps the books exact.\<close>

lemma settle_exact:
  assumes "budget_inv db" "\<And>t. p t \<Longrightarrow> is_reserved t" "s \<in> {T_confirmed, T_uncertain, T_released}"
    and q: "\<And>u. u \<in> set (db_usage db) \<Longrightarrow> q u \<longleftrightarrow>
      (\<exists>t\<in>set (filter p (db_test_attempts db)). t_usage_date t = u_date u)"
    and f: "\<And>u. u \<in> set (db_usage db) \<Longrightarrow> q u \<Longrightarrow>
      f u = move_segments s (date_total (u_date u) (filter p (db_test_attempts db))) u"
  shows "\<exists>us n. update_usage (db\<lparr>db_test_attempts :=
        update_rows p (\<lambda>t. t\<lparr>t_status := s\<rparr>) (db_test_attempts db)\<rparr>) q f
      = Inr (db\<lparr>db_test_attempts := update_rows p (\<lambda>t. t\<lparr>t_status := s\<rparr>) (db_test_attempts db),
                db_usage := us\<rparr>, n)
    \<and> budget_ok us (update_rows p (\<lambda>t. t\<lparr>t_status := s\<rparr>) (db_test_attempts db))"
proof -
  let ?ts = "db_test_attempts db" and ?us = "db_usage db"
  let ?ts' = "update_rows p (\<lambda>t. t\<lparr>t_status := s\<rparr>) ?ts"
  let ?g = "\<lambda>u. move_segments s (date_total (u_date u) (filter p ?ts)) u"
  have keys: "ledger_keys ?ts" and pos: "\<forall>t\<in>set ?ts. 0 < t_segments t"
    using assms(1) by (auto simp: budget_ok_def ledger_keys_def)
  have keys': "ledger_keys ?ts'" using keys assms(3) by (intro ledger_keys_settle) auto
  then have pos': "\<forall>t\<in>set ?ts'. 0 < t_segments t" by (simp add: ledger_keys_def)
  have g: "usage_exact ?ts' (?g u)" if "u \<in> set ?us" for u
    using usage_exact_settle [of ?ts u p s] that assms(1,2,3) pos by (simp add: budget_ok_def)
  have upd: "update_rows q f ?us = map ?g ?us"
    unfolding update_rows_def
  proof (rule map_cong [OF refl])
    fix u assume u: "u \<in> set ?us"
    show "(if q u then f u else u) = ?g u"
    proof (cases "q u")
      case False
      then have "date_total (u_date u) (filter p ?ts) = 0"
        using q [OF u] by (intro date_total_zero) auto
      with False show ?thesis by simp
    qed (use f [OF u] in simp)
  qed
  have "list_all (\<lambda>u. q u \<longrightarrow> usage_allowed (f u)) ?us"
    using f g usage_exact_allowed [OF _ pos'] by (auto simp: list_all_iff)
  then have 1: "update_usage (db\<lparr>db_test_attempts := ?ts'\<rparr>) q f =
      Inr (db\<lparr>db_test_attempts := ?ts', db_usage := map ?g ?us\<rparr>, count_rows q ?us)"
    by (simp add: update_usage_def upd)
  have dates: "map u_date (map ?g ?us) = map u_date ?us" by (simp add: move_segments_def)
  have "budget_ok (map ?g ?us) ?ts'"
    unfolding budget_ok_def
  proof (intro conjI ballI)
    show "distinct (map u_date (map ?g ?us))" using assms(1) unfolding budget_ok_def dates by blast
    fix t assume "t \<in> set ?ts'"
    then have "t_usage_date t \<in> t_usage_date ` set ?ts" by (auto simp: set_update_rows)
    then show "t_usage_date t \<in> u_date ` set (map ?g ?us)"
      using assms(1) by (auto simp: budget_ok_def move_segments_def image_image)
  next
    fix u assume "u \<in> set (map ?g ?us)"
    then show "usage_exact ?ts' u" using g by auto
  qed (rule keys')
  with 1 show ?thesis by blast
qed

lemma reserved_of_chunk:
  assumes "ledger_keys ts"
  shows "filter (\<lambda>t. t_chunk_id t = c \<and> is_reserved t) ts = [] \<or>
    (\<exists>t. filter (\<lambda>t. t_chunk_id t = c \<and> is_reserved t) ts = [t])"
proof -
  let ?r = "filter is_reserved ts"
  have "filter (\<lambda>t. t_chunk_id t = c \<and> is_reserved t) ts = filter (\<lambda>t. t_chunk_id t = c) ?r"
    by (simp add: filter_filter conj_commute)
  moreover have "distinct (map t_chunk_id ?r)" using assms by (simp add: ledger_keys_def)
  ultimately show ?thesis
  proof (cases "\<exists>t\<in>set ?r. t_chunk_id t = c")
    case True
    then obtain t where "t \<in> set ?r" "t_chunk_id t = c" by blast
    then have "filter (\<lambda>t. t_chunk_id t = c) ?r = [t]"
      using filter_unique_key [of t_chunk_id ?r t "\<lambda>t. t_chunk_id t = c"]
        \<open>distinct (map t_chunk_id ?r)\<close> by simp
    with \<open>_ = filter _ ?r\<close> show ?thesis by simp
  qed (simp add: filter_empty_conv)
qed

lemma settle_live_test_attempt_ok:
  assumes "budget_inv db" "s \<in> {T_confirmed, T_uncertain, T_released}"
  obtains us ts n where "settle_live_test_attempt db c s =
      Inr (db\<lparr>db_test_attempts := ts, db_usage := us\<rparr>, n)" and "budget_ok us ts"
    and "\<forall>t\<in>set ts. t_chunk_id t = c \<longrightarrow> \<not> is_reserved t"
proof -
  let ?p = "\<lambda>t. t_chunk_id t = c \<and> is_reserved t"
  let ?settled = "filter ?p (db_test_attempts db)"
  let ?ts = "update_rows ?p (\<lambda>t. t\<lparr>t_status := s\<rparr>) (db_test_attempts db)"
  let ?q = "\<lambda>u. \<exists>t\<in>set ?settled. t_usage_date t = u_date u"
  let ?f = "\<lambda>u. case first_row (\<lambda>t. t_usage_date t = u_date u) ?settled of None \<Rightarrow> u
                | Some t \<Rightarrow> move_segments s (t_segments t) u"
  have "ledger_keys (db_test_attempts db)" using assms(1) by (simp add: budget_ok_def)
  then have one: "?settled = [] \<or> (\<exists>t. ?settled = [t])" by (rule reserved_of_chunk)
  have "\<exists>us n. update_usage (db\<lparr>db_test_attempts := ?ts\<rparr>) ?q ?f
      = Inr (db\<lparr>db_test_attempts := ?ts, db_usage := us\<rparr>, n) \<and> budget_ok us ?ts"
  proof (rule settle_exact [OF assms(1) _ assms(2)])
    fix u :: daily_usage assume "?q u"
    with one obtain t where t: "?settled = [t]" "t_usage_date t = u_date u" by fastforce
    show "?f u = move_segments s (date_total (u_date u) ?settled) u"
      unfolding t(1) using t(2) by (simp add: first_row_def date_total_simps)
  qed auto
  then obtain us n where 1: "update_usage (db\<lparr>db_test_attempts := ?ts\<rparr>) ?q ?f
      = Inr (db\<lparr>db_test_attempts := ?ts, db_usage := us\<rparr>, n)" and ok: "budget_ok us ?ts" by blast
  have "settle_live_test_attempt db c s = Inr (db\<lparr>db_test_attempts := ?ts, db_usage := us\<rparr>, n)"
    unfolding settle_live_test_attempt_def Let_def using assms(2) 1 by (simp only: not_not not_True_eq_False if_False simp_thms)
  moreover have "\<forall>t\<in>set ?ts. t_chunk_id t = c \<longrightarrow> \<not> is_reserved t"
  proof -
    have "s \<noteq> T_reserved" using assms(2) by auto
    then show ?thesis unfolding ball_update_rows by (auto simp: is_reserved_def)
  qed
  ultimately show thesis by (rule that [OF _ ok])
qed

lemma settle_chunks_uncertain_ok:
  assumes "budget_inv db"
  obtains us ts n where "settle_chunks_uncertain db ids =
      Inr (db\<lparr>db_test_attempts := ts, db_usage := us\<rparr>, n)" and "budget_ok us ts"
proof -
  let ?p = "\<lambda>t. t_chunk_id t \<in> set ids \<and> is_reserved t"
  have "\<exists>us n. settle_chunks_uncertain db ids = Inr (db\<lparr>db_test_attempts :=
        update_rows ?p (\<lambda>t. t\<lparr>t_status := T_uncertain\<rparr>) (db_test_attempts db), db_usage := us\<rparr>, n)
      \<and> budget_ok us (update_rows ?p (\<lambda>t. t\<lparr>t_status := T_uncertain\<rparr>) (db_test_attempts db))"
    unfolding settle_chunks_uncertain_def Let_def
    by (rule settle_exact [OF assms]) auto
  then show thesis using that by blast
qed

lemma spent_date_zero: "\<forall>t\<in>set ts. t_usage_date t \<noteq> d \<Longrightarrow> spent s d ts = 0"
  by (induction ts) (auto simp: spent_simps)

lemma budget_ok_new_day:
  assumes "budget_ok us ts" "\<forall>u\<in>set us. u_date u \<noteq> d"
  shows "budget_ok (us @ [\<lparr>u_date = d, u_in_flight = 0, u_confirmed = 0, u_uncertain = 0\<rparr>]) ts"
proof -
  have "\<forall>t\<in>set ts. t_usage_date t \<noteq> d" using assms by (fastforce simp: budget_ok_def)
  with assms show ?thesis
    by (auto simp: budget_ok_def usage_exact_def spent_date_zero LIVE_TEST_DAILY_SEGMENT_LIMIT_def)
qed

lemma budget_ok_reserve:
  assumes ok: "budget_ok us ts" and u: "u \<in> set us" "u_date u = d"
    and room: "u_in_flight u + u_confirmed u + u_uncertain u + n \<le> LIVE_TEST_DAILY_SEGMENT_LIMIT"
    and new: "\<forall>t\<in>set ts. t_chunk_id t = c \<longrightarrow> t_attempt_no t \<noteq> k \<and> \<not> is_reserved t" and n: "0 < n"
  defines "t \<equiv> \<lparr>t_usage_date = d, t_chunk_id = c, t_attempt_no = k, t_segments = n,
      t_status = T_reserved\<rparr>"
  defines "f \<equiv> \<lambda>u. u\<lparr>u_in_flight := u_in_flight u + n\<rparr>"
  shows "budget_ok (update_rows (\<lambda>u. u_date u = d) f us) (ts @ [t])"
    and "\<forall>u\<in>set us. u_date u = d \<longrightarrow> usage_allowed (f u)"
proof -
  have only: "x = u" if "x \<in> set us" "u_date x = d" for x
    using that u ok by (auto simp: budget_ok_def distinct_map inj_on_def)
  have keys: "ledger_keys (ts @ [t])"
    using ok new n by (auto simp: budget_ok_def ledger_keys_def t_def is_reserved_def)
  have exact: "usage_exact (ts @ [t]) (if u_date x = d then f x else x)" if x: "x \<in> set us" for x
  proof -
    have "usage_exact ts x" using ok x by (simp add: budget_ok_def)
    then show ?thesis using only [OF x] room
      by (auto simp: usage_exact_def spent_simps t_def f_def)
  qed
  show "\<forall>u\<in>set us. u_date u = d \<longrightarrow> usage_allowed (f u)"
  proof (intro ballI impI)
    fix x assume x: "x \<in> set us" "u_date x = d"
    with exact [OF x(1)] have "usage_exact (ts @ [t]) (f x)" by simp
    then show "usage_allowed (f x)" using keys
      by (intro usage_exact_allowed [of "ts @ [t]"]) (auto simp: ledger_keys_def)
  qed
  have dates: "map u_date (update_rows (\<lambda>u. u_date u = d) f us) = map u_date us"
    by (simp add: map_update_rows f_def)
  then have "u_date ` set (update_rows (\<lambda>u. u_date u = d) f us) = u_date ` set us"
    by (metis set_map)
  moreover have "\<forall>x\<in>set (ts @ [t]). t_usage_date x \<in> u_date ` set us"
    using ok u by (auto simp: budget_ok_def t_def)
  ultimately show "budget_ok (update_rows (\<lambda>u. u_date u = d) f us) (ts @ [t])"
    using ok keys exact dates unfolding budget_ok_def ball_update_rows by simp
qed

lemma usage_row:
  assumes "budget_inv db"
  obtains us u where "(case first_row (\<lambda>u. u_date u = d) (db_usage db) of Some u \<Rightarrow> (db, u)
      | None \<Rightarrow> (db\<lparr>db_usage := db_usage db @
          [\<lparr>u_date = d, u_in_flight = 0, u_confirmed = 0, u_uncertain = 0\<rparr>]\<rparr>,
          \<lparr>u_date = d, u_in_flight = 0, u_confirmed = 0, u_uncertain = 0\<rparr>)) = (db\<lparr>db_usage := us\<rparr>, u)"
    and "budget_ok us (db_test_attempts db)" "u \<in> set us" "u_date u = d"
proof (cases "first_row (\<lambda>u. u_date u = d) (db_usage db)")
  case None
  let ?u = "\<lparr>u_date = d, u_in_flight = 0, u_confirmed = 0, u_uncertain = 0\<rparr>"
  from None have "\<forall>u\<in>set (db_usage db). u_date u \<noteq> d" by (simp add: first_row_None_iff)
  with None show thesis
    using that [of "db_usage db @ [?u]" ?u] budget_ok_new_day [OF assms] by simp
next
  case (Some u)
  then show thesis using that [of "db_usage db" u] assms by (auto dest: first_row_SomeD)
qed

lemma reserve_submission_budget_ok:
  assumes "budget_inv db" "reserve_submission_budget db clock c n k = Inr (db', claim)"
  obtains us ts where "db' = db\<lparr>db_test_attempts := ts, db_usage := us\<rparr>" "budget_ok us ts"
    and "sc_status claim \<in> {S_CLAIMED, S_DAILY_LIMIT}"
    and "sc_status claim = S_DAILY_LIMIT \<Longrightarrow> ts = db_test_attempts db
      \<and> sc_reset_at claim = Some (snd (live_test_usage_window clock))"
proof -
  define d where "d = fst (live_test_usage_window clock)"
  define r where "r = snd (live_test_usage_window clock)"
  have w: "live_test_usage_window clock = (d, r)" by (simp add: d_def r_def)
  obtain us u where u: "(case first_row (\<lambda>u. u_date u = d) (db_usage db) of Some u \<Rightarrow> (db, u)
      | None \<Rightarrow> (db\<lparr>db_usage := db_usage db @
          [\<lparr>u_date = d, u_in_flight = 0, u_confirmed = 0, u_uncertain = 0\<rparr>]\<rparr>,
          \<lparr>u_date = d, u_in_flight = 0, u_confirmed = 0, u_uncertain = 0\<rparr>)) = (db\<lparr>db_usage := us\<rparr>, u)"
    and ok: "budget_ok us (db_test_attempts db)" and us: "u \<in> set us" "u_date u = d"
    using usage_row [OF assms(1)] .
  let ?total = "u_in_flight u + u_confirmed u + u_uncertain u"
  let ?dup = "list_ex (\<lambda>t. t_chunk_id t = c \<and> (t_attempt_no t = k \<or> is_reserved t))
      (db_test_attempts db)"
  let ?t = "\<lparr>t_usage_date = d, t_chunk_id = c, t_attempt_no = k, t_segments = n,
      t_status = T_reserved\<rparr>"
  let ?db = "db\<lparr>db_usage := us, db_test_attempts := db_test_attempts db @ [?t]\<rparr>"
  have run: "\<not> (n < 1 \<or> k < 1)"
    "(if ?total + n > LIVE_TEST_DAILY_SEGMENT_LIMIT
      then Inr (db\<lparr>db_usage := us\<rparr>, \<lparr>sc_status = S_DAILY_LIMIT, sc_reset_at = Some r\<rparr>)
      else if ?dup then Inl (IntegrityError ''vendor_test_send_attempt'')
      else rbind (update_usage ?db (\<lambda>u. u_date u = d) (\<lambda>u. u\<lparr>u_in_flight := u_in_flight u + n\<rparr>))
             (\<lambda>(db, _). Inr (db, submission_claim S_CLAIMED))) = Inr (db', claim)"
    using assms(2) unfolding reserve_submission_budget_def w Let_def prod.case u
    by (simp_all split: if_splits)
  show thesis
  proof (cases "?total + n > LIVE_TEST_DAILY_SEGMENT_LIMIT")
    case True
    with run(2) have "db' = db\<lparr>db_usage := us\<rparr>" "sc_status claim = S_DAILY_LIMIT"
      "sc_reset_at claim = Some r" by auto
    then show thesis using that [of us "db_test_attempts db"] ok by (simp add: w)
  next
    case False
    with run(2) have nodup: "\<not> ?dup" by (auto split: if_splits)
    have n: "0 < n" using run(1) by simp
    note res = budget_ok_reserve [OF ok us, of n c k]
    have new: "\<forall>t\<in>set (db_test_attempts db). t_chunk_id t = c \<longrightarrow> t_attempt_no t \<noteq> k \<and> \<not> is_reserved t"
      using nodup by (auto simp: list_ex_iff)
    have "db' = ?db\<lparr>db_usage := update_rows (\<lambda>u. u_date u = d)
        (\<lambda>u. u\<lparr>u_in_flight := u_in_flight u + n\<rparr>) us\<rparr>" "claim = submission_claim S_CLAIMED"
      using run(2) False nodup res(2) [OF _ new n]
      by (auto simp: update_usage_def list_all_iff rbind_Inr_iff split: if_splits)
    then show thesis using that [of
          "update_rows (\<lambda>u. u_date u = d) (\<lambda>u. u\<lparr>u_in_flight := u_in_flight u + n\<rparr>) us"
          "db_test_attempts db @ [?t]"]
        res(1) [OF _ new n] False by (simp add: submission_claim_def)
  qed
qed



end
