(* ===== verification/Category.thy ===== *)
theory Category
  imports Outbox Live_Test
begin

text \<open>
  The policy of message categories (src/backend/app/services/category.py): which queue a category
  uses, whether the blacklist and an approval apply, and when a marketing message may be sent; and
  the check of the configured sending window (\<open>RuntimePolicy.from_mapping\<close> of
  src/backend/app/services/runtime_policy.py). The lemmas show that a marketing message is sent or
  scheduled inside the window only, at the first moment that is not too early, and which of the
  windows that pass the check can be used.

  An aware datetime is its instant. \<open>time.fromisoformat\<close> is modelled on texts of five characters with
  a colon in the middle, the form that the check admits; a clock time is in microseconds.
\<close>

section \<open>Model\<close>

record CategoryPolicy =
  cp_category :: string
  cp_queue :: string
  cp_blacklist_required :: bool
  cp_approval_threshold_key :: "string option"
  cp_qps_lane :: string

definition policy_for_category :: "string \<Rightarrow> string set \<Rightarrow> bool \<Rightarrow> CategoryPolicy res" where
  "policy_for_category category allowed_categories notice_blacklist =
     (if category \<notin> {''verify'', ''notice'', ''market''}
      then Inl (ValueError ''category must be verify, notice or market'')
      else if category \<notin> allowed_categories then Inl (PermissionError ''CategoryNotAllowed'')
      else if category = ''verify''
      then Inr \<lparr>cp_category = ''verify'', cp_queue = ''realtime'', cp_blacklist_required = False,
                cp_approval_threshold_key = None, cp_qps_lane = ''realtime''\<rparr>
      else if category = ''notice''
      then Inr \<lparr>cp_category = ''notice'', cp_queue = ''realtime'',
                cp_blacklist_required = notice_blacklist,
                cp_approval_threshold_key = Some ''approval_threshold'', cp_qps_lane = ''realtime''\<rparr>
      else Inr \<lparr>cp_category = ''market'', cp_queue = ''bulk'', cp_blacklist_required = True,
                cp_approval_threshold_key = Some ''market_approval_threshold'',
                cp_qps_lane = ''bulk''\<rparr>)"

definition queue_for_category :: "string \<Rightarrow> string" where
  "queue_for_category category = (if category = ''market'' then ''bulk'' else ''realtime'')"

text \<open>\<open>text.split("-", 1)\<close> into two parts.\<close>

definition split_dash :: "string \<Rightarrow> (string \<times> string) option" where
  "split_dash s = map_option (\<lambda>rest. (partition_head CHR ''-'' s, rest)) (partition_tail CHR ''-'' s)"

definition iso_time :: "string \<Rightarrow> int option" where
  "iso_time s =
     (if length s = 5 \<and> s ! 2 = CHR '':'' \<and> list_all digit (take 2 s @ drop 3 s)
         \<and> decimal_value (take 2 s) \<le> 23 \<and> decimal_value (drop 3 s) \<le> 59
      then Some ((decimal_value (take 2 s) * 60 + decimal_value (drop 3 s)) * 60000000) else None)"

definition parse_window :: "string \<Rightarrow> (int \<times> int) res" where
  "parse_window w =
     (case split_dash w of
        None \<Rightarrow> Inl (ValueError ''not enough values to unpack'')
      | Some (start_raw, end_raw) \<Rightarrow>
          (case (iso_time start_raw, iso_time end_raw) of
             (Some s, Some e) \<Rightarrow>
               if s \<ge> e
               then Inl (ValueError ''market window must be a same-day half-open interval'')
               else Inr (s, e)
           | _ \<Rightarrow> Inl (ValueError ''Invalid isoformat string'')))"

datatype moment = Aware datetime | Naive datetime

fun aware :: "string \<Rightarrow> moment \<Rightarrow> datetime res" where
  "aware what (Aware t) = Inr t"
| "aware what (Naive t) = Inl (ValueError (what @ '' must include timezone''))"

definition local_date :: "datetime \<Rightarrow> int" where
  "local_date t = (t + shanghai_offset) div day_us"

definition local_clock :: "datetime \<Rightarrow> int" where
  "local_clock t = (t + shanghai_offset) mod day_us"

datatype dispatch_state = D_queued | D_scheduled

definition coerce_market_dispatch ::
  "moment \<Rightarrow> string \<Rightarrow> moment option
     \<Rightarrow> (dispatch_state \<times> string option \<times> datetime option) res" where
  "coerce_market_dispatch now w scheduled_at =
     rbind (aware ''now'' now) (\<lambda>now.
     rbind (case scheduled_at of None \<Rightarrow> Inr None
            | Some m \<Rightarrow> rbind (aware ''scheduled_at'' m) (\<lambda>t. Inr (Some t))) (\<lambda>scheduled_at.
     rbind (parse_window w) (\<lambda>(s, e).
       let reference = (case scheduled_at of Some t \<Rightarrow> t | None \<Rightarrow> now);
           clock = local_clock reference
       in if s \<le> clock \<and> clock < e
          then (case scheduled_at of
                  Some t \<Rightarrow> Inr (D_scheduled, None, Some t) | None \<Rightarrow> Inr (D_queued, None, None))
          else let target_date = (if clock < s then local_date reference
                                  else local_date reference + 1)
               in Inr (D_scheduled, Some ''market_window'',
                       Some (target_date * day_us + s - shanghai_offset)))))"

text \<open>\<open>str.strip\<close> and \<open>int\<close> on ASCII text: white space around, a sign, and digits that single
  underscores may separate.\<close>

definition isspace :: "char \<Rightarrow> bool" where
  "isspace c \<longleftrightarrow> of_char c \<in> ({9, 10, 11, 12, 13, 28, 29, 30, 31, 32} :: nat set)"

definition strip :: "string \<Rightarrow> string" where
  "strip s = rev (dropWhile isspace (rev (dropWhile isspace s)))"

fun digit_groups :: "string \<Rightarrow> bool" where
  "digit_groups [] = False"
| "digit_groups [c] = digit c"
| "digit_groups (c # d # s) =
     (digit c \<and> (if d = CHR ''_'' then digit_groups s else digit_groups (d # s)))"

definition py_int :: "string \<Rightarrow> int option" where
  "py_int text =
     (let s = strip text;
          (sign, s) = (case s of CHR ''-'' # r \<Rightarrow> (- 1, r) | CHR ''+'' # r \<Rightarrow> (1, r) | r \<Rightarrow> (1, r))
      in if digit_groups s then Some (sign * decimal_value (filter (\<lambda>c. c \<noteq> CHR ''_'') s)) else None)"

definition valid_clock :: "string \<Rightarrow> string \<Rightarrow> bool" where
  "valid_clock start finish =
     (case (py_int (take 2 start), py_int (drop 3 start), py_int (take 2 finish), py_int (drop 3 finish)) of
        (Some sh, Some sm, Some fh, Some fm) \<Rightarrow>
          length start = 5 \<and> length finish = 5 \<and> start ! 2 = CHR '':'' \<and> finish ! 2 = CHR '':''
          \<and> 0 \<le> sh \<and> sh \<le> 23 \<and> 0 \<le> fh \<and> fh \<le> 23 \<and> 0 \<le> sm \<and> sm \<le> 59 \<and> 0 \<le> fm \<and> fm \<le> 59
          \<and> sh * 60 + sm < fh * 60 + fm
      | _ \<Rightarrow> False)"

definition market_send_window :: "string \<Rightarrow> string res" where
  "market_send_window value =
     (let w = strip value in
      case split_dash w of
        None \<Rightarrow> Inl (ValueError ''InvalidRuntimePolicy'')
      | Some (start, finish) \<Rightarrow>
          if valid_clock start finish then Inr w else Inl (ValueError ''InvalidRuntimePolicy''))"

section \<open>Properties\<close>

definition in_window :: "int \<times> int \<Rightarrow> datetime \<Rightarrow> bool" where
  "in_window p t \<longleftrightarrow> fst p \<le> local_clock t \<and> local_clock t < snd p"

lemma local_split: "t = local_date t * day_us + local_clock t - shanghai_offset"
  using div_mult_mod_eq [of "t + shanghai_offset" day_us] by (simp add: local_date_def local_clock_def)

lemma local_clock_at: "0 \<le> s \<Longrightarrow> s < day_us \<Longrightarrow> local_clock (d * day_us + s - shanghai_offset) = s"
  by (simp add: local_clock_def)

lemma clock_range: "0 \<le> local_clock t" "local_clock t < day_us"
  by (simp_all add: local_clock_def day_us_def)


lemma decimal_value_nonneg:
  assumes "list_all digit s"
  shows "0 \<le> decimal_value s"
proof -
  have "0 \<le> n \<Longrightarrow> 0 \<le> foldl (\<lambda>n c. 10 * n + int (of_char c :: nat) - 48) n s" for n
    using assms by (induction s arbitrary: n) (auto simp: digit_def)
  then show ?thesis by (simp add: decimal_value_def)
qed

lemma iso_time_bounds:
  assumes "iso_time s = Some t"
  shows "0 \<le> t" "t < day_us"
proof -
  have d: "list_all digit (take 2 s)" "list_all digit (drop 3 s)"
    and b: "decimal_value (take 2 s) \<le> 23" "decimal_value (drop 3 s) \<le> 59"
    and t: "t = (decimal_value (take 2 s) * 60 + decimal_value (drop 3 s)) * 60000000"
    using assms by (auto simp: iso_time_def split: if_splits)
  show "0 \<le> t" "t < day_us"
    using decimal_value_nonneg [OF d(1)] decimal_value_nonneg [OF d(2)] b
    by (auto simp: t day_us_def)
qed

lemma parse_window_bounds:
  assumes "parse_window w = Inr (s, e)"
  shows "0 \<le> s" "s < e" "e < day_us"
  using assms by (auto simp: parse_window_def split: option.splits if_splits dest: iso_time_bounds)

lemma local_date_mono: "u \<le> v \<Longrightarrow> local_date u \<le> local_date v"
  by (simp add: local_date_def day_us_def zdiv_mono1)

lemma local_date_at: "0 \<le> s \<Longrightarrow> s < day_us \<Longrightarrow> local_date (d * day_us + s - shanghai_offset) = d"
  by (simp add: local_date_def)

lemma same_date_clock: "local_date u = local_date v \<Longrightarrow> local_clock u - local_clock v = u - v"
  using local_split [of u] local_split [of v] by simp

text \<open>The next opening of the window after a moment outside it.\<close>

lemma next_opening:
  assumes "0 \<le> s" "s < e" "e < day_us" "\<not> in_window (s, e) r"
    and "t = (if local_clock r < s then local_date r else local_date r + 1) * day_us + s - shanghai_offset"
  shows "r \<le> t" "in_window (s, e) t" "r \<le> u \<Longrightarrow> u < t \<Longrightarrow> \<not> in_window (s, e) u"
proof -
  note r = local_split [of r] clock_range [of r]
  show "in_window (s, e) t" using assms(1-3) by (simp add: in_window_def assms(5) local_clock_at)
  have out: "local_clock r < s \<or> e \<le> local_clock r" using assms(4) by (auto simp: in_window_def)
  have next_day: "(local_date r + 1) * day_us = local_date r * day_us + day_us"
    by (simp add: algebra_simps)
  show "r \<le> t" using r out assms(1-3) by (auto simp: assms(5) next_day)
  assume u: "r \<le> u" "u < t"
  define d where "d = (if local_clock r < s then local_date r else local_date r + 1)"
  have t: "local_date t = d" "local_clock t = s"
    using assms(1-3) by (simp_all add: assms(5) d_def local_date_at local_clock_at)
  have le: "local_date r \<le> local_date u" "local_date u \<le> d"
    using local_date_mono [OF u(1)] local_date_mono [of u t] u(2) t(1) by simp_all
  show "\<not> in_window (s, e) u"
  proof (cases "local_date u = d")
    case True
    then have "local_clock u < s" using same_date_clock [of u t] u(2) t by simp
    then show ?thesis by (simp add: in_window_def)
  next
    case False
    with le have "local_date u = local_date r" "\<not> local_clock r < s" by (auto simp: d_def split: if_splits)
    with out same_date_clock [of u r] u(1) show ?thesis by (auto simp: in_window_def)
  qed
qed

text \<open>C31: a marketing message is never sent outside the window. It is queued only when the moment is
  inside; otherwise it is scheduled for a moment inside the window that is not before the requested
  one, and no moment in between lies in the window.\<close>

theorem market_dispatch_in_window:
  assumes "coerce_market_dispatch now w scheduled_at = Inr (state, reason, at)"
  shows "\<exists>p r. parse_window w = Inr p
    \<and> (scheduled_at = Some (Aware r) \<or> (scheduled_at = None \<and> now = Aware r))
    \<and> (case at of
         None \<Rightarrow> state = D_queued \<and> scheduled_at = None \<and> in_window p r
       | Some t \<Rightarrow> state = D_scheduled \<and> r \<le> t \<and> in_window p t
           \<and> (\<forall>u. r \<le> u \<and> u < t \<longrightarrow> \<not> in_window p u))"
proof -
  obtain n where n: "now = Aware n" using assms by (cases now) (auto simp: coerce_market_dispatch_def)
  obtain so where so: "(case scheduled_at of None \<Rightarrow> Inr None
      | Some m \<Rightarrow> rbind (aware ''scheduled_at'' m) (\<lambda>t. Inr (Some t))) = Inr so"
    and sched: "scheduled_at = map_option Aware so"
    using assms by (cases scheduled_at; cases "the scheduled_at")
      (auto simp: coerce_market_dispatch_def n)
  obtain s e where p: "parse_window w = Inr (s, e)"
    using assms by (auto simp: coerce_market_dispatch_def n so rbind_Inr_iff)
  note b = parse_window_bounds [OF p]
  define r where "r = (case so of Some t \<Rightarrow> t | None \<Rightarrow> n)"
  have ref: "scheduled_at = Some (Aware r) \<or> (scheduled_at = None \<and> now = Aware r)"
    by (cases so) (simp_all add: sched n r_def)
  show ?thesis
  proof (cases "in_window (s, e) r")
    case True
    then have "(state, at) = (case so of Some t \<Rightarrow> (D_scheduled, Some t) | None \<Rightarrow> (D_queued, None))"
      using assms by (cases so)
        (auto simp: coerce_market_dispatch_def n so p Let_def r_def in_window_def)
    with True p ref show ?thesis
      by (intro exI [of _ "(s, e)"] exI [of _ r]) (cases so; auto simp: sched r_def)
  next
    case False
    then have "state = D_scheduled" "at = Some ((if local_clock r < s then local_date r
        else local_date r + 1) * day_us + s - shanghai_offset)"
      using assms by (auto simp: coerce_market_dispatch_def n so p Let_def r_def in_window_def
          split: if_splits)
    with next_opening [OF b False refl] p ref show ?thesis
      by (intro exI [of _ "(s, e)"] exI [of _ r]) auto
  qed
qed

lemma digit_plain:
  assumes "digit c"
  shows "\<not> isspace c" "c \<noteq> CHR ''-''" "c \<noteq> CHR ''+''" "c \<noteq> CHR ''_''"
  using assms by (auto simp: digit_def isspace_def)

lemma py_int_digits:
  assumes "digit a" "digit b"
  shows "py_int [a, b] = Some (decimal_value [a, b])"
proof -
  have "strip [a, b] = [a, b]" using digit_plain [OF assms(1)] digit_plain [OF assms(2)] by (simp add: strip_def)
  moreover have "(case [a, b] of CHR ''-'' # r \<Rightarrow> (- 1 :: int, r) | CHR ''+'' # r \<Rightarrow> (1, r) | r \<Rightarrow> (1, r)) = (1, [a, b])"
    using digit_plain [OF assms(1)] by (simp split: char.splits bool.splits)
  ultimately show ?thesis
    using assms digit_plain [OF assms(1)] digit_plain [OF assms(2)] unfolding py_int_def Let_def by simp
qed

lemma five_chars:
  assumes "length s = 5"
  obtains a b c d e where "s = [a, b, c, d, e]"
  using assms by (auto simp: eval_nat_numeral length_Suc_conv)

lemma valid_clock_iso:
  assumes "valid_clock start finish" "list_all digit (take 2 start @ drop 3 start @ take 2 finish @ drop 3 finish)"
  shows "\<exists>s e. iso_time start = Some s \<and> iso_time finish = Some e \<and> s < e"
proof -
  obtain a b c d e where s: "start = [a, b, c, d, e]"
    using assms(1) five_chars by (auto simp: valid_clock_def split: option.splits)
  obtain a' b' c' d' e' where f: "finish = [a', b', c', d', e']"
    using assms(1) five_chars by (auto simp: valid_clock_def split: option.splits)
  have d: "digit a" "digit b" "digit d" "digit e" "digit a'" "digit b'" "digit d'" "digit e'"
    using assms(2) by (simp_all add: s f)
  show ?thesis
    using assms(1) d
    by (simp add: valid_clock_def s f py_int_digits iso_time_def)
qed

text \<open>C32: which of the windows that the check of the configuration admits can be used: exactly those
  whose four numbers are plain digits. The check reads them with \<open>int\<close>, which also accepts white
  space and signs; such a window raises whenever a marketing message is dispatched.\<close>

theorem validated_window_usable_iff:
  assumes "market_send_window v = Inr w"
  shows "(\<exists>r. coerce_market_dispatch (Aware now) w None = Inr r) \<longleftrightarrow>
    (\<exists>start finish. split_dash w = Some (start, finish)
       \<and> list_all digit (take 2 start @ drop 3 start @ take 2 finish @ drop 3 finish))"
proof -
  obtain start finish where sf: "split_dash w = Some (start, finish)" "valid_clock start finish"
    using assms by (auto simp: market_send_window_def Let_def split: option.splits if_splits)
  have "(\<exists>r. coerce_market_dispatch (Aware now) w None = Inr r) \<longleftrightarrow> (\<exists>p. parse_window w = Inr p)"
    by (cases "parse_window w") (auto simp: coerce_market_dispatch_def Let_def split: prod.splits)
  also have "\<dots> \<longleftrightarrow> (\<exists>s e. iso_time start = Some s \<and> iso_time finish = Some e \<and> s < e)"
    by (auto simp: parse_window_def sf split: option.splits)
  also have "\<dots> \<longleftrightarrow> list_all digit (take 2 start @ drop 3 start @ take 2 finish @ drop 3 finish)"
    using valid_clock_iso [OF sf(2)] by (auto simp: iso_time_def split: if_splits)
  finally show ?thesis using sf(1) by simp
qed

section \<open>Examples\<close>

lemma market_dispatch_in_window_witness:
  "coerce_market_dispatch (Aware 0) ''09:00-21:00'' None = Inr (D_scheduled, Some ''market_window'', Some 3600000000)
   \<and> in_window (32400000000, 75600000000) 3600000000 \<and> \<not> in_window (32400000000, 75600000000) 0"
proof -
  have c: "coerce_market_dispatch (Aware 0) ''09:00-21:00'' None
      = Inr (D_scheduled, Some ''market_window'', Some 3600000000)" by code_simp
  have p: "parse_window ''09:00-21:00'' = Inr (32400000000, 75600000000)" by code_simp
  from market_dispatch_in_window [OF c] p c show ?thesis by auto
qed

lemma validated_window_usable_iff_witness:
  "market_send_window ''+8:00-21:00'' = Inr ''+8:00-21:00''
   \<and> \<not> (\<exists>r. coerce_market_dispatch (Aware 0) ''+8:00-21:00'' None = Inr r)
   \<and> market_send_window '' 08:00-21:00'' = Inr ''08:00-21:00''
   \<and> (\<exists>r. coerce_market_dispatch (Aware 0) ''08:00-21:00'' None = Inr r)"
proof -
  have 1: "market_send_window ''+8:00-21:00'' = Inr ''+8:00-21:00''"
    "market_send_window '' 08:00-21:00'' = Inr ''08:00-21:00''" by code_simp+
  have 2: "split_dash ''+8:00-21:00'' = Some (''+8:00'', ''21:00'')"
    "split_dash ''08:00-21:00'' = Some (''08:00'', ''21:00'')" by code_simp+
  have 3: "\<not> list_all digit (take 2 ''+8:00'' @ drop 3 ''+8:00'' @ take 2 ''21:00'' @ drop 3 ''21:00'')"
    "list_all digit (take 2 ''08:00'' @ drop 3 ''08:00'' @ take 2 ''21:00'' @ drop 3 ''21:00'')" by code_simp+
  from validated_window_usable_iff [OF 1(1), of 0] validated_window_usable_iff [OF 1(2), of 0] 1 2 3
  show ?thesis by simp
qed

end
