(* ===== verification/Send_Store.thy ===== *)
theory Send_Store
  imports Inflight Outbox Live_Test Category
begin

text \<open>
  The chunk store of the send worker (src/backend/app/tasks/send_repository.py): one function per
  transaction of \<open>SqlChunkStore\<close>. A transaction locks the rows it changes, so it is one step on the
  database; \<open>Inl\<close> is an exception that rolls it back. The Celery message that some methods publish
  after their commit is part of the result. Encryption, the settings and the list of test recipients
  are the parameters of \<open>store_env\<close>: the keyed pseudonym of a task id, the clock of the budget, and the
  number of recipients of a chunk that are not on the list of test recipients.
\<close>

section \<open>Text of a number\<close>

fun nat_str :: "nat \<Rightarrow> string" where
  "nat_str n = (if n < 10 then [char_of (48 + n)]
                else nat_str (n div 10) @ [char_of (48 + n mod 10)])"

text \<open>\<open>str\<close> of an integer.\<close>

definition str_int :: "int \<Rightarrow> string" where
  "str_int i = (if i < 0 then ''-'' @ nat_str (nat (- i)) else nat_str (nat i))"

section \<open>Environment and helpers\<close>

record store_env =
  se_registry :: "VendorRecord list"
  se_adapter_ids :: "string list"
  se_vendor_live_test :: bool
  se_clock :: datetime
  se_denied :: "db \<Rightarrow> int \<Rightarrow> int"
  se_pseudonym :: "string \<Rightarrow> string"

text \<open>A Celery message: chunk, queue and countdown in seconds.\<close>

type_synonym retry_message = "int \<times> string \<times> int"

definition lane_for :: "string \<Rightarrow> string" where
  "lane_for category = queue_for_category category"

text \<open>\<open>UPDATE sms_chunk SET f WHERE id=:id AND p RETURNING ...\<close>: the new database and the row that
  was changed, as it was.\<close>

definition update_chunk ::
  "db \<Rightarrow> int \<Rightarrow> (sms_chunk \<Rightarrow> bool) \<Rightarrow> (sms_chunk \<Rightarrow> sms_chunk) \<Rightarrow> db \<times> sms_chunk option" where
  "update_chunk db i p f =
     (set_chunks db (\<lambda>c. c_id c = i \<and> p c) f,
      first_row (\<lambda>c. c_id c = i \<and> p c) (db_chunks db))"

definition is_submitting :: "sms_chunk \<Rightarrow> bool" where
  "is_submitting c \<longleftrightarrow> c_status c = C_submitting"

definition callable_batch :: "db \<Rightarrow> int \<Rightarrow> bool" where
  "callable_batch db i =
     (case find_batch db i of None \<Rightarrow> False | Some b \<Rightarrow> b_status b \<in> {B_queued, B_sending})"

definition retry_due :: "db \<Rightarrow> sms_chunk \<Rightarrow> bool" where
  "retry_due db c = (case c_retry_not_before c of None \<Rightarrow> True | Some t \<Rightarrow> t \<le> db_now db)"

definition settle :: "db \<Rightarrow> int \<Rightarrow> settlement \<Rightarrow> db res" where
  "settle db chunk_id status =
     rbind (settle_live_test_attempt db chunk_id status) (\<lambda>(db, _). Inr db)"

definition log_request :: "db \<Rightarrow> request \<Rightarrow> db" where
  "log_request db r = db\<lparr>db_requests := db_requests db @ [r]\<rparr>"

text \<open>\<open>now()+make_interval(secs=>delay_s)\<close> and \<open>math.ceil\<close> of a difference in seconds.\<close>

definition in_seconds :: "db \<Rightarrow> int \<Rightarrow> datetime" where
  "in_seconds db delay = db_now db + seconds delay"

definition ceil_seconds :: "datetime \<Rightarrow> int" where
  "ceil_seconds d = - ((- d) div 1000000)"

text \<open>\<open>NO_REPORT_EVIDENCE\<close> of report_projection.py.\<close>

definition NO_REPORT_EVIDENCE :: "sms_message \<Rightarrow> bool" where
  "NO_REPORT_EVIDENCE m \<longleftrightarrow> m_report_event_key m = None \<and> m_report_status m = None
     \<and> m_report_time m = None \<and> m_report_desc m = None"

definition update_messages ::
  "db \<Rightarrow> (sms_message \<Rightarrow> bool) \<Rightarrow> (sms_message \<Rightarrow> sms_message) \<Rightarrow> db" where
  "update_messages db p f = db\<lparr>db_messages := update_rows p f (db_messages db)\<rparr>"

section \<open>Releasing and claiming a chunk\<close>

definition release_unsent :: "db \<Rightarrow> int \<Rightarrow> db res" where
  "release_unsent db chunk_id =
     (case update_chunk db chunk_id is_submitting (\<lambda>c. c\<lparr>c_status := C_retrying,
             c_vendor_msg := Some ''submit aborted before vendor call'',
             c_submitting_since := None, c_retry_not_before := Some (db_now db)\<rparr>) of
        (db, None) \<Rightarrow> Inr db
      | (db, Some _) \<Rightarrow> settle db chunk_id T_released)"

definition release_control_claim :: "db \<Rightarrow> int \<Rightarrow> db res" where
  "release_control_claim db chunk_id =
     (case update_chunk db chunk_id is_submitting (\<lambda>c. c\<lparr>c_status := C_retrying,
             c_vendor_code := None, c_vendor_msg := Some ''vendor control state unavailable'',
             c_submitting_since := None, c_retry_not_before := Some (db_now db)\<rparr>) of
        (db, None) \<Rightarrow> Inr db
      | (db, Some _) \<Rightarrow> settle db chunk_id T_released)"

definition chunk_ready_spec :: "int \<Rightarrow> string \<Rightarrow> OutboxEventSpec" where
  "chunk_ready_spec chunk_id lane =
     \<lparr>sp_event_type = ''chunk.ready'', sp_aggregate_type = ''sms_chunk'',
      sp_aggregate_id = str_int chunk_id, sp_task_name = ''app.tasks.send.process_chunk'',
      sp_queue = lane, sp_args = [Arg_int chunk_id],
      sp_dedup_key = ''chunk.ready:'' @ str_int chunk_id, sp_max_attempts = 12,
      sp_correlation_id = None\<rparr>"

definition enqueue_one_ready :: "string \<Rightarrow> db \<Rightarrow> int \<Rightarrow> db res" where
  "enqueue_one_ready lane db chunk_id =
     rbind (enqueue_outbox db (chunk_ready_spec chunk_id lane) 0 None) (\<lambda>(db, _).
       Inr (rearm_event db (''chunk.ready:'' @ str_int chunk_id) ''chunk.ready''))"

definition enqueue_chunk_ready :: "db \<Rightarrow> int list \<Rightarrow> string \<Rightarrow> db res" where
  "enqueue_chunk_ready db chunk_ids lane = foldM (enqueue_one_ready lane) db chunk_ids"

text \<open>The rows that a claim accepts.\<close>

definition claimable :: "db \<Rightarrow> int \<Rightarrow> sms_chunk \<Rightarrow> bool" where
  "claimable db expected_retry_count c \<longleftrightarrow> c_status c \<in> {C_pending, C_retrying}
     \<and> c_retry_count c = expected_retry_count \<and> callable_batch db (c_batch_id c)
     \<and> retry_due db c"

definition touch_batch :: "db \<Rightarrow> int \<Rightarrow> db" where
  "touch_batch db i = set_batches db (\<lambda>b. b_id b = i) (\<lambda>b. b\<lparr>b_updated_at := db_now db\<rparr>)"

definition mark_submitting :: "db \<Rightarrow> int \<Rightarrow> int \<Rightarrow> db \<times> bool" where
  "mark_submitting db chunk_id expected_retry_count =
     (case update_chunk db chunk_id (claimable db expected_retry_count)
             (\<lambda>c. c\<lparr>c_status := C_submitting, c_submitting_since := Some (db_now db),
                    c_retry_not_before := None\<rparr>) of
        (db, None) \<Rightarrow> (db, False)
      | (db, Some c) \<Rightarrow> (touch_batch db (c_batch_id c),
           count_rows (\<lambda>b. b_id b = c_batch_id c) (db_batches db) = 1))"

text \<open>\<open>_payload\<close> as far as a claim uses it: the chunk and its batch must exist, and the number of
  recipients that are not on the list of test recipients is a parameter.\<close>

definition payload_denied :: "store_env \<Rightarrow> db \<Rightarrow> int \<Rightarrow> int res" where
  "payload_denied env db chunk_id =
     (case find_chunk db chunk_id of
        None \<Rightarrow> Inl (OtherError ''NoResultFound'')
      | Some c \<Rightarrow> if find_batch db (c_batch_id c) = None then Inl (OtherError ''NoResultFound'')
                 else Inr (se_denied env db chunk_id))"

definition recipients_denied :: "store_env \<Rightarrow> db \<Rightarrow> int \<Rightarrow> bool res" where
  "recipients_denied env db chunk_id =
     (if se_vendor_live_test env
      then rbind (payload_denied env db chunk_id) (\<lambda>n. Inr (n \<noteq> 0)) else Inr False)"

definition claim_submission ::
  "store_env \<Rightarrow> db \<Rightarrow> int \<Rightarrow> int \<Rightarrow> int \<Rightarrow> bool \<Rightarrow> (db \<times> SubmissionClaim) res" where
  "claim_submission env db chunk_id expected_retry_count segments enforce_live_test_budget =
     (if segments < 1 then Inl (ValueError ''segments must be positive'')
      else if \<not> enforce_live_test_budget
      then let (db, claimed) = mark_submitting db chunk_id expected_retry_count
           in Inr (db, submission_claim (if claimed then S_CLAIMED else S_STALE))
      else rbind (recipients_denied env db chunk_id) (\<lambda>denied.
        if denied then Inr (db, submission_claim S_STALE)
        else case first_row (\<lambda>c. c_id c = chunk_id \<and> claimable db expected_retry_count c)
                    (db_chunks db) of
          None \<Rightarrow> Inr (db, submission_claim S_STALE)
        | Some c \<Rightarrow>
            if \<not> callable_batch db (c_batch_id c) then Inr (db, submission_claim S_STALE)
            else rbind (reserve_submission_budget db (se_clock env) chunk_id segments
                          (c_attempt_count c + 1)) (\<lambda>(db, budget).
              if sc_status budget \<noteq> S_CLAIMED then Inr (db, budget)
              else case update_chunk db chunk_id
                     (\<lambda>c. c_status c \<in> {C_pending, C_retrying}
                          \<and> c_retry_count c = expected_retry_count)
                     (\<lambda>c. c\<lparr>c_status := C_submitting, c_submitting_since := Some (db_now db),
                            c_retry_not_before := None,
                            c_attempt_count := c_attempt_count c + 1\<rparr>) of
                (db, None) \<Rightarrow> Inl (RuntimeError ''submission claim lost cas'')
              | (db, Some _) \<Rightarrow>
                  Inr (touch_batch db (c_batch_id c), submission_claim S_CLAIMED))))"

section \<open>Recording a result\<close>

definition mark_sent :: "db \<Rightarrow> int \<Rightarrow> db" where
  "mark_sent db chunk_id =
     update_messages db (\<lambda>m. m_chunk_id m = Some chunk_id \<and> m_status m = M_pending
                             \<and> NO_REPORT_EVIDENCE m) (\<lambda>m. m\<lparr>m_status := M_sent\<rparr>)"

definition mark_submitted :: "store_env \<Rightarrow> db \<Rightarrow> int \<Rightarrow> string \<Rightarrow> db res" where
  "mark_submitted env db chunk_id task_id =
     (case update_chunk db chunk_id is_submitting (\<lambda>c. c\<lparr>c_status := C_submitted,
             c_vendor_task_id := Some (se_pseudonym env task_id), c_submitted_at := Some (db_now db),
             c_submitting_since := None, c_retry_not_before := None\<rparr>) of
        (db, None) \<Rightarrow> Inr db
      | (db, Some _) \<Rightarrow> rbind (settle db chunk_id T_confirmed) (\<lambda>db. Inr (mark_sent db chunk_id)))"

definition count_messages :: "db \<Rightarrow> int \<Rightarrow> message_status list \<Rightarrow> int" where
  "count_messages db batch_id ss =
     int (count_rows (\<lambda>m. m_batch_id m = batch_id \<and> m_status m \<in> set ss) (db_messages db))"

definition aggregate_batch :: "db \<Rightarrow> int \<Rightarrow> sms_batch \<Rightarrow> sms_batch" where
  "aggregate_batch db batch_id b =
     (let active = count_messages db batch_id [M_pending, M_sent] in
      b\<lparr>b_delivered := count_messages db batch_id [M_delivered],
        b_failed := count_messages db batch_id [M_failed],
        b_unknown_cnt := count_messages db batch_id [M_unknown],
        b_active_count := Some active,
        b_status := (if b_status b = B_completed_unknown then B_completed_unknown
                     else if active = 0 then B_completed else b_status b),
        b_updated_at := db_now db\<rparr>)"

definition failable :: "int \<Rightarrow> sms_message \<Rightarrow> bool" where
  "failable chunk_id m \<longleftrightarrow> m_chunk_id m = Some chunk_id \<and> m_status m \<in> {M_pending, M_sent}
     \<and> NO_REPORT_EVIDENCE m"

definition finish_batch :: "db \<Rightarrow> int \<Rightarrow> db res" where
  "finish_batch db batch_id =
     (if count_rows (\<lambda>m. m_batch_id m = batch_id) (db_messages db) = 0
      then Inl (OtherError ''NoResultFound'')
      else let db = set_batches db (\<lambda>b. b_id b = batch_id) (aggregate_batch db batch_id) in
        case find_batch db batch_id of
          None \<Rightarrow> Inl (OtherError ''NoResultFound'')
        | Some b \<Rightarrow>
            if b_status b = B_completed
            then rbind (request_inflight_release_for_batch
                          (log_request db (Batch_finished batch_id)) batch_id ''batch-completed'')
                   (\<lambda>(db, _). Inr db)
            else Inr db)"

definition finalize_failed_messages :: "db \<Rightarrow> int \<Rightarrow> int \<Rightarrow> db res" where
  "finalize_failed_messages db chunk_id batch_id =
     (let n = count_rows (failable chunk_id) (db_messages db);
          db = update_messages db (failable chunk_id) (\<lambda>m. m\<lparr>m_status := M_failed\<rparr>)
      in if n = 0 then Inr (log_request db (Reevaluate_confirmed_unused batch_id))
         else rbind (finish_batch db batch_id) (\<lambda>db.
           Inr (log_request db (Reevaluate_confirmed_unused batch_id))))"

text \<open>The transition to \<open>failed\<close> with its settlement and message aggregation.\<close>

definition fail_submitting ::
  "db \<Rightarrow> int \<Rightarrow> (sms_chunk \<Rightarrow> sms_chunk) \<Rightarrow> (db \<times> bool) res" where
  "fail_submitting db chunk_id f =
     (case update_chunk db chunk_id is_submitting
             (\<lambda>c. (f c)\<lparr>c_status := C_failed, c_submitting_since := None,
                        c_retry_not_before := None\<rparr>) of
        (db, None) \<Rightarrow> Inr (db, False)
      | (db, Some c) \<Rightarrow>
          rbind (settle db chunk_id T_released) (\<lambda>db.
          rbind (finalize_failed_messages db chunk_id (c_batch_id c)) (\<lambda>db. Inr (db, True))))"

definition mark_failed :: "db \<Rightarrow> int \<Rightarrow> int \<Rightarrow> string \<Rightarrow> db res" where
  "mark_failed db chunk_id code message =
     rbind (fail_submitting db chunk_id
              (\<lambda>c. c\<lparr>c_vendor_code := Some code, c_vendor_msg := Some message\<rparr>))
       (\<lambda>(db, _). Inr db)"

definition PRE_SEND_REJECTABLE :: "chunk_status list" where
  "PRE_SEND_REJECTABLE = [C_pending, C_retrying, C_failover_pending]"

definition reject_disallowed_recipient :: "db \<Rightarrow> int \<Rightarrow> int \<Rightarrow> db res" where
  "reject_disallowed_recipient db chunk_id denied_count =
     (if denied_count < 1 then Inl (ValueError ''denied_count must be positive'')
      else case update_chunk db chunk_id
             (\<lambda>c. c_status c \<in> set PRE_SEND_REJECTABLE \<and> callable_batch db (c_batch_id c))
             (\<lambda>c. c\<lparr>c_status := C_failed, c_vendor_code := None,
                    c_vendor_msg := Some (''live-test recipient denied: count='' @ str_int denied_count),
                    c_submitting_since := None, c_retry_not_before := None\<rparr>) of
        (_, None) \<Rightarrow> Inr db
      | (db, Some c) \<Rightarrow> finalize_failed_messages db chunk_id (c_batch_id c))"

text \<open>The outer sum is the transaction, the inner one what happens after its commit.\<close>

definition defer_daily_limit ::
  "store_env \<Rightarrow> db \<Rightarrow> int \<Rightarrow> string \<Rightarrow> datetime \<Rightarrow> (db \<times> retry_message option res) res" where
  "defer_daily_limit env db chunk_id lane reset_at =
     (case update_chunk db chunk_id
             (\<lambda>c. c_status c \<in> set PRE_SEND_REJECTABLE \<and> callable_batch db (c_batch_id c))
             (\<lambda>c. c\<lparr>c_status := (if c_status c = C_failover_pending then C_failover_pending
                                 else C_retrying),
                    c_vendor_code := None, c_retry_not_before := Some reset_at\<rparr>) of
        (db, None) \<Rightarrow> Inr (db, Inr None)
      | (db, Some c) \<Rightarrow>
          (case find_batch db (c_batch_id c) of
             None \<Rightarrow> Inr (db, Inr None)
           | Some b \<Rightarrow>
               let actual_lane = lane_for (b_category b) in
               if actual_lane \<noteq> lane
               then Inr (db, Inl (RuntimeError ''chunk lane changed before daily-limit deferral''))
               else Inr (db, Inr (Some (chunk_id, actual_lane,
                      max 1 (ceil_seconds (reset_at - se_clock env)))))))"

definition mark_uncertain :: "db \<Rightarrow> int \<Rightarrow> db res" where
  "mark_uncertain db chunk_id =
     (case update_chunk db chunk_id is_submitting (\<lambda>c. c\<lparr>c_status := C_uncertain,
             c_uncertain_since := Some (case c_submitting_since c of Some t \<Rightarrow> t | None \<Rightarrow> db_now db),
             c_submitting_since := None, c_retry_not_before := None\<rparr>) of
        (db, None) \<Rightarrow> Inr db
      | (db, Some _) \<Rightarrow> settle db chunk_id T_uncertain)"

definition retry_chunk :: "db \<Rightarrow> int \<Rightarrow> int \<Rightarrow> sms_chunk \<Rightarrow> sms_chunk" where
  "retry_chunk db code delay c =
     c\<lparr>c_status := C_retrying, c_vendor_code := Some code, c_retry_count := c_retry_count c + 1,
       c_submitting_since := None, c_retry_not_before := Some (in_seconds db delay)\<rparr>"

definition schedule_retry ::
  "db \<Rightarrow> int \<Rightarrow> int \<Rightarrow> int \<Rightarrow> int \<Rightarrow> (db \<times> retry_message option) res" where
  "schedule_retry db chunk_id code expected_retry_count delay =
     (case update_chunk db chunk_id
             (\<lambda>c. is_submitting c \<and> c_retry_count c = expected_retry_count \<and> c_retry_count c < 5
                  \<and> find_batch db (c_batch_id c) \<noteq> None) (retry_chunk db code delay) of
        (db, None) \<Rightarrow> Inr (db, None)
      | (db, Some c) \<Rightarrow>
          (case find_batch db (c_batch_id c) of
             None \<Rightarrow> Inr (db, None)
           | Some b \<Rightarrow> rbind (settle db chunk_id T_released) (\<lambda>db.
               Inr (db, Some (chunk_id, lane_for (b_category b), delay)))))"

definition delay_chunk :: "db \<Rightarrow> int \<Rightarrow> int \<Rightarrow> int \<Rightarrow> (db \<times> retry_message option) res" where
  "delay_chunk db chunk_id code delay =
     (case update_chunk db chunk_id
             (\<lambda>c. is_submitting c \<and> find_batch db (c_batch_id c) \<noteq> None
                  \<and> c_retry_count c < DELAYED_RETRY_LIMIT) (retry_chunk db code delay) of
        (db, Some c) \<Rightarrow>
          (case find_batch db (c_batch_id c) of
             None \<Rightarrow> Inr (db, None)
           | Some b \<Rightarrow> rbind (settle db chunk_id T_released) (\<lambda>db.
               Inr (db, Some (chunk_id, lane_for (b_category b), delay))))
      | (_, None) \<Rightarrow>
          rbind (fail_submitting db chunk_id (\<lambda>c. c\<lparr>c_vendor_code := Some code,
                   c_vendor_msg := Some DELAYED_RETRY_EXHAUSTED\<rparr>))
            (\<lambda>(db, _). Inr (db, None)))"

definition balance_blocked_chunk :: "db \<Rightarrow> int \<Rightarrow> int \<Rightarrow> db res" where
  "balance_blocked_chunk db batch_id chunk_id =
     (case update_chunk db chunk_id (\<lambda>c. c_batch_id c = batch_id \<and> is_submitting c)
             (\<lambda>c. c\<lparr>c_status := C_retrying, c_vendor_code := Some 999,
                    c_submitting_since := None, c_retry_not_before := Some (db_now db)\<rparr>) of
        (db, None) \<Rightarrow> Inr db
      | (db, Some _) \<Rightarrow>
          settle (set_batches db (\<lambda>b. b_id b = batch_id) (\<lambda>b. b\<lparr>b_status := B_balance_blocked\<rparr>))
            chunk_id T_released)"

definition pause_blocked :: "db \<Rightarrow> int \<Rightarrow> int \<Rightarrow> db res" where
  "pause_blocked db chunk_id code =
     (case update_chunk db chunk_id is_submitting
             (\<lambda>c. c\<lparr>c_status := C_retrying, c_vendor_code := Some code,
                    c_submitting_since := None, c_retry_not_before := Some (db_now db)\<rparr>) of
        (db, None) \<Rightarrow> Inr db
      | (db, Some _) \<Rightarrow> settle db chunk_id T_released)"

end
