(* ===== verification/Send_Attempt.thy ===== *)
theory Send_Attempt
  imports Send_Store Send_Reports "HOL-Library.Product_Lexorder"
begin

text \<open>
  The provider attempts of a chunk (src/backend/app/tasks/send_repository_attempt.py,
  send_repository_failover.py and src/backend/app/services/send_locks.py): beginning an invocation,
  recording its result together with the chunk in one transaction, and claiming the next provider
  after a safe rejection. The unique keys of \<open>sms_vendor_attempt\<close> are part of the model, a statement
  that breaks one raises.
\<close>

section \<open>The attempts of a chunk\<close>

text \<open>The rows of the partial unique index \<open>uk_sms_vendor_attempt_irreversible\<close>.\<close>

definition irreversible :: "sms_vendor_attempt \<Rightarrow> bool" where
  "irreversible a \<longleftrightarrow> a_outcome a \<in> {A_submitted, A_uncertain, A_invoking}"

definition attempt_keys :: "sms_vendor_attempt list \<Rightarrow> bool" where
  "attempt_keys rows \<longleftrightarrow> distinct (map (\<lambda>a. (a_chunk_id a, a_generation a)) rows)
     \<and> distinct (map a_chunk_id (filter irreversible rows))"

definition write_attempts :: "db \<Rightarrow> sms_vendor_attempt list \<Rightarrow> db res" where
  "write_attempts db rows =
     (if attempt_keys rows then Inr (db\<lparr>db_attempts := rows\<rparr>)
      else Inl (IntegrityError ''sms_vendor_attempt''))"

definition update_attempts ::
  "db \<Rightarrow> (sms_vendor_attempt \<Rightarrow> bool) \<Rightarrow> (sms_vendor_attempt \<Rightarrow> sms_vendor_attempt) \<Rightarrow> db res" where
  "update_attempts db p f = write_attempts db (update_rows p f (db_attempts db))"

definition insert_attempt ::
  "db \<Rightarrow> int \<Rightarrow> string \<Rightarrow> int \<Rightarrow> attempt_outcome \<Rightarrow> string \<Rightarrow> string option \<Rightarrow> bool \<Rightarrow> int option
     \<Rightarrow> datetime option \<Rightarrow> (db \<times> sms_vendor_attempt) res" where
  "insert_attempt db chunk_id vendor_id generation outcome adapter_id reason safe code started =
     (let row = \<lparr>a_id = serial (map a_id (db_attempts db)), a_chunk_id = chunk_id,
                 a_vendor_id = vendor_id, a_generation = generation, a_outcome = outcome,
                 a_adapter_id = adapter_id, a_routing_reason = reason, a_safe_to_failover = safe,
                 a_vendor_code = code, a_invoke_started_at = started\<rparr>
      in if \<not> VENDOR_ID_PATTERN vendor_id \<or> \<not> VENDOR_ID_PATTERN adapter_id \<or> generation < 1
            \<or> find_chunk db chunk_id = None
         then Inl (IntegrityError ''sms_vendor_attempt'')
         else rbind (write_attempts db (db_attempts db @ [row])) (\<lambda>db. Inr (db, row)))"

definition attempts_of :: "db \<Rightarrow> int \<Rightarrow> sms_vendor_attempt list" where
  "attempts_of db chunk_id =
     sort_key (\<lambda>a. (a_generation a, a_id a)) (filter (\<lambda>a. a_chunk_id a = chunk_id) (db_attempts db))"

definition vendor_attempt :: "sms_vendor_attempt \<Rightarrow> VendorAttempt" where
  "vendor_attempt a = \<lparr>va_vendor_id = a_vendor_id a, va_generation = a_generation a,
     va_outcome = a_outcome a, va_safe_to_failover = a_safe_to_failover a,
     va_vendor_code = a_vendor_code a\<rparr>"

record LockedSendContext =
  lc_chunk :: sms_chunk
  lc_batch :: sms_batch
  lc_attempts :: "sms_vendor_attempt list"

definition lock_send_context :: "db \<Rightarrow> int \<Rightarrow> LockedSendContext option" where
  "lock_send_context db chunk_id =
     (case find_chunk db chunk_id of
        None \<Rightarrow> None
      | Some c \<Rightarrow> (case find_batch db (c_batch_id c) of
          None \<Rightarrow> None
        | Some b \<Rightarrow> Some \<lparr>lc_chunk = c, lc_batch = b, lc_attempts = attempts_of db chunk_id\<rparr>))"

definition list_vendor_attempts :: "db \<Rightarrow> int \<Rightarrow> VendorAttempt list" where
  "list_vendor_attempts db chunk_id = map vendor_attempt
     (sort_key a_generation (filter (\<lambda>a. a_chunk_id a = chunk_id) (db_attempts db)))"

definition load_attempts_for_update :: "db \<Rightarrow> int \<Rightarrow> VendorAttempt list" where
  "load_attempts_for_update db chunk_id = map vendor_attempt (attempts_of db chunk_id)"

section \<open>Beginning an invocation\<close>

record VendorAttemptRow =
  ar_id :: int
  ar_generation :: int
  ar_vendor_id :: string
  ar_outcome :: attempt_outcome

definition attempt_row :: "sms_vendor_attempt \<Rightarrow> VendorAttemptRow" where
  "attempt_row a = \<lparr>ar_id = a_id a, ar_generation = a_generation a, ar_vendor_id = a_vendor_id a,
     ar_outcome = a_outcome a\<rparr>"

definition set_route :: "db \<Rightarrow> int \<Rightarrow> string \<Rightarrow> int \<Rightarrow> db" where
  "set_route db chunk_id vendor_id generation =
     set_chunks db (\<lambda>c. c_id c = chunk_id)
       (\<lambda>c. c\<lparr>c_selected_vendor := vendor_id, c_route_generation := generation\<rparr>)"

definition begin_vendor_invoke ::
  "db \<Rightarrow> int \<Rightarrow> string \<Rightarrow> string \<Rightarrow> string \<Rightarrow> (db \<times> VendorAttemptRow) res" where
  "begin_vendor_invoke db chunk_id vendor_id adapter_id reason =
     (case lock_send_context db chunk_id of
        None \<Rightarrow> Inl (RuntimeError ''vendor attempt chunk missing'')
      | Some context \<Rightarrow>
          if c_status (lc_chunk context) \<in> set ISOLATING_CHUNK_STATES
          then Inl (RuntimeError ''vendor attempt blocked by terminal chunk'')
          else if c_status (lc_chunk context) \<notin> set FIRST_INVOKE_CHUNK_STATES
          then Inl (RuntimeError ''vendor attempt not first-invoke'')
          else if list_ex (\<lambda>a. a_outcome a \<in> {A_submitted, A_uncertain, A_invoking, A_inconsistent})
                    (lc_attempts context)
          then Inl (RuntimeError ''vendor attempt already irreversible'')
          else let next_generation = fold max (map a_generation (lc_attempts context)) 0 + 1 in
            rbind (insert_attempt db chunk_id vendor_id next_generation A_invoking adapter_id
                     (Some (take 64 reason)) False None (Some (db_now db))) (\<lambda>(db, inserted).
              Inr (set_route db chunk_id vendor_id next_generation, attempt_row inserted)))"

section \<open>Recording a result\<close>

record finalize_args =
  fa_result :: attempt_outcome
  fa_vendor_task_id :: "string option"
  fa_vendor_code :: "int option"
  fa_safe_to_failover :: bool
  fa_retry_delay_s :: "int option"
  fa_expected_retry_count :: "int option"
  fa_batch_id :: "int option"
  fa_balance_blocked :: bool

definition finalize_defaults :: "attempt_outcome \<Rightarrow> finalize_args" where
  "finalize_defaults result =
     \<lparr>fa_result = result, fa_vendor_task_id = None, fa_vendor_code = None,
      fa_safe_to_failover = False, fa_retry_delay_s = None, fa_expected_retry_count = None,
      fa_batch_id = None, fa_balance_blocked = False\<rparr>"

definition FINALIZE_RESULTS :: "attempt_outcome list" where
  "FINALIZE_RESULTS = [A_submitted, A_uncertain, A_retry_scheduled, A_delayed, A_paused,
     A_rejected, A_failed, A_cancelled_before_invoke]"

text \<open>\<open>_report_from_locked_state\<close>; \<open>vendor_msg\<close> is absent from rows that do not select it.\<close>

definition report_from_locked_state ::
  "attempt_outcome \<Rightarrow> sms_chunk \<Rightarrow> string option \<Rightarrow> attempt_outcome \<Rightarrow> FinalizeReport" where
  "report_from_locked_state actual chunk vendor_msg requested =
     (let chunk_status = c_status chunk;
          requested = (if requested = A_delayed \<and> actual = A_failed \<and> chunk_status = C_failed
                          \<and> vendor_msg = Some DELAYED_RETRY_EXHAUSTED then actual else requested)
      in \<lparr>fr_kind = classify_finalize_conflict actual chunk_status requested,
          fr_result = actual,
          fr_next_action = (if chunk_status = C_failed then Some N_failed
                            else if chunk_status = C_failover_pending then Some N_failover_pending
                            else if chunk_status = C_retrying then Some N_retrying else None),
          fr_next_vendor = (if chunk_status = C_failover_pending then c_next_vendor chunk else None),
          fr_route_generation = Some (c_route_generation chunk),
          fr_previous_attempt_id = c_failover_from chunk,
          fr_route_policy_version = Some (c_policy_version chunk),
          fr_chunk_status = Some chunk_status\<rparr>)"

text \<open>What a branch of the transaction did: the compare-and-set of the chunk missed, or it was
  applied, with the message to publish and the next action.\<close>

datatype applied = Lost_cas | Applied db "retry_message option" "PersistedNextAction option"

definition cas_then ::
  "db \<times> sms_chunk option \<Rightarrow> (db \<Rightarrow> sms_chunk \<Rightarrow> applied res) \<Rightarrow> applied res" where
  "cas_then r k = (case r of (_, None) \<Rightarrow> Inr Lost_cas | (db, Some c) \<Rightarrow> k db c)"

definition apply_submitted :: "store_env \<Rightarrow> db \<Rightarrow> int \<Rightarrow> string option \<Rightarrow> applied res" where
  "apply_submitted env db chunk_id vendor_task_id =
     cas_then (update_chunk db chunk_id is_submitting (\<lambda>c. c\<lparr>c_status := C_submitted,
         c_vendor_task_id := (case vendor_task_id of
            None \<Rightarrow> None | Some t \<Rightarrow> if t = [] then None else Some (se_pseudonym env t)),
         c_submitted_at := Some (db_now db), c_submitting_since := None,
         c_retry_not_before := None\<rparr>))
       (\<lambda>db _. rbind (settle db chunk_id T_confirmed) (\<lambda>db.
          Inr (Applied (mark_sent db chunk_id) None None)))"

definition apply_uncertain :: "db \<Rightarrow> int \<Rightarrow> applied res" where
  "apply_uncertain db chunk_id =
     cas_then (update_chunk db chunk_id is_submitting (\<lambda>c. c\<lparr>c_status := C_uncertain,
         c_uncertain_since := Some (case c_submitting_since c of Some t \<Rightarrow> t | None \<Rightarrow> db_now db),
         c_submitting_since := None, c_retry_not_before := None\<rparr>))
       (\<lambda>db _. rbind (settle db chunk_id T_uncertain) (\<lambda>db. Inr (Applied db None None)))"

definition retry_row :: "db \<Rightarrow> int option \<Rightarrow> int \<Rightarrow> sms_chunk \<Rightarrow> sms_chunk" where
  "retry_row db code delay c =
     c\<lparr>c_status := C_retrying, c_vendor_code := code, c_retry_count := c_retry_count c + 1,
       c_submitting_since := None, c_retry_not_before := Some (in_seconds db delay)\<rparr>"

definition apply_retry :: "db \<Rightarrow> int \<Rightarrow> finalize_args \<Rightarrow> applied res" where
  "apply_retry db chunk_id a =
     (let delay = (case fa_retry_delay_s a of None \<Rightarrow> 1 | Some d \<Rightarrow> if d = 0 then 1 else d);
          allowed = (\<lambda>c. if fa_result a = A_retry_scheduled
                         then Some (c_retry_count c) = fa_expected_retry_count a
                              \<and> c_retry_count c < 5
                         else c_retry_count c < DELAYED_RETRY_LIMIT)
      in cas_then (update_chunk db chunk_id
             (\<lambda>c. is_submitting c \<and> allowed c \<and> find_batch db (c_batch_id c) \<noteq> None)
             (retry_row db (fa_vendor_code a) delay))
           (\<lambda>db c. case find_batch db (c_batch_id c) of
              None \<Rightarrow> Inr Lost_cas
            | Some b \<Rightarrow> rbind (settle db chunk_id T_released) (\<lambda>db.
                Inr (Applied db (Some (chunk_id, lane_for (b_category b), delay)) None))))"

definition apply_paused :: "db \<Rightarrow> int \<Rightarrow> finalize_args \<Rightarrow> applied res" where
  "apply_paused db chunk_id a =
     cas_then (update_chunk db chunk_id is_submitting (\<lambda>c. c\<lparr>c_status := C_retrying,
         c_vendor_code := (if fa_balance_blocked a then Some 999 else fa_vendor_code a),
         c_submitting_since := None, c_retry_not_before := Some (db_now db)\<rparr>))
       (\<lambda>db c. rbind (settle db chunk_id T_released) (\<lambda>db.
          if fa_balance_blocked a
          then let batch_id = (case fa_batch_id a of Some i \<Rightarrow> if i = 0 then c_batch_id c else i
                               | None \<Rightarrow> c_batch_id c) in
            Inr (Applied (set_batches db (\<lambda>b. b_id b = batch_id)
                   (\<lambda>b. b\<lparr>b_status := B_balance_blocked\<rparr>)) None None)
          else Inr (Applied db None None)))"

text \<open>\<open>a or b\<close> on integers, and the category of a batch with its default.\<close>

definition int_or :: "int \<Rightarrow> int \<Rightarrow> int" where
  "int_or a b = (if a \<noteq> 0 then a else b)"

definition category_or_notice :: "string \<Rightarrow> string" where
  "category_or_notice c = (if c = [] then ''notice'' else c)"

definition failover_row ::
  "db \<Rightarrow> string \<Rightarrow> int \<Rightarrow> int \<Rightarrow> int \<Rightarrow> sms_chunk \<Rightarrow> sms_chunk" where
  "failover_row db next_vendor generation policy_version attempt_id c =
     c\<lparr>c_status := C_failover_pending, c_selected_vendor := next_vendor,
       c_next_vendor := Some next_vendor, c_route_generation := generation,
       c_policy_version := policy_version, c_failover_from := Some attempt_id,
       c_submitting_since := None, c_retry_not_before := Some (db_now db)\<rparr>"

definition next_action ::
  "store_env \<Rightarrow> db \<Rightarrow> LockedSendContext \<Rightarrow> int \<Rightarrow> int \<Rightarrow> attempt_outcome \<Rightarrow> bool
     \<Rightarrow> PersistedNextAction res" where
  "next_action env db context attempt_id expected_generation result safe =
     (let chunk = lc_chunk context; batch = lc_batch context;
          policy_version = max 1 (int_or (b_policy_version batch) (int_or (c_policy_version chunk) 1))
      in if result = A_failed \<or> \<not> safe
         then Inr \<lparr>pn_action = N_failed, pn_next_vendor = None,
                   pn_route_generation = Some expected_generation,
                   pn_previous_attempt_id = Some attempt_id,
                   pn_route_policy_version = policy_version, pn_reason = ''hard_fail''\<rparr>
         else next_action_after_safe_reject (load_attempts_for_update db (c_id chunk))
                (category_or_notice (b_category batch)) attempt_id (se_registry env)
                (Some (se_adapter_ids env)) policy_version)"

definition apply_reject_or_fail ::
  "store_env \<Rightarrow> db \<Rightarrow> LockedSendContext \<Rightarrow> int \<Rightarrow> int \<Rightarrow> finalize_args \<Rightarrow> string option \<Rightarrow> applied res" where
  "apply_reject_or_fail env db context attempt_id expected_generation a failure_reason =
     (let chunk_id = c_id (lc_chunk context);
          category = category_or_notice (b_category (lc_batch context)) in
      rbind (next_action env db context attempt_id expected_generation (fa_result a)
               (fa_safe_to_failover a)) (\<lambda>persisted.
        if pn_action persisted = N_failover_pending
        then (case pn_next_vendor persisted of
            None \<Rightarrow> Inl (IntegrityError ''sms_chunk'')
          | Some v \<Rightarrow>
              cas_then (update_chunk db chunk_id is_submitting (\<lambda>c.
                  (failover_row db v expected_generation (pn_route_policy_version persisted)
                     attempt_id c)\<lparr>c_vendor_code := fa_vendor_code a,
                       c_vendor_msg := Some ''safe_rejected_failover_pending''\<rparr>))
                (\<lambda>db _. rbind (settle db chunk_id T_released) (\<lambda>db.
                   rbind (enqueue_chunk_ready db [chunk_id] (lane_for category)) (\<lambda>db.
                     Inr (Applied db None (Some persisted))))))
        else cas_then (update_chunk db chunk_id is_submitting (\<lambda>c. c\<lparr>c_status := C_failed,
                 c_vendor_code := fa_vendor_code a,
                 c_vendor_msg := Some (case failure_reason of
                    Some r \<Rightarrow> r | None \<Rightarrow> (if fa_result a = A_failed then ''failed'' else ''rejected'')),
                 c_submitting_since := None, c_retry_not_before := None, c_next_vendor := None,
                 c_failover_from := None\<rparr>))
               (\<lambda>db c. rbind (settle db chunk_id T_released) (\<lambda>db.
                  rbind (finalize_failed_messages db chunk_id (c_batch_id c)) (\<lambda>db.
                    Inr (Applied db None (Some persisted)))))))"

definition apply_result ::
  "store_env \<Rightarrow> db \<Rightarrow> LockedSendContext \<Rightarrow> int \<Rightarrow> int \<Rightarrow> finalize_args \<Rightarrow> bool \<Rightarrow> applied res" where
  "apply_result env db context attempt_id expected_generation a ran_out =
     (let chunk_id = c_id (lc_chunk context) in
      if fa_result a = A_submitted then apply_submitted env db chunk_id (fa_vendor_task_id a)
      else if fa_result a = A_uncertain then apply_uncertain db chunk_id
      else if fa_result a \<in> {A_retry_scheduled, A_delayed} then apply_retry db chunk_id a
      else if fa_result a = A_paused then apply_paused db chunk_id a
      else if fa_result a \<in> {A_rejected, A_failed}
      then apply_reject_or_fail env db context attempt_id expected_generation a
             (if ran_out then Some DELAYED_RETRY_EXHAUSTED else None)
      else Inr (Applied db None None))"

definition applied_report :: "attempt_outcome \<Rightarrow> PersistedNextAction option \<Rightarrow> FinalizeReport" where
  "applied_report result persisted =
     (case persisted of
        None \<Rightarrow> finalize_report K_APPLIED result
      | Some p \<Rightarrow>
          \<lparr>fr_kind = K_APPLIED, fr_result = result, fr_next_action = Some (pn_action p),
           fr_next_vendor = pn_next_vendor p, fr_route_generation = pn_route_generation p,
           fr_previous_attempt_id = pn_previous_attempt_id p,
           fr_route_policy_version = Some (pn_route_policy_version p),
           fr_chunk_status = Some (if pn_action p = N_failover_pending then C_failover_pending
                                   else C_failed)\<rparr>)"

text \<open>\<open>result == "delayed"\<close> on a chunk without retries left becomes a failure.\<close>

definition retry_exhausted :: "finalize_args \<Rightarrow> sms_chunk \<Rightarrow> bool" where
  "retry_exhausted a chunk \<longleftrightarrow> fa_result a = A_delayed \<and> DELAYED_RETRY_LIMIT \<le> c_retry_count chunk"

definition effective_args :: "finalize_args \<Rightarrow> sms_chunk \<Rightarrow> finalize_args" where
  "effective_args a chunk =
     (if retry_exhausted a chunk then a\<lparr>fa_result := A_failed, fa_safe_to_failover := False\<rparr> else a)"

definition close_attempt :: "db \<Rightarrow> int \<Rightarrow> finalize_args \<Rightarrow> db res" where
  "close_attempt db attempt_id a =
     update_attempts db (\<lambda>r. a_id r = attempt_id \<and> a_outcome r = A_invoking)
       (\<lambda>r. r\<lparr>a_outcome := fa_result a, a_safe_to_failover := fa_safe_to_failover a,
              a_vendor_code := fa_vendor_code a\<rparr>)"

text \<open>The end of \<open>_finalize_vendor_attempt_once\<close>, on a locked attempt that is still \<open>invoking\<close>, so
  the compare-and-set that closes it hits. A missed compare-and-set of the chunk rolls everything
  back and is reported as \<open>LOST_CAS\<close>.\<close>

definition finalize_open ::
  "store_env \<Rightarrow> db \<Rightarrow> LockedSendContext \<Rightarrow> int \<Rightarrow> int \<Rightarrow> finalize_args
     \<Rightarrow> (db \<times> FinalizeReport \<times> retry_message option) res" where
  "finalize_open env db context attempt_id expected_generation a =
     (let ran_out = retry_exhausted a (lc_chunk context);
          e = effective_args a (lc_chunk context)
      in rbind (close_attempt db attempt_id e) (\<lambda>db1.
         rbind (apply_result env db1 context attempt_id expected_generation e ran_out)
           (\<lambda>r. case r of
              Lost_cas \<Rightarrow> Inr (db, finalize_report K_LOST_CAS (fa_result e), None)
            | Applied db2 enqueue persisted \<Rightarrow>
                Inr (db2, applied_report (fa_result e) persisted, enqueue))))"

definition finalize_vendor_attempt_once ::
  "store_env \<Rightarrow> db \<Rightarrow> int \<Rightarrow> int \<Rightarrow> int \<Rightarrow> finalize_args
     \<Rightarrow> (db \<times> FinalizeReport \<times> retry_message option) res" where
  "finalize_vendor_attempt_once env db attempt_id chunk_id expected_generation a =
     (let corrupt = Inr (db, finalize_report K_STATE_CORRUPTION (fa_result a), None) in
      if fa_result a \<notin> set FINALIZE_RESULTS
      then Inl (ValueError ''unsupported vendor finalize result'')
      else case lock_send_context db chunk_id of
        None \<Rightarrow> corrupt
      | Some context \<Rightarrow>
          let chunk = lc_chunk context in
          if (case fa_batch_id a of None \<Rightarrow> False | Some i \<Rightarrow> i \<noteq> c_batch_id chunk) then corrupt
          else case first_row (\<lambda>r. a_id r = attempt_id) (lc_attempts context) of
            None \<Rightarrow> corrupt
          | Some attempt \<Rightarrow>
              if a_generation attempt \<noteq> expected_generation then corrupt
              else if a_outcome attempt \<noteq> A_invoking
              then Inr (db, report_from_locked_state (a_outcome attempt) chunk (c_vendor_msg chunk)
                          (fa_result a), None)
              else if c_route_generation chunk \<noteq> expected_generation then corrupt
              else finalize_open env db context attempt_id expected_generation a)"

definition FINALIZE_DB_ATTEMPTS :: nat where
  "FINALIZE_DB_ATTEMPTS = 3"

text \<open>The loop around it. \<open>deadlock k\<close> says whether the database aborts the k-th transaction; an
  aborted transaction leaves no trace.\<close>

fun finalize_loop ::
  "nat \<Rightarrow> nat \<Rightarrow> (nat \<Rightarrow> bool) \<Rightarrow> ('a res) \<Rightarrow> 'a res" where
  "finalize_loop 0 ordinal deadlock once = Inl (OtherError ''RolledBackSendDeadlock'')"
| "finalize_loop (Suc n) ordinal deadlock once =
     (if deadlock ordinal then finalize_loop n (Suc ordinal) deadlock once else once)"

definition finalize_vendor_attempt ::
  "(nat \<Rightarrow> bool) \<Rightarrow> store_env \<Rightarrow> db \<Rightarrow> int \<Rightarrow> int \<Rightarrow> int \<Rightarrow> finalize_args
     \<Rightarrow> (db \<times> FinalizeReport \<times> retry_message option) res" where
  "finalize_vendor_attempt deadlock env db attempt_id chunk_id expected_generation a =
     rbind (finalize_loop FINALIZE_DB_ATTEMPTS 1 deadlock
              (finalize_vendor_attempt_once env db attempt_id chunk_id expected_generation a))
       (\<lambda>(db, report, enqueue).
          Inr (db, report, if fr_kind report = K_APPLIED then enqueue else None))"

definition complete_vendor_attempt ::
  "db \<Rightarrow> int \<Rightarrow> attempt_outcome \<Rightarrow> bool \<Rightarrow> int option \<Rightarrow> (db \<times> bool) res" where
  "complete_vendor_attempt db attempt_id outcome safe code =
     rbind (update_attempts db (\<lambda>r. a_id r = attempt_id \<and> a_outcome r = A_invoking)
              (\<lambda>r. r\<lparr>a_outcome := outcome, a_safe_to_failover := safe, a_vendor_code := code\<rparr>))
       (\<lambda>db'. Inr (db', list_ex (\<lambda>r. a_id r = attempt_id \<and> a_outcome r = A_invoking)
                          (db_attempts db)))"

definition record_vendor_attempt ::
  "db \<Rightarrow> int \<Rightarrow> string \<Rightarrow> int \<Rightarrow> attempt_outcome \<Rightarrow> bool \<Rightarrow> int option \<Rightarrow> db res" where
  "record_vendor_attempt db chunk_id vendor_id generation outcome safe code =
     rbind (insert_attempt db chunk_id vendor_id generation outcome ''zhihui'' None safe code None)
       (\<lambda>(db, _). Inr (set_route db chunk_id vendor_id generation))"

definition load_authoritative_next_action ::
  "db \<Rightarrow> int \<Rightarrow> int \<Rightarrow> int \<Rightarrow> FinalizeReport option" where
  "load_authoritative_next_action db chunk_id attempt_id expected_generation =
     (case first_row (\<lambda>r. a_id r = attempt_id \<and> a_chunk_id r = chunk_id
                          \<and> a_generation r = expected_generation) (db_attempts db) of
        None \<Rightarrow> None
      | Some a \<Rightarrow> (case find_chunk db (a_chunk_id a) of
          None \<Rightarrow> None
        | Some c \<Rightarrow> Some (report_from_locked_state (a_outcome a) c None (a_outcome a))))"

section \<open>Claiming the next provider\<close>

text \<open>\<open>send_db_reason\<close> of send_db_errors.py on the exceptions of the model.\<close>

fun send_db_reason :: "exn \<Rightarrow> string" where
  "send_db_reason SendCasLost = ''cas_lost''"
| "send_db_reason e = ''unexpected''"

definition claim_with ::
  "InvokeClaimKind \<Rightarrow> sms_vendor_attempt \<Rightarrow> int \<Rightarrow> string \<Rightarrow> InvokeClaim" where
  "claim_with kind a policy_version reason =
     \<lparr>ic_kind = kind,
      ic_authorization = Some \<lparr>ia_attempt_id = a_id a, ia_generation = a_generation a,
        ia_vendor_id = a_vendor_id a, ia_adapter_id = a_vendor_id a,
        ia_route_policy_version = policy_version\<rparr>,
      ic_reason = reason, ic_reset_at = None\<rparr>"

record claim_args =
  cl_expected_route_generation :: int
  cl_previous_attempt_id :: int
  cl_expected_next_vendor :: string
  cl_expected_route_policy_version :: int
  cl_segments :: int
  cl_enforce_live_test_budget :: bool

definition claim_facts_of :: "LockedSendContext \<Rightarrow> claim_args \<Rightarrow> claim_facts" where
  "claim_facts_of context a =
     (let chunk = lc_chunk context; history = lc_attempts context;
          previous = first_row (\<lambda>r. a_id r = cl_previous_attempt_id a) history
      in \<lparr>cf_chunk_status = c_status chunk, cf_batch_status = b_status (lc_batch context),
          cf_expected_route_generation = cl_expected_route_generation a,
          cf_actual_route_generation = c_route_generation chunk,
          cf_previous_attempt = map_option vendor_attempt previous,
          cf_previous_attempt_chunk_id = map_option a_chunk_id previous,
          cf_chunk_id = c_id chunk, cf_expected_next_vendor = cl_expected_next_vendor a,
          cf_persisted_next_vendor = c_next_vendor chunk,
          cf_expected_route_policy_version = cl_expected_route_policy_version a,
          cf_actual_route_policy_version = c_policy_version chunk, cf_retry_due = True,
          cf_blocking_outcomes = map a_outcome history,
          cf_category = category_or_notice (b_category (lc_batch context))\<rparr>)"

text \<open>The budget of a claim; \<open>Inr\<close> of a claim is an early return.\<close>

definition claim_budget ::
  "store_env \<Rightarrow> db \<Rightarrow> sms_chunk \<Rightarrow> claim_args \<Rightarrow> (db \<times> InvokeClaim option) res" where
  "claim_budget env db chunk a =
     (if cl_enforce_live_test_budget a
      then rbind (reserve_submission_budget db (se_clock env) (c_id chunk) (cl_segments a)
                    (c_attempt_count chunk + 1)) (\<lambda>(db, budget).
             Inr (db, if sc_status budget = S_CLAIMED then None
                      else Some ((claim_denied ''daily_limit'')\<lparr>ic_reset_at := sc_reset_at budget\<rparr>)))
      else Inr (db, None))"

definition authorize_next ::
  "db \<Rightarrow> sms_chunk \<Rightarrow> claim_args \<Rightarrow> string \<Rightarrow> (db \<times> InvokeClaim) res" where
  "authorize_next db chunk a expected_next =
     (let next_generation = cl_expected_route_generation a + 1 in
      rbind (insert_attempt db (c_id chunk) expected_next next_generation A_invoking expected_next
               (Some ''safe_failover'') False None (Some (db_now db))) (\<lambda>(db, inserted).
        case update_chunk db (c_id chunk)
               (\<lambda>c. c_status c = C_failover_pending
                    \<and> c_route_generation c = cl_expected_route_generation a
                    \<and> c_next_vendor c = Some expected_next)
               (\<lambda>c. c\<lparr>c_status := C_submitting,
                      c_attempt_count := c_attempt_count c
                        + (if cl_enforce_live_test_budget a then 1 else 0),
                      c_selected_vendor := expected_next, c_route_generation := next_generation,
                      c_submitting_since := Some (db_now db), c_retry_not_before := None\<rparr>) of
          (_, None) \<Rightarrow> Inl SendCasLost
        | (db, Some _) \<Rightarrow> Inr (db, claim_with IC_authorized inserted
                                     (cl_expected_route_policy_version a) ''authorized'')))"

text \<open>The transaction of \<open>claim_next_vendor_invoke\<close> on the locked context.\<close>

definition claim_next_on ::
  "store_env \<Rightarrow> db \<Rightarrow> LockedSendContext \<Rightarrow> claim_args \<Rightarrow> string \<Rightarrow> (db \<times> InvokeClaim) res" where
  "claim_next_on env db context a expected_next =
     (let chunk = lc_chunk context;
          invoking = first_row (\<lambda>r. a_outcome r = A_invoking) (lc_attempts context);
          handled = already_handled_reason (c_status chunk) (map_option a_vendor_id invoking)
            expected_next (map_option a_generation invoking) (cl_expected_route_generation a)
      in case (handled, invoking) of
           (Some reason, Some row) \<Rightarrow>
             Inr (db, claim_with IC_already_handled row (cl_expected_route_policy_version a) reason)
         | _ \<Rightarrow>
             rbind (claim_denied_reason (claim_facts_of context a) (se_registry env)
                      (Some (se_adapter_ids env))) (\<lambda>denied.
               case denied of
                 Some reason \<Rightarrow> Inr (db, claim_denied reason)
               | None \<Rightarrow>
                   if \<not> retry_due db chunk then Inr (db, claim_denied ''retry_not_due'')
                   else rbind (claim_budget env db chunk a) (\<lambda>(db, stop).
                     case stop of
                       Some claim \<Rightarrow> Inr (db, claim)
                     | None \<Rightarrow> authorize_next db chunk a expected_next)))"

definition claim_transaction ::
  "store_env \<Rightarrow> db \<Rightarrow> int \<Rightarrow> claim_args \<Rightarrow> string \<Rightarrow> (db \<times> InvokeClaim) res" where
  "claim_transaction env db chunk_id a expected_next =
     (case lock_send_context db chunk_id of
        None \<Rightarrow> Inr (db, claim_denied ''chunk_missing'')
      | Some context \<Rightarrow>
          rbind (recipients_denied env db chunk_id) (\<lambda>denied.
            if denied then Inr (db, claim_denied ''recipient_denied'')
            else claim_next_on env db context a expected_next))"

definition claim_next_vendor_invoke ::
  "store_env \<Rightarrow> db \<Rightarrow> int \<Rightarrow> claim_args \<Rightarrow> (db \<times> InvokeClaim) res" where
  "claim_next_vendor_invoke env db chunk_id a =
     rbind (validate_vendor_id (cl_expected_next_vendor a)) (\<lambda>expected_next.
       case claim_transaction env db chunk_id a expected_next of
         Inl e \<Rightarrow> Inr (db, claim_denied (send_db_reason e))
       | Inr r \<Rightarrow> Inr r)"

section \<open>Repairing old rows\<close>

definition newest_attempt :: "db \<Rightarrow> int \<Rightarrow> sms_vendor_attempt \<Rightarrow> bool" where
  "newest_attempt db chunk_id a \<longleftrightarrow> a_chunk_id a = chunk_id
     \<and> list_all (\<lambda>x. a_chunk_id x = chunk_id \<longrightarrow> a_generation x \<le> a_generation a) (db_attempts db)"

definition legacy_candidates :: "db \<Rightarrow> nat \<Rightarrow> (int \<times> int) list" where
  "legacy_candidates db limit =
     take limit (concat (map (\<lambda>c.
       if c_status c = C_submitting \<and> find_batch db (c_batch_id c) \<noteq> None
       then map (\<lambda>a. (c_id c, a_id a))
              (filter (\<lambda>a. newest_attempt db (c_id c) a \<and> a_outcome a = A_rejected
                           \<and> a_safe_to_failover a) (db_attempts db))
       else []) (sort_key c_id (db_chunks db))))"

text \<open>The update of one row, and whether it hit.\<close>

definition repair_apply ::
  "db \<Rightarrow> int \<Rightarrow> int \<Rightarrow> string \<Rightarrow> PersistedNextAction \<Rightarrow> (db \<times> bool) res" where
  "repair_apply db chunk_id attempt_id category persisted =
     (if pn_action persisted = N_failover_pending
      then (case (pn_next_vendor persisted, pn_route_generation persisted) of
          (Some v, Some generation) \<Rightarrow>
            (case update_chunk db chunk_id is_submitting (\<lambda>c.
                (failover_row db v generation (pn_route_policy_version persisted) attempt_id c)
                  \<lparr>c_vendor_msg := Some ''repaired_legacy_safe_reject''\<rparr>) of
               (_, None) \<Rightarrow> Inr (db, False)
             | (db, Some _) \<Rightarrow>
                 rbind (enqueue_chunk_ready db [chunk_id] (lane_for category)) (\<lambda>db. Inr (db, True)))
        | _ \<Rightarrow> Inl (IntegrityError ''sms_chunk''))
      else (case update_chunk db chunk_id is_submitting (\<lambda>c. c\<lparr>c_status := C_failed,
                c_vendor_msg := Some ''repaired_legacy_safe_reject'', c_submitting_since := None,
                c_retry_not_before := None, c_next_vendor := None, c_failover_from := None\<rparr>) of
           (_, None) \<Rightarrow> Inr (db, False)
         | (db, Some c) \<Rightarrow>
             rbind (settle db chunk_id T_released) (\<lambda>db.
             rbind (finalize_failed_messages db chunk_id (c_batch_id c)) (\<lambda>db. Inr (db, True)))))"

definition repair_legacy_row ::
  "store_env \<Rightarrow> db \<times> int \<Rightarrow> int \<times> int \<Rightarrow> (db \<times> int) res" where
  "repair_legacy_row env s candidate =
     (let (db, repaired) = s; (chunk_id, attempt_id) = candidate in
      case lock_send_context db chunk_id of
        None \<Rightarrow> Inr s
      | Some context \<Rightarrow>
          let batch = lc_batch context; attempts = map vendor_attempt (lc_attempts context);
              category = category_or_notice (b_category batch) in
          if b_status batch \<notin> {B_queued, B_sending} then Inr s
          else if map_option a_id (last_opt (lc_attempts context)) \<noteq> Some attempt_id then Inr s
          else if \<not> historical_safe_reject_repairable (c_status (lc_chunk context)) attempts
          then Inr s
          else rbind (next_action_after_safe_reject attempts category attempt_id (se_registry env)
                        (Some (se_adapter_ids env)) (int_or (b_policy_version batch) 1))
            (\<lambda>persisted. rbind (repair_apply db chunk_id attempt_id category persisted)
              (\<lambda>(db, hit). Inr (db, if hit then repaired + 1 else repaired))))"

definition repair_legacy_safe_reject_submitting ::
  "store_env \<Rightarrow> db \<Rightarrow> nat \<Rightarrow> (db \<times> int) res" where
  "repair_legacy_safe_reject_submitting env db limit =
     foldM (repair_legacy_row env) (db, 0) (legacy_candidates db limit)"

end
