(* ===== verification/Send_Split.thy ===== *)
theory Send_Split
  imports Send_Attempt
begin

text \<open>
  Planning the chunks of a batch (\<open>prepare_chunks\<close> of src/backend/app/tasks/send_repository_payload.py)
  and splitting a chunk that the provider finds too large
  (src/backend/app/tasks/send_repository_split.py). Both move messages to new chunks and keep the
  usage allocation of each chunk; the lemmas show that they partition the messages.
\<close>

section \<open>Creating chunks\<close>

definition zero_pad :: "nat \<Rightarrow> string \<Rightarrow> string" where
  "zero_pad width s = replicate (width - length s) CHR ''0'' @ s"

text \<open>\<^verbatim>\<open>f"{prefix[:24]}{number:08d}"\<close>\<close>

definition custom_id_for :: "string \<Rightarrow> int \<Rightarrow> string" where
  "custom_id_for pre number = take 24 pre @ zero_pad 8 (str_int number)"

definition new_chunk ::
  "db \<Rightarrow> int \<Rightarrow> int \<Rightarrow> string \<Rightarrow> int \<Rightarrow> (int \<times> int \<times> int) option \<Rightarrow> sms_chunk" where
  "new_chunk db batch_id chunk_no custom_id phone_count split =
     \<lparr>c_id = serial (map c_id (db_chunks db)), c_batch_id = batch_id, c_chunk_no = chunk_no,
      c_custom_id = custom_id, c_phone_count = phone_count, c_status = C_pending,
      c_vendor_task_id = None, c_vendor_code = None, c_vendor_msg = None, c_retry_count = 0,
      c_attempt_count = 0, c_retry_not_before = None, c_submitted_at = None,
      c_submitting_since = None, c_uncertain_since = None, c_selected_vendor = PRIMARY_VENDOR_ID,
      c_route_generation = 1, c_next_vendor = None, c_policy_version = 1, c_failover_from = None,
      c_parent_id = map_option fst split, c_split_generation = map_option (fst \<circ> snd) split,
      c_child_ordinal = map_option (snd \<circ> snd) split\<rparr>"

text \<open>The unique keys \<open>(batch_id, chunk_no)\<close> and \<open>custom_id\<close>.\<close>

definition chunk_key_free :: "db \<Rightarrow> sms_chunk \<Rightarrow> bool" where
  "chunk_key_free db c \<longleftrightarrow> list_all (\<lambda>x. c_custom_id x \<noteq> c_custom_id c
     \<and> \<not> (c_batch_id x = c_batch_id c \<and> c_chunk_no x = c_chunk_no c)) (db_chunks db)"

definition insert_chunk :: "db \<Rightarrow> sms_chunk \<Rightarrow> db res" where
  "insert_chunk db c =
     (if chunk_key_free db c then Inr (db\<lparr>db_chunks := db_chunks db @ [c]\<rparr>)
      else Inl (IntegrityError ''sms_chunk''))"

definition message_key :: "sms_message \<Rightarrow> int \<times> datetime" where
  "message_key m = (m_id m, m_created_at m)"

text \<open>\<open>UPDATE sms_message SET chunk_id WHERE id AND created_at\<close>, executed for every row of a group.\<close>

definition assign_messages :: "db \<Rightarrow> int \<Rightarrow> sms_message list \<Rightarrow> db" where
  "assign_messages db chunk_id rows =
     update_messages db (\<lambda>m. message_key m \<in> message_key ` set rows)
       (\<lambda>m. m\<lparr>m_chunk_id := Some chunk_id\<rparr>)"

text \<open>\<open>INSERT INTO usage_chunk_allocation ... ON CONFLICT (chunk_id) DO NOTHING\<close>.\<close>

definition allocate :: "db \<Rightarrow> usage_allocation \<Rightarrow> db" where
  "allocate db ua =
     (if list_ex (\<lambda>x. ua_chunk_id x = ua_chunk_id ua) (db_allocations db) then db
      else db\<lparr>db_allocations := db_allocations db @ [ua]\<rparr>)"

definition allocation_for :: "sms_batch \<Rightarrow> int \<Rightarrow> nat \<Rightarrow> int \<Rightarrow> usage_allocation" where
  "allocation_for batch chunk_id recipients requests =
     \<lparr>ua_chunk_id = chunk_id, ua_batch_id = b_id batch,
      ua_reservation_id = b_usage_reservation_id batch, ua_recipients = int recipients,
      ua_segments = b_segments batch * int recipients, ua_requests = requests,
      ua_app_id = b_app_id batch\<rparr>"

section \<open>Planning a batch\<close>

text \<open>The groups of \<open>range(0, len(rows), batch_size)\<close>.\<close>

function groups_of :: "nat \<Rightarrow> 'a list \<Rightarrow> 'a list list" where
  "groups_of n xs = (if xs = [] \<or> n = 0 then [] else take n xs # groups_of n (drop n xs))"
  by pat_completeness auto
termination by (relation "measure (length \<circ> snd)") auto

declare groups_of.simps [simp del]

definition sendable_chunk :: "db \<Rightarrow> sms_chunk \<Rightarrow> bool" where
  "sendable_chunk db c \<longleftrightarrow> c_status c = C_pending
     \<or> (c_status c \<in> {C_retrying, C_failover_pending} \<and> retry_due db c)"

definition batch_chunks :: "db \<Rightarrow> int \<Rightarrow> sms_chunk list" where
  "batch_chunks db batch_id = filter (\<lambda>c. c_batch_id c = batch_id) (db_chunks db)"

definition sendable_ids :: "db \<Rightarrow> int \<Rightarrow> int list" where
  "sendable_ids db batch_id =
     map c_id (sort_key c_chunk_no (filter (sendable_chunk db) (batch_chunks db batch_id)))"

definition unplanned_messages :: "db \<Rightarrow> int \<Rightarrow> sms_message list" where
  "unplanned_messages db batch_id = sort_key message_key
     (filter (\<lambda>m. m_batch_id m = batch_id \<and> m_chunk_id m = None) (db_messages db))"

definition mark_sending :: "db \<Rightarrow> int \<Rightarrow> db" where
  "mark_sending db batch_id = set_batches db (\<lambda>b. b_id b = batch_id)
     (\<lambda>b. b\<lparr>b_status := B_sending, b_updated_at := db_now db\<rparr>)"

text \<open>One group: insert the chunk, allocate its usage, move its messages.\<close>

definition plan_group ::
  "sms_batch \<Rightarrow> db \<times> int list \<Rightarrow> int \<times> sms_message list \<Rightarrow> (db \<times> int list) res" where
  "plan_group batch s numbered =
     (let (db, chunk_ids) = s; (chunk_no, rows) = numbered;
          c = new_chunk db (b_id batch) chunk_no (custom_id_for (b_batch_no batch) chunk_no)
                (int (length rows)) None
      in rbind (insert_chunk db c) (\<lambda>db.
           Inr (assign_messages
                  (allocate db (allocation_for batch (c_id c) (length rows)
                     (if chunk_no = 1 then 1 else 0)))
                  (c_id c) rows,
                chunk_ids @ [c_id c])))"

definition numbered_groups :: "nat \<Rightarrow> sms_message list \<Rightarrow> (int \<times> sms_message list) list" where
  "numbered_groups n ms = zip (map (\<lambda>k. int k + 1) [0..<length (groups_of n ms)]) (groups_of n ms)"

definition app_limit :: "db \<Rightarrow> sms_batch \<Rightarrow> int" where
  "app_limit db batch =
     (case b_app_id batch of
        None \<Rightarrow> 200
      | Some i \<Rightarrow> (case first_row (\<lambda>a. app_id a = i) (db_apps db) of
          None \<Rightarrow> 200 | Some a \<Rightarrow> max 1 (app_max_in_flight a)))"

definition plan_new_chunks :: "db \<Rightarrow> sms_batch \<Rightarrow> nat \<Rightarrow> (db \<times> int list) res" where
  "plan_new_chunks db batch batch_size =
     rbind (foldM (plan_group batch) (db, [])
              (numbered_groups batch_size (unplanned_messages db (b_id batch))))
       (\<lambda>(db, chunk_ids).
          let db = mark_sending db (b_id batch) in
          rbind (materialize_in_flight_reservation db (b_id batch)
                   (int (length (batch_chunks db (b_id batch)))) (app_limit db batch))
            (\<lambda>db. Inr (db, chunk_ids)))"

definition DONE_BATCH_STATES :: "batch_status list" where
  "DONE_BATCH_STATES = [B_completed, B_completed_unknown, B_cancelled, B_rejected, B_expired]"

definition prepare_chunks :: "db \<Rightarrow> string \<Rightarrow> int \<Rightarrow> (db \<times> int list \<times> string) res" where
  "prepare_chunks db batch_no batch_size =
     (if batch_size < 1 then Inl (ValueError ''vendor_batch_size must be positive'')
      else case first_row (\<lambda>b. b_batch_no b = batch_no) (db_batches db) of
        None \<Rightarrow> Inl (RuntimeError ''batch state does not allow sending'')
      | Some batch \<Rightarrow>
          let lane = lane_for (b_category batch);
              sending = (\<lambda>db. if b_status batch = B_queued then mark_sending db (b_id batch) else db);
              chunk_ids = sendable_ids db (b_id batch) in
          if b_status batch \<in> set DONE_BATCH_STATES then Inr (db, [], lane)
          else if b_status batch \<notin> {B_queued, B_sending}
          then Inl (RuntimeError ''batch state does not allow sending'')
          else if chunk_ids = [] \<and> batch_chunks db (b_id batch) \<noteq> []
          then Inr (sending db, [], lane)
          else rbind (if chunk_ids = [] then plan_new_chunks db batch (nat batch_size)
                      else Inr (sending db, chunk_ids)) (\<lambda>(db, chunk_ids).
                 rbind (enqueue_chunk_ready db chunk_ids lane) (\<lambda>db.
                   Inr (db, chunk_ids, lane))))"

section \<open>Splitting a chunk\<close>

definition SPLIT_GENERATION :: int where
  "SPLIT_GENERATION = 1"

definition existing_split_children :: "db \<Rightarrow> int \<Rightarrow> int list" where
  "existing_split_children db parent_id =
     map c_id (sort_key (\<lambda>c. case c_child_ordinal c of Some k \<Rightarrow> k | None \<Rightarrow> 0)
       (filter (\<lambda>c. c_parent_id c = Some parent_id
                    \<and> c_split_generation c = Some SPLIT_GENERATION) (db_chunks db)))"

definition split_app_limit :: "db \<Rightarrow> int \<Rightarrow> int option" where
  "split_app_limit db batch_id =
     (case find_batch db batch_id of
        None \<Rightarrow> None
      | Some b \<Rightarrow> (case b_app_id b of
          None \<Rightarrow> None
        | Some i \<Rightarrow> map_option (\<lambda>a. max 1 (app_max_in_flight a))
            (first_row (\<lambda>a. app_id a = i) (db_apps db))))"

definition splittable :: "sms_chunk \<Rightarrow> bool" where
  "splittable c \<longleftrightarrow> c_status c \<in> {C_submitting, C_split_capacity_blocked}"

definition settle_split_vendor_attempt :: "db \<Rightarrow> int \<Rightarrow> db res" where
  "settle_split_vendor_attempt db chunk_id =
     update_attempts db (\<lambda>a. a_chunk_id a = chunk_id \<and> a_outcome a = A_invoking)
       (\<lambda>a. a\<lparr>a_outcome := A_rejected, a_vendor_code := Some 1006\<rparr>)"

definition mark_split_capacity_blocked :: "db \<Rightarrow> int \<Rightarrow> db res" where
  "mark_split_capacity_blocked db chunk_id =
     (case update_chunk db chunk_id splittable (\<lambda>c. c\<lparr>c_status := C_split_capacity_blocked,
             c_vendor_code := Some 1006, c_vendor_msg := Some ''split capacity blocked'',
             c_submitting_since := None, c_retry_not_before := None\<rparr>) of
        (db, None) \<Rightarrow> Inr db
      | (db, Some _) \<Rightarrow> rbind (settle db chunk_id T_released) (\<lambda>db.
          settle_split_vendor_attempt db chunk_id))"

definition split_child ::
  "sms_batch \<Rightarrow> int \<Rightarrow> string \<Rightarrow> db \<times> int list \<Rightarrow> int \<times> int \<times> sms_message list
     \<Rightarrow> (db \<times> int list) res" where
  "split_child batch parent_id custom_id s child =
     (let (db, child_ids) = s; (ordinal, number, rows) = child;
          c = new_chunk db (b_id batch) number (custom_id_for custom_id number)
                (int (length rows)) (Some (parent_id, SPLIT_GENERATION, ordinal))
      in if list_ex (\<lambda>x. c_parent_id x = Some parent_id \<and> c_split_generation x = Some SPLIT_GENERATION
                         \<and> c_child_ordinal x = Some ordinal) (db_chunks db)
         then Inl (InFlightInvariantViolation ''split'' ''child identity conflict'')
         else rbind (insert_chunk db c) (\<lambda>db.
           Inr (allocate (assign_messages db (c_id c) rows)
                  (allocation_for batch (c_id c) (length rows) 0), child_ids @ [c_id c])))"

definition chunk_messages :: "db \<Rightarrow> int \<Rightarrow> sms_message list" where
  "chunk_messages db chunk_id =
     sort_key message_key (filter (\<lambda>m. m_chunk_id m = Some chunk_id) (db_messages db))"

definition clear_allocation :: "db \<Rightarrow> int \<Rightarrow> db" where
  "clear_allocation db chunk_id =
     db\<lparr>db_allocations := update_rows (\<lambda>x. ua_chunk_id x = chunk_id)
          (\<lambda>x. x\<lparr>ua_recipients := 0, ua_segments := 0\<rparr>) (db_allocations db)\<rparr>"

text \<open>The two children of a parent whose attempt is settled.\<close>

definition create_children :: "db \<Rightarrow> sms_batch \<Rightarrow> int \<Rightarrow> string \<Rightarrow> (db \<times> int list) res" where
  "create_children db batch parent_id custom_id =
     (let messages = chunk_messages db parent_id;
          number = fold max (map c_chunk_no (batch_chunks db (b_id batch))) 0 + 1;
          middle = (length messages + 1) div 2
      in rbind (foldM (split_child batch parent_id custom_id) (db, [])
                  [(1, number, take middle messages), (2, number + 1, drop middle messages)])
           (\<lambda>(db, child_ids).
              rbind (enqueue_chunk_ready (clear_allocation db parent_id) child_ids
                       (lane_for (b_category batch))) (\<lambda>db. Inr (db, child_ids))))"

definition create_split_children ::
  "db \<Rightarrow> int \<Rightarrow> int \<Rightarrow> string \<Rightarrow> (db \<times> int list) res" where
  "create_split_children db chunk_id batch_id custom_id =
     (case update_chunk db chunk_id splittable (\<lambda>c. c\<lparr>c_status := C_failed,
             c_vendor_code := Some 1006, c_vendor_msg := Some ''split into smaller chunks'',
             c_submitting_since := None, c_retry_not_before := None\<rparr>) of
        (_, None) \<Rightarrow> Inl (InFlightInvariantViolation ''split'' ''parent cas missed'')
      | (db, Some _) \<Rightarrow>
          rbind (settle db chunk_id T_released) (\<lambda>db.
          rbind (settle_split_vendor_attempt db chunk_id) (\<lambda>db.
            if length (chunk_messages db chunk_id) < 2
            then Inl (InFlightInvariantViolation ''split'' ''parent message set too small'')
            else case find_batch db batch_id of
              None \<Rightarrow> Inl (OtherError ''NoResultFound'')
            | Some batch \<Rightarrow> create_children db batch chunk_id custom_id)))"

text \<open>The expansion of the reservation; a missing reservation and a full application are refusals.\<close>

definition try_expand :: "db \<Rightarrow> int \<Rightarrow> (db \<times> bool) res" where
  "try_expand db batch_id =
     (case split_app_limit db batch_id of
        None \<Rightarrow> Inr (db, False)
      | Some limit \<Rightarrow>
          (case expand_in_flight_for_split db batch_id 1 limit of
             Inr r \<Rightarrow> Inr r
           | Inl InFlightLimitExceeded \<Rightarrow> Inr (db, False)
           | Inl (InFlightInvariantViolation op detail) \<Rightarrow>
               if detail = ''reservation missing'' then Inr (db, False)
               else Inl (InFlightInvariantViolation op detail)
           | Inl e \<Rightarrow> Inl e))"

definition complete_vendor_split ::
  "db \<Rightarrow> int \<Rightarrow> int \<Rightarrow> string \<Rightarrow> (db \<times> int list) res" where
  "complete_vendor_split db chunk_id batch_id custom_id =
     (let existing = existing_split_children db chunk_id in
      if length existing = 2 then Inr (db, existing)
      else if existing \<noteq> [] then Inl (InFlightInvariantViolation ''split'' ''incomplete children'')
      else case find_chunk db chunk_id of
        None \<Rightarrow> Inr (db, [])
      | Some parent \<Rightarrow>
          if \<not> splittable parent then Inr (db, [])
          else rbind (try_expand db batch_id) (\<lambda>(db, expanded).
            if expanded then create_split_children db chunk_id batch_id custom_id
            else rbind (mark_split_capacity_blocked db chunk_id) (\<lambda>db. Inr (db, []))))"

definition retry_split_row :: "db \<times> int \<Rightarrow> sms_chunk \<Rightarrow> (db \<times> int) res" where
  "retry_split_row s row =
     (let (db, retried) = s in
      if c_phone_count row < 2 then Inr s
      else rbind (complete_vendor_split db (c_id row) (c_batch_id row) (c_custom_id row))
        (\<lambda>(db, children). Inr (db, if children = [] then retried else retried + 1)))"

definition retry_capacity_blocked_splits :: "db \<Rightarrow> nat \<Rightarrow> (db \<times> int) res" where
  "retry_capacity_blocked_splits db limit =
     foldM retry_split_row (db, 0)
       (take limit (sort_key c_id
         (filter (\<lambda>c. c_status c = C_split_capacity_blocked) (db_chunks db))))"

end
