(* ===== verification/Send_Recovery.thy ===== *)
theory Send_Recovery
  imports Send_Split
begin

text \<open>
  The recovery of stalled work (src/backend/app/services/reconcile_repository.py): the statement that
  closes invocations whose owner is gone, the repairs that run before and after it, and the
  re-registration of work that nobody picked up. The statement is one query of data-modifying parts,
  all of which read the rows as they were before it.
\<close>

section \<open>The recovery statement\<close>

definition STALE_INVOKING_CUTOFF_S :: int where
  "STALE_INVOKING_CUTOFF_S = 15 * 60"

definition MAX_VENDOR_PERSIST_BUDGET_S :: int where
  "MAX_VENDOR_PERSIST_BUDGET_S = 30"

definition SCHEDULER_JITTER_S :: int where
  "SCHEDULER_JITTER_S = 60"

definition stale_invoking_cutoff_is_safe :: "int \<Rightarrow> bool" where
  "stale_invoking_cutoff_is_safe vendor_timeout_s \<longleftrightarrow>
     vendor_timeout_s + MAX_VENDOR_PERSIST_BUDGET_S + SCHEDULER_JITTER_S < STALE_INVOKING_CUTOFF_S"

definition recovery_candidates :: "db \<Rightarrow> int list" where
  "recovery_candidates db = take 500 (sort (map c_id (filter (\<lambda>c. c_status c = C_submitting
     \<or> list_ex (\<lambda>a. a_chunk_id a = c_id c \<and> a_outcome a = A_invoking) (db_attempts db))
     (db_chunks db))))"

text \<open>The three updates of \<open>sms_vendor_attempt\<close>, for an attempt of a locked chunk \<open>c\<close>.\<close>

definition repaired_attempt :: "db \<Rightarrow> sms_chunk \<Rightarrow> sms_vendor_attempt \<Rightarrow> bool" where
  "repaired_attempt db c a \<longleftrightarrow> a_outcome a = A_invoking \<and> c_status c = C_submitted
     \<and> c_route_generation c = a_generation a \<and> c_vendor_task_id c \<noteq> None \<and> c_submitted_at c \<noteq> None
     \<and> list_ex (\<lambda>m. m_chunk_id m = Some (c_id c) \<and> m_status m = M_sent) (db_messages db)"

definition inconsistent_attempt :: "db \<Rightarrow> sms_chunk \<Rightarrow> sms_vendor_attempt \<Rightarrow> bool" where
  "inconsistent_attempt db c a \<longleftrightarrow> a_outcome a = A_invoking
     \<and> c_status c \<in> {C_submitted, C_failed, C_uncertain, C_unknown_terminal}
     \<and> \<not> repaired_attempt db c a"

definition stale_attempt :: "db \<Rightarrow> sms_chunk \<Rightarrow> sms_vendor_attempt \<Rightarrow> bool" where
  "stale_attempt db c a \<longleftrightarrow> a_outcome a = A_invoking \<and> c_status c = C_submitting
     \<and> c_route_generation c = a_generation a
     \<and> (case a_invoke_started_at a of None \<Rightarrow> False
        | Some t \<Rightarrow> t < db_now db - seconds STALE_INVOKING_CUTOFF_S)"

definition recover_attempt :: "db \<Rightarrow> int list \<Rightarrow> sms_vendor_attempt \<Rightarrow> sms_vendor_attempt" where
  "recover_attempt db ids a =
     (if a_chunk_id a \<notin> set ids then a
      else case find_chunk db (a_chunk_id a) of
        None \<Rightarrow> a
      | Some c \<Rightarrow>
          if repaired_attempt db c a then a\<lparr>a_outcome := A_submitted\<rparr>
          else if inconsistent_attempt db c a then a\<lparr>a_outcome := A_inconsistent\<rparr>
          else if stale_attempt db c a then a\<lparr>a_outcome := A_uncertain\<rparr>
          else a)"

text \<open>The chunks that become uncertain. A chunk whose newest attempt is a safe rejection, and which has
  no attempt that may have reached a provider, is left for the repair of safe rejections.\<close>

definition safe_reject_pending :: "db \<Rightarrow> int \<Rightarrow> bool" where
  "safe_reject_pending db chunk_id \<longleftrightarrow>
     list_ex (\<lambda>a. newest_attempt db chunk_id a \<and> a_outcome a = A_rejected \<and> a_safe_to_failover a)
       (db_attempts db)
     \<and> \<not> list_ex (\<lambda>a. a_chunk_id a = chunk_id
          \<and> a_outcome a \<in> {A_submitted, A_uncertain, A_invoking, A_inconsistent}) (db_attempts db)"

definition stale_chunk :: "db \<Rightarrow> int list \<Rightarrow> sms_chunk \<Rightarrow> bool" where
  "stale_chunk db ids c \<longleftrightarrow> c_id c \<in> set ids \<and> callable_batch db (c_batch_id c)
     \<and> c_status c = C_submitting
     \<and> ((case c_submitting_since c of None \<Rightarrow> False | Some t \<Rightarrow> t < db_now db - seconds (5 * 60))
        \<or> list_ex (\<lambda>a. a_chunk_id a = c_id c \<and> stale_attempt db c a) (db_attempts db))
     \<and> \<not> safe_reject_pending db (c_id c)"

definition uncertain_row :: "db \<Rightarrow> sms_chunk \<Rightarrow> sms_chunk" where
  "uncertain_row db c = c\<lparr>c_status := C_uncertain,
     c_uncertain_since := Some (case c_submitting_since c of Some t \<Rightarrow> t | None \<Rightarrow> db_now db),
     c_submitting_since := None\<rparr>"

definition recover_stale :: "db \<Rightarrow> db res" where
  "recover_stale db =
     (let ids = recovery_candidates db;
          stale = map c_id (filter (stale_chunk db ids) (db_chunks db)) in
      rbind (write_attempts (set_chunks db (stale_chunk db ids) (uncertain_row db))
               (map (recover_attempt db ids) (db_attempts db))) (\<lambda>db'.
      rbind (settle_chunks_uncertain db' stale) (\<lambda>(db', _). Inr db')))"

section \<open>Work to pick up again\<close>

datatype RecoveryWork = Batch_work string string | Chunk_work string int string

definition stalled_batches :: "db \<Rightarrow> sms_batch list" where
  "stalled_batches db = take 100 (sort_key b_updated_at
     (filter (\<lambda>b. b_status b = B_queued \<and> b_updated_at b < db_now db - seconds (5 * 60))
       (db_batches db)))"

definition stalled_chunks :: "db \<Rightarrow> (sms_batch \<times> sms_chunk) list" where
  "stalled_chunks db = take 500 (sort_key (\<lambda>(b, c). (b_updated_at b, c_chunk_no c))
     (concat (map (\<lambda>c. case find_batch db (c_batch_id c) of
        None \<Rightarrow> []
      | Some b \<Rightarrow> if b_status b = B_sending \<and> sendable_chunk db c
                    \<and> b_updated_at b < db_now db - seconds (5 * 60) then [(b, c)] else [])
      (db_chunks db))))"

definition recovery_work :: "db \<Rightarrow> RecoveryWork list" where
  "recovery_work db = map (\<lambda>b. Batch_work (b_batch_no b) (b_category b)) (stalled_batches db)
     @ map (\<lambda>(b, c). Chunk_work (b_batch_no b) (c_id c) (b_category b)) (stalled_chunks db)"

definition batch_ready_spec :: "string \<Rightarrow> string \<Rightarrow> OutboxEventSpec" where
  "batch_ready_spec batch_no lane =
     \<lparr>sp_event_type = ''batch.ready'', sp_aggregate_type = ''sms_batch'',
      sp_aggregate_id = batch_no, sp_task_name = ''app.tasks.send.process_batch'',
      sp_queue = lane, sp_args = [Arg_str batch_no], sp_dedup_key = ''batch.ready:'' @ batch_no,
      sp_max_attempts = 12, sp_correlation_id = None\<rparr>"

fun register_work :: "db \<Rightarrow> RecoveryWork \<Rightarrow> db res" where
  "register_work db (Chunk_work batch_no chunk_id category) =
     enqueue_chunk_ready db [chunk_id] (queue_for_category category)"
| "register_work db (Batch_work batch_no category) =
     rbind (enqueue_outbox db (batch_ready_spec batch_no (queue_for_category category)) 0 None)
       (\<lambda>(db, _). Inr (rearm_event db (''batch.ready:'' @ batch_no) ''batch.ready''))"

text \<open>\<open>SqlRecoveryRepository.stalled\<close>: a sequence of transactions, each committed before the next; an
  exception ends the run after what is committed.\<close>

fun run_phases :: "(db \<Rightarrow> db res) list \<Rightarrow> db \<Rightarrow> db \<times> unit res" where
  "run_phases [] db = (db, Inr ())"
| "run_phases (p # ps) db = (case p db of Inl e \<Rightarrow> (db, Inl e) | Inr db' \<Rightarrow> run_phases ps db')"

definition stalled_phases :: "store_env \<Rightarrow> (db \<Rightarrow> db res) list" where
  "stalled_phases env =
     [\<lambda>db. rbind (repair_legacy_safe_reject_submitting env db 100) (\<lambda>(db, _). Inr db),
      recover_stale,
      \<lambda>db. rbind (retry_capacity_blocked_splits db 100) (\<lambda>(db, _). Inr db),
      \<lambda>db. rbind (bind_reserved_reservation_to_existing_batch db 100) (\<lambda>(db, _). Inr db),
      \<lambda>db. rbind (repair_misreleased_bound_reservations db 100) (\<lambda>(db, _). Inr db),
      \<lambda>db. rbind (reconcile_in_flight_reservations db 100) (\<lambda>(db, _). Inr db),
      \<lambda>db. foldM register_work db (recovery_work db)]"

definition stalled :: "store_env \<Rightarrow> db \<Rightarrow> db \<times> unit res" where
  "stalled env db = run_phases (stalled_phases env) db"

end
