(* ===== verification/Send_Invariants.thy ===== *)
theory Send_Invariants
  imports Send_Recovery
begin

text \<open>
  What the transactions of the sending path keep, whatever the order in which workers, recovery and
  the rest of the platform run them: at most one attempt of a chunk may have reached a provider, an
  attempt that is closed stays as it is, the live-test books stay exact, and retry counts stay
  bounded. Each transaction is a chain of small changes; \<open>safe_change\<close> is closed under chaining, so a
  transaction is shown safe by naming its parts.
\<close>

section \<open>Invariant\<close>

definition blocking :: "sms_vendor_attempt \<Rightarrow> bool" where
  "blocking a \<longleftrightarrow> a_outcome a \<in> set BLOCKING_ATTEMPT_OUTCOMES"

definition attempts_ok :: "sms_vendor_attempt list \<Rightarrow> bool" where
  "attempts_ok rows \<longleftrightarrow> distinct (map a_id rows) \<and> attempt_keys rows
     \<and> distinct (map a_chunk_id (filter blocking rows))"

definition retry_view :: "sms_chunk \<Rightarrow> int \<times> int" where
  "retry_view c = (c_id c, c_retry_count c)"

definition retries_ok :: "sms_chunk list \<Rightarrow> bool" where
  "retries_ok rows \<longleftrightarrow> (\<forall>c\<in>set rows. 0 \<le> c_retry_count c \<and> c_retry_count c \<le> DELAYED_RETRY_LIMIT)"

definition send_inv :: "db \<Rightarrow> bool" where
  "send_inv db \<longleftrightarrow> attempts_ok (db_attempts db) \<and> budget_inv db \<and> retries_ok (db_chunks db)"

text \<open>A closed attempt is never changed, an open one keeps its identity.\<close>

definition attempt_later :: "sms_vendor_attempt \<Rightarrow> sms_vendor_attempt \<Rightarrow> bool" where
  "attempt_later a a' \<longleftrightarrow> a_id a' = a_id a \<and> a_chunk_id a' = a_chunk_id a
     \<and> a_generation a' = a_generation a \<and> a_vendor_id a' = a_vendor_id a
     \<and> (a_outcome a \<noteq> A_invoking \<longrightarrow> a' = a)"

definition send_later :: "db \<Rightarrow> db \<Rightarrow> bool" where
  "send_later db db' \<longleftrightarrow>
     (\<forall>a\<in>set (db_attempts db). \<exists>a'\<in>set (db_attempts db'). attempt_later a a')"

definition safe_change :: "db \<Rightarrow> db \<Rightarrow> bool" where
  "safe_change db db' \<longleftrightarrow> (send_inv db \<longrightarrow> send_inv db' \<and> send_later db db')"

named_theorems safe \<open>changes that are safe\<close>

section \<open>Chaining\<close>

lemma attempt_later_refl [simp]: "attempt_later a a"
  by (simp add: attempt_later_def)

lemma attempt_later_trans: "attempt_later a b \<Longrightarrow> attempt_later b c \<Longrightarrow> attempt_later a c"
  by (auto simp: attempt_later_def)

lemma send_later_same: "db_attempts db' = db_attempts db \<Longrightarrow> send_later db db'"
  unfolding send_later_def using attempt_later_refl by metis

lemma send_later_refl [simp]: "send_later db db"
  by (rule send_later_same) simp

lemma send_later_trans: "send_later a b \<Longrightarrow> send_later b c \<Longrightarrow> send_later a c"
  unfolding send_later_def by (meson attempt_later_trans)

lemma safe_refl [simp]: "safe_change db db"
  by (simp add: safe_change_def)

lemma safe_trans: "safe_change a b \<Longrightarrow> safe_change b c \<Longrightarrow> safe_change a c"
  unfolding safe_change_def using send_later_trans by blast

lemma safe_foldM:
  assumes "foldM f s xs = Inr s'"
    and "\<And>s x s'. x \<in> set xs \<Longrightarrow> f s x = Inr s' \<Longrightarrow> safe_change (g s) (g s')"
  shows "safe_change (g s) (g s')"
  using assms
proof (induction xs arbitrary: s)
  case (Cons x xs)
  from Cons.prems(1) obtain s1 where s1: "f s x = Inr s1" "foldM f s1 xs = Inr s'"
    by (auto simp: rbind_Inr_iff)
  have "safe_change (g s) (g s1)" using Cons.prems(2) [OF _ s1(1)] by simp
  moreover have "safe_change (g s1) (g s')"
  proof (rule Cons.IH [OF s1(2)])
    fix t y t' assume "y \<in> set xs" "f t y = Inr t'"
    then show "safe_change (g t) (g t')" using Cons.prems(2) [of y t t'] by simp
  qed
  ultimately show ?case by (rule safe_trans)
qed simp

section \<open>Small changes\<close>

text \<open>What the invariant reads of a database.\<close>

definition same_view :: "db \<Rightarrow> db \<Rightarrow> bool" where
  "same_view db db' \<longleftrightarrow> db_attempts db' = db_attempts db \<and> db_usage db' = db_usage db
     \<and> db_test_attempts db' = db_test_attempts db
     \<and> map retry_view (db_chunks db') = map retry_view (db_chunks db)"

lemma retries_ok_view:
  "retries_ok cs \<longleftrightarrow> (\<forall>p\<in>set (map retry_view cs). 0 \<le> snd p \<and> snd p \<le> DELAYED_RETRY_LIMIT)"
  by (auto simp: retries_ok_def retry_view_def)

lemma same_view_safe: "same_view db db' \<Longrightarrow> safe_change db db'"
  by (auto simp: same_view_def safe_change_def send_inv_def retries_ok_view intro: send_later_same)

lemma set_batches_safe [safe]: "safe_change db (set_batches db p f)"
  by (rule same_view_safe) (simp add: same_view_def set_batches_def)

lemma touch_batch_safe [safe]: "safe_change db (touch_batch db i)"
  by (simp add: touch_batch_def safe)

lemma update_messages_safe [safe]: "safe_change db (update_messages db p f)"
  by (rule same_view_safe) (simp add: same_view_def update_messages_def)

lemma mark_sent_safe [safe]: "safe_change db (mark_sent db i)"
  by (simp add: mark_sent_def safe)

lemma log_request_safe [safe]: "safe_change db (log_request db r)"
  by (rule same_view_safe) (simp add: same_view_def log_request_def)

lemma outbox_tables_safe:
  "db' = db\<lparr>db_outbox := os, db_uuids := n\<rparr> \<Longrightarrow> safe_change db db'"
  by (rule same_view_safe) (simp add: same_view_def)

lemma inflight_tables_safe:
  "db' = db\<lparr>db_balances := bs, db_reservations := rs\<rparr> \<Longrightarrow> safe_change db db'"
  by (rule same_view_safe) (simp add: same_view_def)

text \<open>A chunk update keeps the retry count, or raises it where it is below the limit.\<close>

lemma set_chunks_safe:
  assumes "\<And>c. p c \<Longrightarrow> c_retry_count (f c) = c_retry_count c
      \<or> (c_retry_count c < DELAYED_RETRY_LIMIT \<and> c_retry_count (f c) = c_retry_count c + 1)"
  shows "safe_change db (set_chunks db p f)"
proof -
  have "retries_ok (update_rows p f (db_chunks db))" if "retries_ok (db_chunks db)"
    using that assms unfolding retries_ok_def ball_update_rows by fastforce
  then show ?thesis
    by (simp add: safe_change_def send_inv_def set_chunks_def send_later_same)
qed

lemma update_chunk_safe:
  assumes "update_chunk db i p f = (db', r)"
    and "\<And>c. p c \<Longrightarrow> c_retry_count (f c) = c_retry_count c
      \<or> (c_retry_count c < DELAYED_RETRY_LIMIT \<and> c_retry_count (f c) = c_retry_count c + 1)"
  shows "safe_change db db'"
  using assms set_chunks_safe [of "\<lambda>c. c_id c = i \<and> p c" f db] by (auto simp: update_chunk_def)

text \<open>The live-test books.\<close>

lemma books_safe:
  assumes "budget_inv db \<Longrightarrow> budget_ok us ts"
  shows "safe_change db (db\<lparr>db_test_attempts := ts, db_usage := us\<rparr>)"
  using assms by (simp add: safe_change_def send_inv_def send_later_same)

lemma settle_live_test_attempt_safe:
  assumes "settle_live_test_attempt db c s = Inr (db', n)"
  shows "safe_change db db'"
proof (cases "budget_inv db")
  case True
  have "s \<in> {T_confirmed, T_uncertain, T_released}"
    using assms by (auto simp: settle_live_test_attempt_def split: if_splits)
  then obtain us ts n' where "settle_live_test_attempt db c s =
      Inr (db\<lparr>db_test_attempts := ts, db_usage := us\<rparr>, n')" "budget_ok us ts"
    using settle_live_test_attempt_ok [OF True] by metis
  with assms show ?thesis using books_safe by auto
qed (simp add: safe_change_def send_inv_def)

lemma settle_safe: "settle db c s = Inr db' \<Longrightarrow> safe_change db db'"
  by (auto simp: settle_def rbind_Inr_iff dest: settle_live_test_attempt_safe)

lemma reserve_submission_budget_safe:
  assumes "reserve_submission_budget db clock c n k = Inr (db', claim)"
  shows "safe_change db db'"
proof (cases "budget_inv db")
  case True
  obtain us ts where "db' = db\<lparr>db_test_attempts := ts, db_usage := us\<rparr>" "budget_ok us ts"
    using reserve_submission_budget_ok [OF True assms] by metis
  then show ?thesis using books_safe by auto
qed (simp add: safe_change_def send_inv_def)

lemma enqueue_outbox_tables:
  assumes "enqueue_outbox db spec d w = Inr (db', i)"
  obtains os n where "db' = db\<lparr>db_outbox := os, db_uuids := n\<rparr>"
proof -
  let ?fresh = "new_event db spec d (w \<noteq> None)" and ?db = "db\<lparr>db_uuids := db_uuids db + 1\<rparr>"
  let ?r = "case first_row (\<lambda>e. e_dedup_key e = sp_dedup_key spec) (db_outbox db) of
      Some e \<Rightarrow> (?db, e) | None \<Rightarrow> (?db\<lparr>db_outbox := db_outbox db @ [?fresh]\<rparr>, ?fresh)"
  have "db' = fst ?r"
    using assms unfolding enqueue_outbox_def Let_def rbind_Inr_iff
    by (elim exE conjE) (simp add: case_prod_unfold split: if_splits)
  also have "fst ?r = db\<lparr>db_outbox := (case first_row (\<lambda>e. e_dedup_key e = sp_dedup_key spec)
      (db_outbox db) of Some e \<Rightarrow> db_outbox db | None \<Rightarrow> db_outbox db @ [?fresh]),
      db_uuids := db_uuids db + 1\<rparr>"
    by (cases "first_row (\<lambda>e. e_dedup_key e = sp_dedup_key spec) (db_outbox db)") simp_all
  finally show thesis by (rule that)
qed

lemma enqueue_outbox_safe: "enqueue_outbox db spec d w = Inr (db', i) \<Longrightarrow> safe_change db db'"
  by (erule enqueue_outbox_tables) (rule outbox_tables_safe)

lemma rearm_event_safe [safe]: "safe_change db (rearm_event db k ty)"
  by (rule same_view_safe) (simp add: rearm_event_def set_event_def same_view_def)

lemma enqueue_one_ready_safe: "enqueue_one_ready lane db i = Inr db' \<Longrightarrow> safe_change db db'"
  by (auto simp: enqueue_one_ready_def rbind_Inr_iff
      intro: safe_trans [OF enqueue_outbox_safe rearm_event_safe])

lemma enqueue_chunk_ready_safe: "enqueue_chunk_ready db ids lane = Inr db' \<Longrightarrow> safe_change db db'"
  unfolding enqueue_chunk_ready_def
  by (erule safe_foldM [where g = "\<lambda>x. x"]) (rule enqueue_one_ready_safe)

text \<open>The in-flight ledger.\<close>

definition ledger_tables :: "db \<Rightarrow> db \<Rightarrow> bool" where
  "ledger_tables db db' \<longleftrightarrow>
     db'\<lparr>db_balances := [], db_reservations := []\<rparr> = db\<lparr>db_balances := [], db_reservations := []\<rparr>"

lemma ledger_tables_refl [simp]: "ledger_tables db db"
  by (simp add: ledger_tables_def)

lemma ledger_tables_set [simp]:
  "ledger_tables db (db'\<lparr>db_balances := bs\<rparr>) = ledger_tables db db'"
  "ledger_tables db (db'\<lparr>db_reservations := rs\<rparr>) = ledger_tables db db'"
  by (simp_all add: ledger_tables_def)

lemma ledger_tablesD:
  assumes "ledger_tables db db'"
  shows "db_attempts db' = db_attempts db" "db_usage db' = db_usage db"
    "db_test_attempts db' = db_test_attempts db" "db_chunks db' = db_chunks db"
    "db_messages db' = db_messages db" "db_batches db' = db_batches db"
    "db_outbox db' = db_outbox db" "db_allocations db' = db_allocations db"
    "db_uuids db' = db_uuids db" "db_now db' = db_now db"
  using assms by (cases db, cases db', simp add: ledger_tables_def)+

lemma ledger_tables_safe: "ledger_tables db db' \<Longrightarrow> safe_change db db'"
  by (rule same_view_safe) (simp add: same_view_def ledger_tablesD)

lemma lock_balance_tables: "lock_balance db app op cr = Inr (db', n) \<Longrightarrow> ledger_tables db db'"
  by (auto simp: lock_balance_def Let_def ensure_balance_def
      split: option.splits if_splits)

lemma adjust_locked_balance_tables:
  "adjust_locked_balance db0 app st d op lim = Inr (db', n) \<Longrightarrow> ledger_tables db db0
    \<Longrightarrow> ledger_tables db db'"
  by (auto simp: adjust_locked_balance_def Let_def split: if_splits)

lemma apply_locked_delta_tables:
  assumes "apply_locked_delta db0 a rid gen locked = Inr (db', b)" "ledger_tables db db0"
  shows "ledger_tables db db'"
  using assms unfolding apply_locked_delta_def Let_def
  by (auto simp: rbind_Inr_iff split: option.splits if_splits
      dest!: adjust_locked_balance_tables)

lemma apply_reservation_delta_tables:
  assumes "apply_reservation_delta db a = Inr (db', b)"
  shows "ledger_tables db db'"
  using assms unfolding apply_reservation_delta_def
  by (auto simp: rbind_Inr_iff split: option.splits
      intro: apply_locked_delta_tables lock_balance_tables)

lemma apply_inflight_delta_tables:
  assumes "apply_inflight_delta db a = Inr (db', r)" "da_operation a \<noteq> ''reserve''"
  shows "ledger_tables db db'"
  using assms unfolding apply_inflight_delta_def
  by (auto simp: rbind_Inr_iff intro: apply_reservation_delta_tables)

lemma release_in_flight_reservation_tables:
  assumes "release_in_flight_reservation db rid gen reason app = Inr (db', b)"
  shows "ledger_tables db db'"
  using assms unfolding release_in_flight_reservation_def release_unbound_acceptance_reservation_def
  by (auto simp: rbind_Inr_iff delta_bool_def delta_defaults_def split: option.splits if_splits
      dest!: apply_inflight_delta_tables)

lemma request_inflight_release_for_batch_tables:
  "request_inflight_release_for_batch db b r = Inr (db', x) \<Longrightarrow> ledger_tables db db'"
  by (auto simp: request_inflight_release_for_batch_def split: option.splits
      dest: release_in_flight_reservation_tables)

lemma expand_in_flight_for_split_tables:
  "expand_in_flight_for_split db b d l = Inr (db', x) \<Longrightarrow> ledger_tables db db'"
  by (auto simp: expand_in_flight_for_split_def expand_on_def Let_def rbind_Inr_iff delta_bool_def
      delta_defaults_def split: option.splits if_splits dest!: apply_inflight_delta_tables)

lemma materialize_in_flight_reservation_tables:
  "materialize_in_flight_reservation db b n l = Inr db' \<Longrightarrow> ledger_tables db db'"
  by (auto simp: materialize_in_flight_reservation_def materialize_on_def Let_def rbind_Inr_iff
      delta_defaults_def split: option.splits if_splits dest!: apply_inflight_delta_tables)

text \<open>The attempts.\<close>

lemma distinct_filter_map:
  assumes "\<And>a. a \<in> set rows \<Longrightarrow> Q (g a) \<Longrightarrow> Q a" "\<And>a. a \<in> set rows \<Longrightarrow> k (g a) = k a"
    and "distinct (map k (filter Q rows))"
  shows "distinct (map k (filter Q (map g rows)))"
  using assms
proof (induction rows)
  case (Cons a rows)
  have Q: "Q b" "k (g b) = k b" if "b \<in> set (a # rows)" "Q (g b)" for b
    using Cons.prems(1,2) that by blast+
  have "distinct (map k (filter Q rows))" using Cons.prems(3) by (simp split: if_splits)
  then have IH: "distinct (map k (filter Q (map g rows)))"
    by (intro Cons.IH) (use Cons.prems(1,2) in auto)
  have "k (g a) \<noteq> k (g b)" if "b \<in> set rows" "Q (g b)" "Q (g a)" for b
    using Cons.prems(3) Q [of a] Q [of b] that by auto
  then have "Q (g a) \<Longrightarrow> k (g a) \<notin> set (map k (filter Q (map g rows)))" by auto
  with IH show ?case by simp
qed simp

lemma map_attempts_safe:
  assumes "write_attempts db (map g (db_attempts db)) = Inr db'"
    and "\<And>a. a \<in> set (db_attempts db) \<Longrightarrow> attempt_later a (g a)"
  shows "safe_change db db'"
proof -
  let ?rows = "db_attempts db"
  have db': "db' = db\<lparr>db_attempts := map g ?rows\<rparr>" and keys: "attempt_keys (map g ?rows)"
    using assms(1) by (auto simp: write_attempts_def split: if_splits)
  have "map a_id (map g ?rows) = map a_id ?rows" using assms(2) by (simp add: attempt_later_def)
  moreover have "distinct (map a_chunk_id (filter blocking (map g ?rows)))"
    if "distinct (map a_chunk_id (filter blocking ?rows))"
  proof (rule distinct_filter_map [OF _ _ that])
    fix a assume a: "a \<in> set ?rows"
    then show "a_chunk_id (g a) = a_chunk_id a" using assms(2) by (simp add: attempt_later_def)
    show "blocking (g a) \<Longrightarrow> blocking a"
      using assms(2) [OF a] by (cases "a_outcome a = A_invoking")
        (auto simp: attempt_later_def blocking_def BLOCKING_ATTEMPT_OUTCOMES_def)
  qed
  ultimately have "attempts_ok ?rows \<Longrightarrow> attempts_ok (map g ?rows)"
    using keys unfolding attempts_ok_def by metis
  moreover have "send_later db db'"
    using assms(2) by (auto simp: send_later_def db')
  ultimately show ?thesis by (simp add: safe_change_def send_inv_def db')
qed

lemma update_attempts_safe:
  assumes "update_attempts db p f = Inr db'" "\<And>a. p a \<Longrightarrow> attempt_later a (f a)"
  shows "safe_change db db'"
  using assms unfolding update_attempts_def update_rows_def
  by (elim map_attempts_safe) simp

lemma insert_attempt_safe:
  assumes "insert_attempt db c v g out ad re sf code st = Inr (db', row)"
    and "out \<in> set BLOCKING_ATTEMPT_OUTCOMES \<Longrightarrow>
      \<forall>a\<in>set (db_attempts db). a_chunk_id a = c \<longrightarrow> \<not> blocking a"
  shows "safe_change db db'"
proof -
  have db': "db' = db\<lparr>db_attempts := db_attempts db @ [row]\<rparr>"
    and keys: "attempt_keys (db_attempts db @ [row])"
    and row: "a_id row = serial (map a_id (db_attempts db))" "a_chunk_id row = c" "a_outcome row = out"
    using assms(1) by (auto simp: insert_attempt_def Let_def write_attempts_def rbind_Inr_iff
        split: if_splits)
  have "a_id row \<notin> set (map a_id (db_attempts db))" unfolding row by (rule serial_fresh)
  moreover have "blocking row \<Longrightarrow> c \<notin> set (map a_chunk_id (filter blocking (db_attempts db)))"
    using assms(2) by (auto simp: blocking_def row)
  ultimately have "attempts_ok (db_attempts db) \<Longrightarrow> attempts_ok (db_attempts db @ [row])"
    using keys by (auto simp: attempts_ok_def row)
  moreover have "send_later db db'"
    unfolding send_later_def db' using attempt_later_refl by fastforce
  ultimately show ?thesis by (simp add: safe_change_def send_inv_def db')
qed

lemma settle_then: "settle db1 c s = Inr db2 \<Longrightarrow> safe_change db db1 \<Longrightarrow> safe_change db db2"
  using settle_safe safe_trans by blast

lemma set_chunks_then:
  "safe_change db db1 \<Longrightarrow> (\<And>c. p c \<Longrightarrow> c_retry_count (f c) = c_retry_count c
      \<or> (c_retry_count c < DELAYED_RETRY_LIMIT \<and> c_retry_count (f c) = c_retry_count c + 1))
    \<Longrightarrow> safe_change db (set_chunks db1 p f)"
  using set_chunks_safe safe_trans by blast

lemma links:
  "safe_change db db1 \<Longrightarrow> safe_change db (set_batches db1 q g)"
  "safe_change db db1 \<Longrightarrow> safe_change db (touch_batch db1 i)"
  "safe_change db db1 \<Longrightarrow> safe_change db (update_messages db1 r h)"
  "safe_change db db1 \<Longrightarrow> safe_change db (mark_sent db1 i)"
  "safe_change db db1 \<Longrightarrow> safe_change db (log_request db1 rq)"
  using safe safe_trans by blast+

lemma release_then:
  "request_inflight_release_for_batch db1 b r = Inr (db2, x) \<Longrightarrow> safe_change db db1
    \<Longrightarrow> safe_change db db2"
  using request_inflight_release_for_batch_tables ledger_tables_safe safe_trans by blast

lemma enqueue_then:
  "enqueue_chunk_ready db1 ids lane = Inr db2 \<Longrightarrow> safe_change db db1 \<Longrightarrow> safe_change db db2"
  using enqueue_chunk_ready_safe safe_trans by blast

lemma finish_batch_then:
  "finish_batch db1 b = Inr db2 \<Longrightarrow> safe_change db db1 \<Longrightarrow> safe_change db db2"
  unfolding finish_batch_def Let_def
  by (auto simp: rbind_Inr_iff split: if_splits option.splits intro: links elim!: release_then)

lemma finalize_failed_messages_then:
  "finalize_failed_messages db1 c b = Inr db2 \<Longrightarrow> safe_change db db1 \<Longrightarrow> safe_change db db2"
  unfolding finalize_failed_messages_def Let_def
  by (auto simp: rbind_Inr_iff split: if_splits intro!: links elim!: finish_batch_then)

lemmas chain = settle_then release_then enqueue_then finish_batch_then finalize_failed_messages_then

lemma release_unsent_safe: "release_unsent db c = Inr db' \<Longrightarrow> safe_change db db'"
  unfolding release_unsent_def update_chunk_def
  by (auto split: option.splits intro!: set_chunks_then elim!: chain)

lemma release_control_claim_safe: "release_control_claim db c = Inr db' \<Longrightarrow> safe_change db db'"
  unfolding release_control_claim_def update_chunk_def
  by (auto split: option.splits intro!: set_chunks_then elim!: chain)

lemma mark_submitting_safe: "mark_submitting db c n = (db', b) \<Longrightarrow> safe_change db db'"
  unfolding mark_submitting_def update_chunk_def
  by (auto split: option.splits intro!: set_chunks_then links)

lemma mark_submitted_safe: "mark_submitted env db c t = Inr db' \<Longrightarrow> safe_change db db'"
  unfolding mark_submitted_def update_chunk_def
  by (auto simp: rbind_Inr_iff split: option.splits intro!: set_chunks_then links elim!: chain)

lemma fail_submitting_safe:
  assumes "fail_submitting db c f = Inr (db', b)" "\<And>x. c_retry_count (f x) = c_retry_count x"
  shows "safe_change db db'"
  using assms unfolding fail_submitting_def update_chunk_def
  by (auto simp: rbind_Inr_iff split: option.splits intro!: set_chunks_then elim!: chain)

lemma mark_failed_safe: "mark_failed db c code m = Inr db' \<Longrightarrow> safe_change db db'"
  unfolding mark_failed_def by (auto simp: rbind_Inr_iff elim!: fail_submitting_safe)

lemma reject_disallowed_recipient_safe:
  "reject_disallowed_recipient db c n = Inr db' \<Longrightarrow> safe_change db db'"
  unfolding reject_disallowed_recipient_def update_chunk_def
  by (auto split: option.splits if_splits intro!: set_chunks_then elim!: chain)

lemma defer_daily_limit_safe:
  "defer_daily_limit env db c lane t = Inr (db', m) \<Longrightarrow> safe_change db db'"
  unfolding defer_daily_limit_def update_chunk_def Let_def
  by (auto split: option.splits if_splits intro!: set_chunks_then)

lemma mark_uncertain_safe: "mark_uncertain db c = Inr db' \<Longrightarrow> safe_change db db'"
  unfolding mark_uncertain_def update_chunk_def
  by (auto split: option.splits intro!: set_chunks_then elim!: chain)

lemma schedule_retry_safe:
  "schedule_retry db c code n d = Inr (db', m) \<Longrightarrow> safe_change db db'"
  unfolding schedule_retry_def update_chunk_def
  by (auto simp: rbind_Inr_iff retry_chunk_def DELAYED_RETRY_LIMIT_def split: option.splits
      intro!: set_chunks_then elim!: chain)

lemma delay_chunk_safe: "delay_chunk db c code d = Inr (db', m) \<Longrightarrow> safe_change db db'"
  unfolding delay_chunk_def update_chunk_def
  by (auto simp: rbind_Inr_iff retry_chunk_def split: option.splits
      intro!: set_chunks_then elim!: chain fail_submitting_safe)

lemma balance_blocked_chunk_safe:
  "balance_blocked_chunk db b c = Inr db' \<Longrightarrow> safe_change db db'"
  unfolding balance_blocked_chunk_def update_chunk_def
  by (auto split: option.splits intro!: set_chunks_then links elim!: chain)

lemma pause_blocked_safe: "pause_blocked db c code = Inr db' \<Longrightarrow> safe_change db db'"
  unfolding pause_blocked_def update_chunk_def
  by (auto split: option.splits intro!: set_chunks_then elim!: chain)

lemma claim_submission_safe:
  "claim_submission env db c n seg enf = Inr (db', cl) \<Longrightarrow> safe_change db db'"
  unfolding claim_submission_def update_chunk_def
  by (auto simp: rbind_Inr_iff split: option.splits if_splits prod.splits
      intro!: set_chunks_then links elim!: mark_submitting_safe reserve_submission_budget_safe)

lemma set_attempts_of: "set (attempts_of db c) = {a \<in> set (db_attempts db). a_chunk_id a = c}"
  by (simp add: attempts_of_def)

lemma lock_send_context_SomeD:
  assumes "lock_send_context db i = Some x"
  shows "find_chunk db i = Some (lc_chunk x)" "c_id (lc_chunk x) = i"
    "find_batch db (c_batch_id (lc_chunk x)) = Some (lc_batch x)" "lc_attempts x = attempts_of db i"
  using assms by (auto simp: lock_send_context_def split: option.splits dest: find_chunk_SomeD)

lemma set_route_then: "safe_change db db1 \<Longrightarrow> safe_change db (set_route db1 c v g)"
  unfolding set_route_def by (rule set_chunks_then) auto

lemma begin_vendor_invoke_safe:
  assumes "begin_vendor_invoke db c v ad re = Inr (db', row)"
  shows "safe_change db db'"
proof -
  obtain x where x: "lock_send_context db c = Some x"
    and free: "\<not> list_ex (\<lambda>a. a_outcome a \<in> {A_submitted, A_uncertain, A_invoking, A_inconsistent})
        (lc_attempts x)"
    using assms by (auto simp: begin_vendor_invoke_def split: option.splits if_splits)
  have "\<forall>a\<in>set (db_attempts db). a_chunk_id a = c \<longrightarrow> \<not> blocking a"
    using free by (auto simp: lock_send_context_SomeD [OF x] list_ex_iff set_attempts_of blocking_def
        BLOCKING_ATTEMPT_OUTCOMES_def)
  then show ?thesis using assms x
    by (auto simp: begin_vendor_invoke_def Let_def rbind_Inr_iff split: if_splits
        intro!: set_route_then elim!: insert_attempt_safe)
qed

lemma close_attempt_safe: "close_attempt db i a = Inr db' \<Longrightarrow> safe_change db db'"
  unfolding close_attempt_def by (erule update_attempts_safe) (simp add: attempt_later_def)

lemma complete_vendor_attempt_safe:
  "complete_vendor_attempt db i out sf code = Inr (db', b) \<Longrightarrow> safe_change db db'"
  unfolding complete_vendor_attempt_def
  by (auto simp: rbind_Inr_iff attempt_later_def elim!: update_attempts_safe)

lemma record_vendor_attempt_safe:
  "record_vendor_attempt db c v g out sf code = Inr db' \<Longrightarrow> out \<notin> set BLOCKING_ATTEMPT_OUTCOMES
    \<Longrightarrow> safe_change db db'"
  unfolding record_vendor_attempt_def
  by (auto simp: rbind_Inr_iff intro!: set_route_then elim!: insert_attempt_safe)

lemma cas_then_Applied:
  assumes "cas_then (update_chunk db i p f) k = Inr (Applied db' e n)"
  obtains c where "first_row (\<lambda>c. c_id c = i \<and> p c) (db_chunks db) = Some c"
    and "k (set_chunks db (\<lambda>c. c_id c = i \<and> p c) f) c = Inr (Applied db' e n)"
  using assms by (auto simp: cas_then_def update_chunk_def split: option.splits)

lemma apply_submitted_safe: "apply_submitted env db c t = Inr (Applied db' e n) \<Longrightarrow> safe_change db db'"
  unfolding apply_submitted_def
  by (erule cas_then_Applied) (auto simp: rbind_Inr_iff intro!: set_chunks_then links elim!: chain)

lemma apply_uncertain_safe: "apply_uncertain db c = Inr (Applied db' e n) \<Longrightarrow> safe_change db db'"
  unfolding apply_uncertain_def
  by (erule cas_then_Applied) (auto simp: rbind_Inr_iff intro!: set_chunks_then elim!: chain)

lemma apply_retry_safe: "apply_retry db c a = Inr (Applied db' e n) \<Longrightarrow> safe_change db db'"
  unfolding apply_retry_def Let_def
  by (erule cas_then_Applied)
     (auto simp: rbind_Inr_iff retry_row_def DELAYED_RETRY_LIMIT_def split: option.splits if_splits
       intro!: set_chunks_then elim!: chain)

lemma apply_paused_safe: "apply_paused db c a = Inr (Applied db' e n) \<Longrightarrow> safe_change db db'"
  unfolding apply_paused_def Let_def
  by (erule cas_then_Applied)
     (auto simp: rbind_Inr_iff split: if_splits intro!: set_chunks_then links elim!: chain)

lemma apply_reject_or_fail_safe:
  assumes "apply_reject_or_fail env db x i g a r = Inr (Applied db' e n)"
  shows "safe_change db db'"
proof -
  obtain p where p: "next_action env db x i g (fa_result a) (fa_safe_to_failover a) = Inr p"
    using assms by (auto simp: apply_reject_or_fail_def Let_def rbind_Inr_iff)
  show ?thesis
  proof (cases "pn_action p = N_failover_pending")
    case True
    with assms p obtain v where "pn_next_vendor p = Some v"
      by (auto simp: apply_reject_or_fail_def Let_def split: option.splits)
    with True assms p show ?thesis
      by (simp add: apply_reject_or_fail_def Let_def)
         (erule cas_then_Applied,
          auto simp: rbind_Inr_iff failover_row_def intro!: set_chunks_then elim!: chain)
  next
    case False
    with assms p show ?thesis
      by (simp add: apply_reject_or_fail_def Let_def)
         (erule cas_then_Applied, auto simp: rbind_Inr_iff intro!: set_chunks_then elim!: chain)
  qed
qed

lemma apply_result_safe:
  "apply_result env db x i g a r = Inr (Applied db' e n) \<Longrightarrow> safe_change db db'"
  unfolding apply_result_def Let_def
  by (auto split: if_splits dest: apply_submitted_safe apply_uncertain_safe apply_retry_safe
      apply_paused_safe apply_reject_or_fail_safe)

text \<open>The cases of one finalisation: nothing is written, or the attempt is closed and the result is
  applied to the locked chunk.\<close>

lemma finalize_once_cases:
  assumes "finalize_vendor_attempt_once env db i c g a = Inr (db', r, e)"
  obtains (unchanged) "db' = db" "e = None" "fr_kind r \<noteq> K_APPLIED"
  | (applied) x attempt db1 persisted where "lock_send_context db c = Some x"
      "first_row (\<lambda>r. a_id r = i) (lc_attempts x) = Some attempt" "a_outcome attempt = A_invoking"
      "a_generation attempt = g" "c_route_generation (lc_chunk x) = g"
      "fa_result a \<in> set FINALIZE_RESULTS"
      "close_attempt db i (effective_args a (lc_chunk x)) = Inr db1"
      "apply_result env db1 x i g (effective_args a (lc_chunk x)) (retry_exhausted a (lc_chunk x))
        = Inr (Applied db' e persisted)"
      "r = applied_report (fa_result (effective_args a (lc_chunk x))) persisted"
proof -
  have nope: "classify_finalize_conflict o1 s o2 \<noteq> K_APPLIED" for o1 s o2
    by (auto simp: classify_finalize_conflict_def)
  have "(db' = db \<and> e = None \<and> fr_kind r \<noteq> K_APPLIED) \<or>
      (\<exists>x attempt. lock_send_context db c = Some x
        \<and> first_row (\<lambda>r. a_id r = i) (lc_attempts x) = Some attempt \<and> a_outcome attempt = A_invoking
        \<and> a_generation attempt = g \<and> c_route_generation (lc_chunk x) = g
        \<and> fa_result a \<in> set FINALIZE_RESULTS \<and> finalize_open env db x i g a = Inr (db', r, e))"
    using assms unfolding finalize_vendor_attempt_once_def Let_def
    by (auto simp: finalize_report_def report_from_locked_state_def Let_def nope
        split: if_splits option.splits)
  then show thesis
  proof (elim disjE exE conjE)
    assume "db' = db" "e = None" "fr_kind r \<noteq> K_APPLIED"
    then show thesis by (rule unchanged)
  next
    fix x attempt
    assume x: "lock_send_context db c = Some x"
      "first_row (\<lambda>r. a_id r = i) (lc_attempts x) = Some attempt" "a_outcome attempt = A_invoking"
      "a_generation attempt = g" "c_route_generation (lc_chunk x) = g" "fa_result a \<in> set FINALIZE_RESULTS"
    assume "finalize_open env db x i g a = Inr (db', r, e)"
    then obtain db1 ap where 1: "close_attempt db i (effective_args a (lc_chunk x)) = Inr db1"
      "apply_result env db1 x i g (effective_args a (lc_chunk x)) (retry_exhausted a (lc_chunk x)) = Inr ap"
      "(case ap of Lost_cas \<Rightarrow> Inr (db, finalize_report K_LOST_CAS
            (fa_result (effective_args a (lc_chunk x))), None)
        | Applied db2 enqueue persisted \<Rightarrow> Inr (db2, applied_report
            (fa_result (effective_args a (lc_chunk x))) persisted, enqueue)) = (Inr (db', r, e) :: _ res)"
      by (auto simp: finalize_open_def Let_def rbind_Inr_iff)
    show thesis
    proof (cases ap)
      case Lost_cas
      with 1(3) show thesis by (intro unchanged) (auto simp: finalize_report_def)
    next
      case (Applied db2 e2 p)
      with 1 have "apply_result env db1 x i g (effective_args a (lc_chunk x))
          (retry_exhausted a (lc_chunk x)) = Inr (Applied db' e p)"
        "r = applied_report (fa_result (effective_args a (lc_chunk x))) p" by auto
      then show thesis by (rule applied [OF x 1(1)])
    qed
  qed
qed

lemma finalize_once_safe:
  "finalize_vendor_attempt_once env db i c g a = Inr (db', r, e) \<Longrightarrow> safe_change db db'"
  by (erule finalize_once_cases) (auto intro: safe_trans close_attempt_safe apply_result_safe)

lemma finalize_loop_Inr: "finalize_loop n k d once = Inr y \<Longrightarrow> once = Inr y"
  by (induction n k d once rule: finalize_loop.induct) (auto split: if_splits)

lemma finalize_vendor_attempt_safe:
  "finalize_vendor_attempt d env db i c g a = Inr (db', r, e) \<Longrightarrow> safe_change db db'"
  unfolding finalize_vendor_attempt_def
  by (auto simp: rbind_Inr_iff dest!: finalize_loop_Inr finalize_once_safe)

lemma claim_passes_unblocked:
  assumes "claim_denied_reason f records ids = Inr None"
  shows "\<forall>b\<in>set (cf_blocking_outcomes f). b \<notin> set BLOCKING_ATTEMPT_OUTCOMES"
proof (rule ccontr)
  assume "\<not> ?thesis"
  then have "list_ex (\<lambda>b. b \<in> set BLOCKING_ATTEMPT_OUTCOMES) (cf_blocking_outcomes f)"
    by (auto simp: list_ex_iff)
  with assms show False
    unfolding claim_denied_reason_def by (simp split: if_splits option.splits)
qed

lemma claim_budget_safe: "claim_budget env db c a = Inr (db', s) \<Longrightarrow> safe_change db db'
    \<and> db_attempts db' = db_attempts db"
proof -
  assume *: "claim_budget env db c a = Inr (db', s)"
  have "db_attempts db' = db_attempts db" if "reserve_submission_budget db t i n k = Inr (db', cl)"
    for t i n k cl
    using that unfolding reserve_submission_budget_def update_usage_def Let_def case_prod_unfold
    by (auto simp: rbind_Inr_iff split: if_splits option.splits)
  with * show ?thesis
    by (auto simp: claim_budget_def rbind_Inr_iff split: if_splits
        dest: reserve_submission_budget_safe)
qed

lemma authorize_next_safe:
  assumes "authorize_next db c a v = Inr (db', cl)"
    and "\<forall>x\<in>set (db_attempts db). a_chunk_id x = c_id c \<longrightarrow> \<not> blocking x"
  shows "safe_change db db'"
  using assms unfolding authorize_next_def Let_def update_chunk_def
  by (auto simp: rbind_Inr_iff split: option.splits
      intro!: set_chunks_then elim!: insert_attempt_safe)

lemma claim_next_on_safe:
  assumes "claim_next_on env db x a v = Inr (db', cl)" "lc_attempts x = attempts_of db (c_id (lc_chunk x))"
  shows "safe_change db db'"
proof -
  have free: "\<forall>y\<in>set (db_attempts db). a_chunk_id y = c_id (lc_chunk x) \<longrightarrow> \<not> blocking y"
    if "claim_denied_reason (claim_facts_of x a) rs ids = Inr None" for rs ids
    using claim_passes_unblocked [OF that] assms(2)
    by (auto simp: claim_facts_of_def Let_def set_attempts_of blocking_def)
  let ?k = "rbind (claim_denied_reason (claim_facts_of x a) (se_registry env)
      (Some (se_adapter_ids env))) (\<lambda>denied. case denied of
        Some reason \<Rightarrow> Inr (db, claim_denied reason)
      | None \<Rightarrow> if \<not> retry_due db (lc_chunk x) then Inr (db, claim_denied ''retry_not_due'')
          else rbind (claim_budget env db (lc_chunk x) a) (\<lambda>(db, stop). case stop of
              Some claim \<Rightarrow> Inr (db, claim) | None \<Rightarrow> authorize_next db (lc_chunk x) a v))"
  have "db' = db \<or> ?k = Inr (db', cl)"
    using assms(1) unfolding claim_next_on_def Let_def by (auto split: option.splits)
  then show ?thesis
  proof
    assume k: "?k = Inr (db', cl)"
    have "db' = db \<or> (\<exists>db1 stop. claim_denied_reason (claim_facts_of x a) (se_registry env)
          (Some (se_adapter_ids env)) = Inr None \<and> claim_budget env db (lc_chunk x) a = Inr (db1, stop)
        \<and> (case stop of Some claim \<Rightarrow> Inr (db1, claim)
           | None \<Rightarrow> authorize_next db1 (lc_chunk x) a v) = Inr (db', cl))"
    proof -
      from k obtain d where d: "claim_denied_reason (claim_facts_of x a) (se_registry env)
          (Some (se_adapter_ids env)) = Inr d"
        and k2: "(case d of Some reason \<Rightarrow> Inr (db, claim_denied reason)
          | None \<Rightarrow> if \<not> retry_due db (lc_chunk x) then Inr (db, claim_denied ''retry_not_due'')
            else rbind (claim_budget env db (lc_chunk x) a) (\<lambda>(db, stop). case stop of
              Some claim \<Rightarrow> Inr (db, claim) | None \<Rightarrow> authorize_next db (lc_chunk x) a v)) = Inr (db', cl)"
        unfolding rbind_Inr_iff by blast
      show ?thesis
      proof (cases "d = None \<and> retry_due db (lc_chunk x)")
        case True
        with k2 have "\<exists>r. claim_budget env db (lc_chunk x) a = Inr r \<and> (case r of (db, stop) \<Rightarrow> case stop of
            Some claim \<Rightarrow> Inr (db, claim) | None \<Rightarrow> authorize_next db (lc_chunk x) a v) = Inr (db', cl)"
          by (simp add: rbind_Inr_iff)
        with d True show ?thesis by auto
      qed (use k2 in \<open>cases d; auto\<close>)
    qed
    then show ?thesis
    proof (elim disjE exE conjE)
      fix db1 stop
      assume d: "claim_denied_reason (claim_facts_of x a) (se_registry env)
          (Some (se_adapter_ids env)) = Inr None"
        and b: "claim_budget env db (lc_chunk x) a = Inr (db1, stop)"
        and e: "(case stop of Some claim \<Rightarrow> Inr (db1, claim)
          | None \<Rightarrow> authorize_next db1 (lc_chunk x) a v) = Inr (db', cl)"
      note s = claim_budget_safe [OF b]
      show ?thesis
      proof (cases stop)
        case None
        with e have "safe_change db1 db'"
          using free [OF d] s by (intro authorize_next_safe [of db1 "lc_chunk x" a v db' cl]) auto
        with s show ?thesis using safe_trans by blast
      qed (use e s in auto)
    qed simp
  qed simp
qed

lemma claim_next_vendor_invoke_safe:
  assumes "claim_next_vendor_invoke env db i a = Inr (db', cl)"
  shows "safe_change db db'"
proof -
  have "db' = db \<or> (\<exists>x v. lock_send_context db i = Some x \<and> claim_next_on env db x a v = Inr (db', cl))"
    using assms unfolding claim_next_vendor_invoke_def claim_transaction_def
    by (auto simp: rbind_Inr_iff split: sum.splits option.splits if_splits)
  then show ?thesis
    using claim_next_on_safe lock_send_context_SomeD by fastforce
qed

lemma repair_apply_safe:
  assumes "repair_apply db c i cat p = Inr (db', b)"
  shows "safe_change db db'"
proof (cases "pn_action p = N_failover_pending")
  case True
  with assms obtain v g where "pn_next_vendor p = Some v" "pn_route_generation p = Some g"
    by (auto simp: repair_apply_def split: option.splits)
  with True assms show ?thesis
    by (auto simp: repair_apply_def update_chunk_def rbind_Inr_iff failover_row_def
        split: option.splits intro!: set_chunks_then elim!: chain)
next
  case False
  with assms show ?thesis
    by (auto simp: repair_apply_def update_chunk_def rbind_Inr_iff split: option.splits
        intro!: set_chunks_then elim!: chain)
qed

lemma repair_legacy_row_safe:
  assumes "repair_legacy_row env s k = Inr s'"
  shows "safe_change (fst s) (fst s')"
  using assms unfolding repair_legacy_row_def Let_def
  by (cases s, cases k)
     (auto simp: rbind_Inr_iff split: option.splits if_splits elim!: repair_apply_safe)

lemma repair_legacy_safe:
  "repair_legacy_safe_reject_submitting env db n = Inr (db', k) \<Longrightarrow> safe_change db db'"
  unfolding repair_legacy_safe_reject_submitting_def
  using safe_foldM [where g = fst, OF _ repair_legacy_row_safe] by fastforce

lemma recover_attempt_later: "attempt_later a (recover_attempt db ids a)"
  by (auto simp: recover_attempt_def attempt_later_def repaired_attempt_def inconsistent_attempt_def
      stale_attempt_def split: option.splits)

lemma settle_chunks_uncertain_safe:
  assumes "settle_chunks_uncertain db ids = Inr (db', n)"
  shows "safe_change db db'"
proof (cases "budget_inv db")
  case True
  obtain us ts n' where "settle_chunks_uncertain db ids =
      Inr (db\<lparr>db_test_attempts := ts, db_usage := us\<rparr>, n')" "budget_ok us ts"
    using settle_chunks_uncertain_ok [OF True] by metis
  with assms show ?thesis using books_safe by auto
qed (simp add: safe_change_def send_inv_def)

lemma recover_stale_safe:
  assumes "recover_stale db = Inr db'"
  shows "safe_change db db'"
proof -
  define ids where "ids = recovery_candidates db"
  let ?db1 = "set_chunks db (stale_chunk db ids) (uncertain_row db)"
  obtain db2 n where 1: "write_attempts ?db1 (map (recover_attempt db ids) (db_attempts db)) = Inr db2"
    "settle_chunks_uncertain db2 (map c_id (filter (stale_chunk db ids) (db_chunks db))) = Inr (db', n)"
    using assms by (auto simp: recover_stale_def Let_def rbind_Inr_iff ids_def)
  have "safe_change db ?db1" by (rule set_chunks_safe) (simp add: uncertain_row_def)
  moreover have "safe_change ?db1 db2"
    using 1(1) recover_attempt_later
    by (intro map_attempts_safe [of _ "recover_attempt db ids"]) (simp_all add: set_chunks_def)
  ultimately show ?thesis using settle_chunks_uncertain_safe [OF 1(2)] safe_trans by blast
qed

lemma insert_chunk_then:
  assumes "insert_chunk db1 c = Inr db2" "c_retry_count c = 0" "safe_change db db1"
  shows "safe_change db db2"
proof -
  have db2: "db2 = db1\<lparr>db_chunks := db_chunks db1 @ [c]\<rparr>"
    using assms(1) by (auto simp: insert_chunk_def split: if_splits)
  have "safe_change db1 db2"
    using assms(2) by (auto simp: safe_change_def send_inv_def db2 retries_ok_def
        DELAYED_RETRY_LIMIT_def intro: send_later_same)
  with assms(3) show ?thesis by (rule safe_trans)
qed

lemma plan_links:
  "safe_change db db1 \<Longrightarrow> safe_change db (assign_messages db1 c rows)"
  "safe_change db db1 \<Longrightarrow> safe_change db (allocate db1 ua)"
  "safe_change db db1 \<Longrightarrow> safe_change db (mark_sending db1 b)"
  "safe_change db db1 \<Longrightarrow> safe_change db (clear_allocation db1 c)"
proof -
  have "safe_change db1 (allocate db1 ua)" "safe_change db1 (clear_allocation db1 c)"
    by (rule same_view_safe, simp add: same_view_def allocate_def clear_allocation_def)+
  then show "safe_change db db1 \<Longrightarrow> safe_change db (allocate db1 ua)"
    "safe_change db db1 \<Longrightarrow> safe_change db (clear_allocation db1 c)"
    using safe_trans by blast+
qed (auto simp: assign_messages_def mark_sending_def intro: links)

lemma plan_group_safe:
  assumes "plan_group b s k = Inr s'"
  shows "safe_change (fst s) (fst s')"
  using assms unfolding plan_group_def Let_def
  by (cases s, cases k)
     (auto simp: rbind_Inr_iff new_chunk_def intro!: plan_links elim!: insert_chunk_then)

lemma plan_new_chunks_safe:
  assumes "plan_new_chunks db b n = Inr (db', ids)"
  shows "safe_change db db'"
proof -
  obtain s where s: "foldM (plan_group b) (db, [])
      (numbered_groups n (unplanned_messages db (b_id b))) = Inr s"
    and m: "materialize_in_flight_reservation (mark_sending (fst s) (b_id b)) (b_id b)
      (int (length (batch_chunks (mark_sending (fst s) (b_id b)) (b_id b))))
      (app_limit (mark_sending (fst s) (b_id b)) b) = Inr db'"
    using assms by (auto simp: plan_new_chunks_def Let_def rbind_Inr_iff)
  have "safe_change db (fst s)" using safe_foldM [where g = fst, OF s plan_group_safe] by simp
  then have "safe_change db (mark_sending (fst s) (b_id b))" by (rule plan_links)
  then show ?thesis
    using ledger_tables_safe [OF materialize_in_flight_reservation_tables [OF m]] safe_trans by blast
qed

lemma prepare_chunks_safe:
  assumes "prepare_chunks db no n = Inr (db', r)"
  shows "safe_change db db'"
  using assms unfolding prepare_chunks_def Let_def
  by (auto simp: rbind_Inr_iff split: option.splits if_splits
      intro: plan_links elim!: chain dest!: plan_new_chunks_safe)

lemma settle_split_then:
  "settle_split_vendor_attempt db1 c = Inr db2 \<Longrightarrow> safe_change db db1 \<Longrightarrow> safe_change db db2"
  unfolding settle_split_vendor_attempt_def
  by (rule safe_trans) (assumption, erule update_attempts_safe, simp add: attempt_later_def)

lemma mark_split_capacity_blocked_then:
  "mark_split_capacity_blocked db1 c = Inr db2 \<Longrightarrow> safe_change db db1 \<Longrightarrow> safe_change db db2"
  unfolding mark_split_capacity_blocked_def update_chunk_def
  by (auto simp: rbind_Inr_iff split: option.splits
      intro!: set_chunks_then elim!: chain settle_split_then)

lemma split_child_safe:
  assumes "split_child b p cu s k = Inr s'"
  shows "safe_change (fst s) (fst s')"
  using assms unfolding split_child_def Let_def
  by (cases s, cases k)
     (auto simp: rbind_Inr_iff new_chunk_def split: if_splits intro!: plan_links elim!: insert_chunk_then)

lemma create_children_then:
  assumes "create_children db1 b p cu = Inr (db2, ids)" "safe_change db db1"
  shows "safe_change db db2"
proof -
  define gs where "gs = [(1 :: int, fold max (map c_chunk_no (batch_chunks db1 (b_id b))) 0 + 1,
      take ((length (chunk_messages db1 p) + 1) div 2) (chunk_messages db1 p)),
    (2, fold max (map c_chunk_no (batch_chunks db1 (b_id b))) 0 + 1 + 1,
      drop ((length (chunk_messages db1 p) + 1) div 2) (chunk_messages db1 p))]"
  obtain s where s: "foldM (split_child b p cu) (db1, []) gs = Inr s"
    and e: "enqueue_chunk_ready (clear_allocation (fst s) p) (snd s) (lane_for (b_category b)) = Inr db2"
    using assms(1) unfolding create_children_def Let_def gs_def [symmetric]
    by (auto simp: rbind_Inr_iff)
  have "safe_change db1 (fst s)" using safe_foldM [where g = fst, OF s split_child_safe] by simp
  with assms(2) have "safe_change db (fst s)" by (rule safe_trans)
  then show ?thesis by (intro enqueue_then [OF e] plan_links)
qed

lemma create_split_children_then:
  assumes "create_split_children db1 c b cu = Inr (db2, ids)" "safe_change db db1"
  shows "safe_change db db2"
  using assms unfolding create_split_children_def update_chunk_def
  by (auto simp: rbind_Inr_iff split: option.splits if_splits
      intro!: set_chunks_then elim!: create_children_then settle_split_then chain)

lemma try_expand_tables:
  assumes "try_expand db b = Inr (db', x)"
  shows "ledger_tables db db'"
  using assms unfolding try_expand_def
  by (auto split: option.splits sum.splits exn.splits if_splits
      dest: expand_in_flight_for_split_tables)

lemma complete_vendor_split_safe:
  assumes "complete_vendor_split db c b cu = Inr (db', ids)"
  shows "safe_change db db'"
  using assms unfolding complete_vendor_split_def Let_def
  by (auto simp: rbind_Inr_iff split: option.splits if_splits
      elim!: create_split_children_then mark_split_capacity_blocked_then
      dest!: try_expand_tables ledger_tables_safe)

lemma retry_split_row_safe:
  "retry_split_row s c = Inr s' \<Longrightarrow> safe_change (fst s) (fst s')"
  by (cases s) (auto simp: retry_split_row_def rbind_Inr_iff split: if_splits
      dest!: complete_vendor_split_safe)

lemma retry_capacity_blocked_splits_safe:
  "retry_capacity_blocked_splits db n = Inr (db', k) \<Longrightarrow> safe_change db db'"
  unfolding retry_capacity_blocked_splits_def
  using safe_foldM [where g = fst, OF _ retry_split_row_safe] by fastforce

section \<open>Steps\<close>

text \<open>Any transaction of the store, with any environment; attempts outside the store are recorded only
  as cancelled. Other parts of the platform change neither the attempts nor the live-test books, and
  leave retry counts alone.\<close>

inductive send_step :: "db \<Rightarrow> db \<Rightarrow> bool" where
  release_unsent: "release_unsent db c = Inr db' \<Longrightarrow> send_step db db'"
| release_control_claim: "release_control_claim db c = Inr db' \<Longrightarrow> send_step db db'"
| claim_submission: "claim_submission env db c n seg enf = Inr (db', cl) \<Longrightarrow> send_step db db'"
| mark_submitted: "mark_submitted env db c t = Inr db' \<Longrightarrow> send_step db db'"
| mark_failed: "mark_failed db c code m = Inr db' \<Longrightarrow> send_step db db'"
| reject_disallowed: "reject_disallowed_recipient db c n = Inr db' \<Longrightarrow> send_step db db'"
| defer_daily_limit: "defer_daily_limit env db c lane at = Inr (db', msg) \<Longrightarrow> send_step db db'"
| mark_uncertain: "mark_uncertain db c = Inr db' \<Longrightarrow> send_step db db'"
| schedule_retry: "schedule_retry db c code n d = Inr (db', msg) \<Longrightarrow> send_step db db'"
| delay_chunk: "delay_chunk db c code d = Inr (db', msg) \<Longrightarrow> send_step db db'"
| balance_blocked: "balance_blocked_chunk db b c = Inr db' \<Longrightarrow> send_step db db'"
| pause_blocked: "pause_blocked db c code = Inr db' \<Longrightarrow> send_step db db'"
| begin_invoke: "begin_vendor_invoke db c v ad re = Inr (db', row) \<Longrightarrow> send_step db db'"
| finalize: "finalize_vendor_attempt dl env db i c g a = Inr (db', r, e) \<Longrightarrow> send_step db db'"
| complete_attempt: "complete_vendor_attempt db i out sf vcode = Inr (db', b) \<Longrightarrow> send_step db db'"
| cancelled: "record_vendor_attempt db c v g A_cancelled_before_invoke sf vcode = Inr db'
    \<Longrightarrow> send_step db db'"
| claim_next: "claim_next_vendor_invoke env db i ca = Inr (db', ic) \<Longrightarrow> send_step db db'"
| repair_legacy: "repair_legacy_safe_reject_submitting env db lim = Inr (db', k) \<Longrightarrow> send_step db db'"
| prepare: "prepare_chunks db no bs = Inr (db', pr) \<Longrightarrow> send_step db db'"
| split: "complete_vendor_split db c b cu = Inr (db', ids) \<Longrightarrow> send_step db db'"
| retry_splits: "retry_capacity_blocked_splits db lim = Inr (db', k) \<Longrightarrow> send_step db db'"
| recover: "recover_stale db = Inr db' \<Longrightarrow> send_step db db'"
| outside: "same_view db db' \<Longrightarrow> send_step db db'"

lemma send_step_safe: "send_step db db' \<Longrightarrow> safe_change db db'"
  by (induction rule: send_step.induct)
     (auto intro: release_unsent_safe release_control_claim_safe claim_submission_safe
       mark_submitted_safe mark_failed_safe reject_disallowed_recipient_safe defer_daily_limit_safe
       mark_uncertain_safe schedule_retry_safe delay_chunk_safe balance_blocked_chunk_safe
       pause_blocked_safe begin_vendor_invoke_safe finalize_vendor_attempt_safe
       complete_vendor_attempt_safe claim_next_vendor_invoke_safe repair_legacy_safe
       prepare_chunks_safe complete_vendor_split_safe retry_capacity_blocked_splits_safe
       recover_stale_safe same_view_safe
       record_vendor_attempt_safe simp: BLOCKING_ATTEMPT_OUTCOMES_def)

interpretation sending: monotone_system send_step send_inv send_later
  by unfold_locales
     (use send_step_safe send_later_trans in \<open>auto simp: safe_change_def\<close>)

section \<open>Properties\<close>

text \<open>C2: across all providers and all attempts of a chunk, at most one attempt may have reached a
  provider (it is submitted, uncertain, inconsistent, or its call is open), in every state that any
  interleaving of the store's transactions with the rest of the platform can reach.\<close>

theorem single_reaching_attempt:
  assumes "send_step\<^sup>*\<^sup>* db db'" "send_inv db"
    and "x \<in> set (db_attempts db')" "y \<in> set (db_attempts db')" "a_chunk_id x = a_chunk_id y"
    and "a_outcome x \<in> set BLOCKING_ATTEMPT_OUTCOMES" "a_outcome y \<in> set BLOCKING_ATTEMPT_OUTCOMES"
  shows "x = y"
proof -
  have "distinct (map a_chunk_id (filter blocking (db_attempts db')))"
    using sending.run_inv [OF assms(1,2)] by (simp add: send_inv_def attempts_ok_def)
  with assms(3-7) show ?thesis by (auto simp: distinct_map inj_on_def blocking_def)
qed

text \<open>C5: once an attempt is submitted, uncertain or inconsistent, its chunk is never invoked again. The
  attempt stays in the table unchanged whatever happens later, and no other attempt of the chunk is
  ever open or may have reached a provider.\<close>

theorem reached_chunk_is_never_invoked_again:
  assumes "send_step\<^sup>*\<^sup>* db db'" "send_inv db" "a \<in> set (db_attempts db)"
    and "a_outcome a \<in> {A_submitted, A_uncertain, A_inconsistent}"
  shows "a \<in> set (db_attempts db') \<and>
    (\<forall>x\<in>set (db_attempts db'). a_chunk_id x = a_chunk_id a \<and> x \<noteq> a
       \<longrightarrow> a_outcome x \<notin> set BLOCKING_ATTEMPT_OUTCOMES)"
proof -
  obtain a' where "a' \<in> set (db_attempts db')" "attempt_later a a'"
    using sending.run_rel [OF assms(1,2)] assms(3) by (auto simp: send_later_def)
  with assms(4) have a: "a \<in> set (db_attempts db')" by (auto simp: attempt_later_def)
  have "distinct (map a_chunk_id (filter blocking (db_attempts db')))"
    using sending.run_inv [OF assms(1,2)] by (simp add: send_inv_def attempts_ok_def)
  moreover have "blocking a" using assms(4) by (auto simp: blocking_def BLOCKING_ATTEMPT_OUTCOMES_def)
  ultimately show ?thesis using a by (auto simp: distinct_map inj_on_def blocking_def)
qed

text \<open>C9: the live-test books. In every reachable state each usage row equals the sum of the ledger of
  its day, split by settlement, and the day is within its limit.\<close>

theorem live_test_books_exact:
  assumes "send_step\<^sup>*\<^sup>* db db'" "send_inv db" "u \<in> set (db_usage db')"
  shows "u_in_flight u = spent T_reserved (u_date u) (db_test_attempts db')
    \<and> u_confirmed u = spent T_confirmed (u_date u) (db_test_attempts db')
    \<and> u_uncertain u = spent T_uncertain (u_date u) (db_test_attempts db')
    \<and> u_in_flight u + u_confirmed u + u_uncertain u \<le> LIVE_TEST_DAILY_SEGMENT_LIMIT"
  using sending.run_inv [OF assms(1,2)] assms(3)
  by (auto simp: send_inv_def budget_ok_def usage_exact_def)

text \<open>C10: no chunk is retried more often than the limit on delayed retries.\<close>

theorem retry_count_is_bounded:
  assumes "send_step\<^sup>*\<^sup>* db db'" "send_inv db" "c \<in> set (db_chunks db')"
  shows "0 \<le> c_retry_count c \<and> c_retry_count c \<le> DELAYED_RETRY_LIMIT"
  using sending.run_inv [OF assms(1,2)] assms(3) by (auto simp: send_inv_def retries_ok_def)

section \<open>A run\<close>

definition example_chunk :: sms_chunk where
  "example_chunk = (new_chunk (empty_db 0) 1 1 ''b1'' 2 None)
     \<lparr>c_id := 7, c_status := C_pending\<rparr>"

definition example_batch :: sms_batch where
  "example_batch = \<lparr>b_id = 1, b_batch_no = ''b1'', b_app_id = None, b_biz_id = None,
     b_status = B_sending, b_category = ''notice'', b_policy_version = 1, b_reservation_id = None,
     b_segments = 1, b_usage_reservation_id = None, b_delivered = 0, b_failed = 0,
     b_unknown_cnt = 0, b_active_count = None, b_updated_at = 0, b_sign_name = [91, 65, 93],
     b_content = [72, 105], b_template = [], b_is_test = False\<rparr>"

definition example_message :: "int \<Rightarrow> sms_message" where
  "example_message i = \<lparr>m_id = i, m_created_at = 0, m_batch_id = 1, m_chunk_id = Some 7,
     m_status = M_pending, m_report_event_key = None, m_report_status = None,
     m_report_time = None, m_report_desc = None, m_phone = ''1380000000'' @ str_int i,
     m_phone_hmac = ''h'' @ str_int i\<rparr>"

definition example_send :: db where
  "example_send = (empty_db 0)\<lparr>db_batches := [example_batch], db_chunks := [example_chunk],
     db_messages := [example_message 1, example_message 2]\<rparr>"

definition example_env :: store_env where
  "example_env = \<lparr>se_registry = example_records, se_adapter_ids = [''zhihui'', ''backup''],
     se_vendor_live_test = False, se_clock = 0, se_denied = (\<lambda>_ _. 0), se_pseudonym = (\<lambda>t. t)\<rparr>"

text \<open>Claim the chunk with the live-test budget, begin the call, and lose the answer.\<close>

definition example_run :: "db res" where
  "example_run =
     rbind (claim_submission example_env example_send 7 0 2 True) (\<lambda>(db, _).
     rbind (begin_vendor_invoke db 7 ''zhihui'' ''zhihui'' ''first'') (\<lambda>(db, row).
     rbind (finalize_vendor_attempt (\<lambda>_. False) example_env db (ar_id row) 7 (ar_generation row)
              (finalize_defaults A_uncertain)) (\<lambda>(db, _). Inr db)))"

lemma example_run_steps: "example_run = Inr db' \<Longrightarrow> send_step\<^sup>*\<^sup>* example_send db'"
  unfolding example_run_def
  by (auto simp: rbind_Inr_iff dest!: send_step.claim_submission send_step.begin_invoke
      send_step.finalize)

lemma example_run_result:
  obtains db' where "example_run = Inr db'" "map a_outcome (db_attempts db') = [A_uncertain]"
    "map c_status (db_chunks db') = [C_uncertain]" "map u_uncertain (db_usage db') = [2]"
proof -
  have "(case example_run of Inl _ \<Rightarrow> False | Inr db' \<Rightarrow>
      map a_outcome (db_attempts db') = [A_uncertain]
     \<and> map c_status (db_chunks db') = [C_uncertain] \<and> map u_uncertain (db_usage db') = [2])"
    by code_simp
  then show ?thesis using that by (simp split: sum.splits)
qed

lemma example_send_inv: "send_inv example_send"
  by (simp add: send_inv_def example_send_def empty_db_def attempts_ok_def attempt_keys_def
      retries_ok_def budget_ok_def ledger_keys_def example_chunk_def new_chunk_def
      DELAYED_RETRY_LIMIT_def)

lemma single_reaching_attempt_witness:
  "\<exists>db' a. send_step\<^sup>*\<^sup>* example_send db' \<and> a_outcome a = A_uncertain \<and>
     {y \<in> set (db_attempts db'). a_chunk_id y = a_chunk_id a
        \<and> a_outcome y \<in> set BLOCKING_ATTEMPT_OUTCOMES} = {a}"
proof -
  obtain db' where r: "example_run = Inr db'" "map a_outcome (db_attempts db') = [A_uncertain]"
    "map c_status (db_chunks db') = [C_uncertain]" "map u_uncertain (db_usage db') = [2]"
    by (rule example_run_result)
  then obtain a where a: "a \<in> set (db_attempts db')" "a_outcome a = A_uncertain" by auto
  have "y = a" if "y \<in> set (db_attempts db')" "a_chunk_id y = a_chunk_id a"
    "a_outcome y \<in> set BLOCKING_ATTEMPT_OUTCOMES" for y
    using single_reaching_attempt [OF example_run_steps [OF r(1)] example_send_inv that(1) a(1) that(2,3)]
      a(2) by (simp add: BLOCKING_ATTEMPT_OUTCOMES_def)
  with a have "{y \<in> set (db_attempts db'). a_chunk_id y = a_chunk_id a
        \<and> a_outcome y \<in> set BLOCKING_ATTEMPT_OUTCOMES} = {a}"
    by (auto simp: BLOCKING_ATTEMPT_OUTCOMES_def)
  with a(2) example_run_steps [OF r(1)] show ?thesis by blast
qed

text \<open>The run continues: recovery sweeps the state an hour later.\<close>

definition example_later :: "db res" where
  "example_later = rbind example_run (\<lambda>db. recover_stale (db\<lparr>db_now := 4 * 3600 * 1000000\<rparr>))"

lemma example_later_result:
  "\<exists>db db'. example_run = Inr db \<and> recover_stale (db\<lparr>db_now := 4 * 3600 * 1000000\<rparr>) = Inr db'
     \<and> db_attempts db \<noteq> [] \<and> (\<forall>a\<in>set (db_attempts db). a_outcome a = A_uncertain)"
proof -
  have "(case example_later of Inl _ \<Rightarrow> False | Inr db' \<Rightarrow> True)" by code_simp
  then obtain db db' where r: "example_run = Inr db"
    "recover_stale (db\<lparr>db_now := 4 * 3600 * 1000000\<rparr>) = Inr db'"
    by (cases example_later) (auto simp: example_later_def rbind_Inr_iff)
  obtain db1 where d: "example_run = Inr db1" "map a_outcome (db_attempts db1) = [A_uncertain]"
    by (rule example_run_result)
  have "db1 = db" using trans [OF sym [OF d(1)] r(1)] by (rule Inr_inject)
  with d(2) have "db_attempts db \<noteq> []" "\<forall>a\<in>set (db_attempts db). a_outcome a = A_uncertain" by auto
  with r show ?thesis by blast
qed

lemma reached_chunk_is_never_invoked_again_witness:
  "\<exists>db db' a. send_step\<^sup>*\<^sup>* db db' \<and> a \<in> set (db_attempts db') \<and> a_outcome a = A_uncertain
     \<and> {x \<in> set (db_attempts db'). a_chunk_id x = a_chunk_id a \<and> x \<noteq> a
          \<and> a_outcome x \<in> set BLOCKING_ATTEMPT_OUTCOMES} = {}"
proof -
  obtain db db' where r: "example_run = Inr db" "recover_stale (db\<lparr>db_now := 4 * 3600 * 1000000\<rparr>) = Inr db'"
    "db_attempts db \<noteq> []" and u: "\<forall>a\<in>set (db_attempts db). a_outcome a = A_uncertain"
    using example_later_result by blast
  have "same_view db (db\<lparr>db_now := 4 * 3600 * 1000000\<rparr>)" by (simp add: same_view_def)
  with r(2) have steps: "send_step\<^sup>*\<^sup>* db db'"
    by (meson send_step.outside send_step.recover rtranclp.rtrancl_into_rtrancl rtranclp.rtrancl_refl)
  have i: "send_inv db" using sending.run_inv [OF example_run_steps [OF r(1)] example_send_inv] .
  obtain a where a: "a \<in> set (db_attempts db)" using r(3) by (cases "db_attempts db") auto
  with u have "a_outcome a = A_uncertain" by blast
  then show ?thesis
    using reached_chunk_is_never_invoked_again [OF steps i a] steps by fastforce
qed

lemma live_test_books_exact_witness:
  "\<exists>db' u. send_step\<^sup>*\<^sup>* example_send db' \<and> u \<in> set (db_usage db') \<and> u_uncertain u = 2
     \<and> spent T_uncertain (u_date u) (db_test_attempts db') = 2"
proof -
  obtain db' where r: "example_run = Inr db'" "map a_outcome (db_attempts db') = [A_uncertain]"
    "map c_status (db_chunks db') = [C_uncertain]" "map u_uncertain (db_usage db') = [2]"
    by (rule example_run_result)
  then obtain u where u: "u \<in> set (db_usage db')" "u_uncertain u = 2" by auto
  then show ?thesis
    using live_test_books_exact [OF example_run_steps [OF r(1)] example_send_inv u(1)]
      example_run_steps [OF r(1)] by force
qed

lemma retry_count_is_bounded_witness:
  "\<exists>db' c. send_step\<^sup>*\<^sup>* example_send db' \<and> c \<in> set (db_chunks db')
     \<and> c_retry_count c \<le> DELAYED_RETRY_LIMIT"
proof -
  obtain db' where r: "example_run = Inr db'" "map a_outcome (db_attempts db') = [A_uncertain]"
    "map c_status (db_chunks db') = [C_uncertain]" "map u_uncertain (db_usage db') = [2]"
    by (rule example_run_result)
  then obtain c where "c \<in> set (db_chunks db')" by auto
  then show ?thesis
    using retry_count_is_bounded [OF example_run_steps [OF r(1)] example_send_inv]
      example_run_steps [OF r(1)] by blast
qed

end
