(* ===== verification/Send_Finalize.thy ===== *)
theory Send_Finalize
  imports Send_Invariants
begin

text \<open>
  Recording a provider's answer (\<open>finalize_vendor_attempt\<close>), seen from the outside: it is atomic, what
  it reports is what the database holds, and repeating it changes nothing. The transaction closes
  the attempt and moves the chunk; everything it does besides leaves chunks and attempts alone
  (\<open>keeps\<close>).
\<close>

section \<open>What the rest of the transaction keeps\<close>

definition keeps :: "db \<Rightarrow> db \<Rightarrow> bool" where
  "keeps db db' \<longleftrightarrow> db_chunks db' = db_chunks db \<and> db_attempts db' = db_attempts db
     \<and> map b_id (db_batches db') = map b_id (db_batches db)"

lemma keeps_refl [simp]: "keeps db db"
  by (simp add: keeps_def)

lemma keeps_trans: "keeps a b \<Longrightarrow> keeps b c \<Longrightarrow> keeps a c"
  by (simp add: keeps_def)

lemma keeps_links:
  "keeps db db1 \<Longrightarrow> (\<And>b. b_id (g b) = b_id b) \<Longrightarrow> keeps db (set_batches db1 q g)"
  "keeps db db1 \<Longrightarrow> keeps db (touch_batch db1 i)"
  "keeps db db1 \<Longrightarrow> keeps db (update_messages db1 r h)"
  "keeps db db1 \<Longrightarrow> keeps db (mark_sent db1 i)"
  "keeps db db1 \<Longrightarrow> keeps db (log_request db1 rq)"
  by (simp_all add: keeps_def set_batches_def touch_batch_def update_messages_def mark_sent_def
      log_request_def map_update_rows)

lemma settle_keeps:
  assumes "settle db1 c s = Inr db2" "keeps db db1"
  shows "keeps db db2"
proof -
  have "keeps db1 db2"
    using assms(1) unfolding settle_def settle_live_test_attempt_def
    by (auto simp: rbind_Inr_iff keeps_def Let_def update_usage_def split: option.splits if_splits)
  with assms(2) show ?thesis by (rule keeps_trans)
qed

lemma foldM_keeps:
  assumes "foldM f db xs = Inr db'" "\<And>db x db'. f db x = Inr db' \<Longrightarrow> keeps db db'"
  shows "keeps db db'"
  using assms by (induction xs arbitrary: db) (auto simp: rbind_Inr_iff, use keeps_trans in blast)

lemma enqueue_one_ready_keeps: "enqueue_one_ready lane db i = Inr db' \<Longrightarrow> keeps db db'"
  by (auto simp: enqueue_one_ready_def rbind_Inr_iff rearm_event_def set_event_def keeps_def
      elim!: enqueue_outbox_tables)

lemma enqueue_keeps:
  "enqueue_chunk_ready db1 ids lane = Inr db2 \<Longrightarrow> keeps db db1 \<Longrightarrow> keeps db db2"
  unfolding enqueue_chunk_ready_def using foldM_keeps enqueue_one_ready_keeps keeps_trans by meson

lemma release_keeps:
  "request_inflight_release_for_batch db1 b r = Inr (db2, x) \<Longrightarrow> keeps db db1 \<Longrightarrow> keeps db db2"
  using request_inflight_release_for_batch_tables [THEN ledger_tablesD(1)]
    request_inflight_release_for_batch_tables [THEN ledger_tablesD(4)]
    request_inflight_release_for_batch_tables [THEN ledger_tablesD(6)]
  unfolding keeps_def by metis

lemma aggregate_batch_id [simp]: "b_id (aggregate_batch db i b) = b_id b"
  by (simp add: aggregate_batch_def Let_def)

lemma finish_batch_keeps: "finish_batch db1 b = Inr db2 \<Longrightarrow> keeps db db1 \<Longrightarrow> keeps db db2"
  unfolding finish_batch_def Let_def
  by (auto simp: rbind_Inr_iff split: if_splits option.splits intro!: keeps_links elim!: release_keeps)

lemma finalize_failed_messages_keeps:
  "finalize_failed_messages db1 c b = Inr db2 \<Longrightarrow> keeps db db1 \<Longrightarrow> keeps db db2"
  unfolding finalize_failed_messages_def Let_def
  by (auto simp: rbind_Inr_iff split: if_splits intro!: keeps_links elim!: finish_batch_keeps)

lemmas keeping = settle_keeps enqueue_keeps finalize_failed_messages_keeps

section \<open>The chunk after a compare-and-set\<close>

lemma find_chunk_cas:
  assumes "distinct (map c_id (db_chunks db))" "c \<in> set (db_chunks db)" "c_id c = i" "p c"
    and "\<And>c. c_id (f c) = c_id c"
  shows "find_chunk db i = Some c" "find_chunk (set_chunks db (\<lambda>c. c_id c = i \<and> p c) f) i = Some (f c)"
proof -
  show c: "find_chunk db i = Some c"
    using first_row_unique [of c_id "db_chunks db" c] assms(1-3) by (simp add: find_chunk_def)
  then show "find_chunk (set_chunks db (\<lambda>c. c_id c = i \<and> p c) f) i = Some (f c)"
    using first_row_update_rows [of c_id f] assms(3-5)
    by (simp add: find_chunk_def set_chunks_def)
qed

text \<open>\<open>now_is db i R db'\<close>: the attempts are as before, and \<open>R\<close> relates the chunk \<open>i\<close> before and after.\<close>

definition now_is :: "db \<Rightarrow> int \<Rightarrow> (sms_chunk \<Rightarrow> sms_chunk \<Rightarrow> bool) \<Rightarrow> db \<Rightarrow> bool" where
  "now_is db i R db' \<longleftrightarrow> db_attempts db' = db_attempts db \<and>
     map b_id (db_batches db') = map b_id (db_batches db) \<and>
     (\<exists>c c'. find_chunk db i = Some c \<and> find_chunk db' i = Some c' \<and> R c c')"

lemma cas_effect:
  assumes "cas_then (update_chunk db i p f) k = Inr (Applied db' e n)"
    and "distinct (map c_id (db_chunks db))" "\<And>c. c_id (f c) = c_id c" "\<And>c. p c \<Longrightarrow> R c (f c)"
    and "\<And>db1 c. k db1 c = Inr (Applied db' e n) \<Longrightarrow> keeps db1 db'"
  shows "now_is db i R db'"
proof -
  obtain c where c: "first_row (\<lambda>c. c_id c = i \<and> p c) (db_chunks db) = Some c"
    and k: "k (set_chunks db (\<lambda>c. c_id c = i \<and> p c) f) c = Inr (Applied db' e n)"
    by (rule cas_then_Applied [OF assms(1)])
  from c have c': "c \<in> set (db_chunks db)" "c_id c = i" "p c" by (auto dest: first_row_SomeD)
  have "find_chunk db' i = find_chunk (set_chunks db (\<lambda>c. c_id c = i \<and> p c) f) i"
    "db_attempts db' = db_attempts db" "map b_id (db_batches db') = map b_id (db_batches db)"
    using assms(5) [OF k] by (simp_all add: keeps_def find_chunk_def set_chunks_def)
  with find_chunk_cas [where p = p and f = f, OF assms(2) c' assms(3)] assms(4) [OF c'(3)] show ?thesis
    by (auto simp: now_is_def)
qed

text \<open>Which status a recorded result leaves.\<close>

fun agrees :: "attempt_outcome \<Rightarrow> chunk_status \<Rightarrow> bool" where
  "agrees A_submitted s \<longleftrightarrow> s = C_submitted"
| "agrees A_uncertain s \<longleftrightarrow> s = C_uncertain"
| "agrees A_retry_scheduled s \<longleftrightarrow> s = C_retrying"
| "agrees A_delayed s \<longleftrightarrow> s = C_retrying"
| "agrees A_paused s \<longleftrightarrow> s = C_retrying"
| "agrees A_rejected s \<longleftrightarrow> s = C_failed \<or> s = C_failover_pending"
| "agrees A_failed s \<longleftrightarrow> s = C_failed"
| "agrees o' s \<longleftrightarrow> False"

definition result_of :: "finalize_args \<Rightarrow> bool \<Rightarrow> sms_chunk \<Rightarrow> sms_chunk \<Rightarrow> bool" where
  "result_of a ran_out c c' \<longleftrightarrow> is_submitting c \<and> agrees (fa_result a) (c_status c')
     \<and> c_batch_id c' = c_batch_id c \<and> c_route_generation c' = c_route_generation c
     \<and> (ran_out \<and> fa_result a = A_failed \<longrightarrow> c_vendor_msg c' = Some DELAYED_RETRY_EXHAUSTED)"

lemma apply_submitted_effect:
  assumes "apply_submitted env db i t = Inr (Applied db' e n)" "distinct (map c_id (db_chunks db))"
    "fa_result a = A_submitted"
  shows "now_is db i (result_of a ro) db'"
  using assms(1) unfolding apply_submitted_def
  by (rule cas_effect)
     (auto simp: assms(2,3) result_of_def rbind_Inr_iff intro: keeps_links elim!: keeping)

lemma apply_uncertain_effect:
  assumes "apply_uncertain db i = Inr (Applied db' e n)" "distinct (map c_id (db_chunks db))"
    "fa_result a = A_uncertain"
  shows "now_is db i (result_of a ro) db'"
  using assms(1) unfolding apply_uncertain_def
  by (rule cas_effect)
     (auto simp: assms(2,3) result_of_def rbind_Inr_iff intro: keeps_links elim!: keeping)

lemma apply_retry_effect:
  assumes "apply_retry db i a = Inr (Applied db' e n)" "distinct (map c_id (db_chunks db))"
    "fa_result a \<in> {A_retry_scheduled, A_delayed}"
  shows "now_is db i (result_of a ro) db'"
  using assms(1) unfolding apply_retry_def Let_def
  by (rule cas_effect)
     (use assms(2,3) in \<open>auto simp: result_of_def retry_row_def rbind_Inr_iff split: option.splits
        elim!: keeping\<close>)

lemma apply_paused_effect:
  assumes "apply_paused db i a = Inr (Applied db' e n)" "distinct (map c_id (db_chunks db))"
    "fa_result a = A_paused"
  shows "now_is db i (result_of a ro) db'"
  using assms(1) unfolding apply_paused_def Let_def
  by (rule cas_effect)
     (auto simp: assms(2,3) result_of_def rbind_Inr_iff split: if_splits intro!: keeps_links
        elim!: keeping)

lemma apply_reject_or_fail_effect:
  assumes "apply_reject_or_fail env db x j g a r = Inr (Applied db' e n)"
    "distinct (map c_id (db_chunks db))" "fa_result a \<in> {A_rejected, A_failed}"
    "c_route_generation (lc_chunk x) = g" "find_chunk db (c_id (lc_chunk x)) = Some (lc_chunk x)"
    "r = (if ro then Some DELAYED_RETRY_EXHAUSTED else None)"
  shows "now_is db (c_id (lc_chunk x)) (result_of a ro) db'"
proof -
  obtain p where p: "next_action env db x j g (fa_result a) (fa_safe_to_failover a) = Inr p"
    using assms(1) by (auto simp: apply_reject_or_fail_def Let_def rbind_Inr_iff)
  show ?thesis
  proof (cases "pn_action p = N_failover_pending")
    case True
    with p have rej: "fa_result a = A_rejected"
      using assms(3) by (auto simp: next_action_def Let_def split: if_splits)
    obtain v where v: "pn_next_vendor p = Some v"
      using True assms(1) p by (auto simp: apply_reject_or_fail_def Let_def split: option.splits)
    let ?R = "\<lambda>c c'. c = lc_chunk x \<longrightarrow> result_of a ro c c'"
    have "now_is db (c_id (lc_chunk x)) ?R db'"
      using assms(1) unfolding apply_reject_or_fail_def Let_def p
      by (simp add: True v)
         (erule cas_effect, use assms(2,4) rej in \<open>auto simp: failover_row_def result_of_def rbind_Inr_iff
            elim!: keeping\<close>)
    then show ?thesis using assms(5) by (auto simp: now_is_def)
  next
    case False
    then show ?thesis
      using assms(1) unfolding apply_reject_or_fail_def Let_def p
      by simp
         (erule cas_effect, use assms(2,3,6) in \<open>auto simp: result_of_def rbind_Inr_iff
            elim!: keeping\<close>)
  qed
qed

lemma apply_result_effect:
  assumes "apply_result env db x j g a ro = Inr (Applied db' e n)"
    "distinct (map c_id (db_chunks db))" "c_route_generation (lc_chunk x) = g"
    "find_chunk db (c_id (lc_chunk x)) = Some (lc_chunk x)"
    "fa_result a \<in> set FINALIZE_RESULTS" "fa_result a \<noteq> A_cancelled_before_invoke"
  shows "now_is db (c_id (lc_chunk x)) (result_of a ro) db'"
proof (cases "fa_result a \<in> {A_rejected, A_failed}")
  case True
  with assms(1) have "apply_reject_or_fail env db x j g a (if ro then Some DELAYED_RETRY_EXHAUSTED else None)
      = Inr (Applied db' e n)"
    by (auto simp: apply_result_def Let_def)
  then show ?thesis by (rule apply_reject_or_fail_effect [OF _ assms(2) True assms(3,4) refl])
next
  case False
  with assms(5,6) consider "fa_result a = A_submitted" | "fa_result a = A_uncertain"
    | "fa_result a \<in> {A_retry_scheduled, A_delayed}" | "fa_result a = A_paused"
    by (auto simp: FINALIZE_RESULTS_def)
  then show ?thesis
    using assms(1,2) by cases (auto simp: apply_result_def Let_def intro: apply_submitted_effect
        apply_uncertain_effect apply_retry_effect apply_paused_effect)
qed

lemma effective_args_simps [simp]:
  "fa_result a \<in> set FINALIZE_RESULTS \<Longrightarrow> fa_result (effective_args a c) \<in> set FINALIZE_RESULTS"
  "fa_result (effective_args a c) = A_cancelled_before_invoke \<longleftrightarrow> fa_result a = A_cancelled_before_invoke"
  by (auto simp: effective_args_def retry_exhausted_def FINALIZE_RESULTS_def)

text \<open>What an applied finalisation did.\<close>

definition closed_as :: "finalize_args \<Rightarrow> sms_vendor_attempt \<Rightarrow> sms_vendor_attempt" where
  "closed_as a r = r\<lparr>a_outcome := fa_result a, a_safe_to_failover := fa_safe_to_failover a,
     a_vendor_code := fa_vendor_code a\<rparr>"

lemma closed_as_simps [simp]:
  "a_outcome (closed_as a r) = fa_result a" "a_id (closed_as a r) = a_id r"
  "a_chunk_id (closed_as a r) = a_chunk_id r" "a_generation (closed_as a r) = a_generation r"
  by (simp_all add: closed_as_def)

lemma finalize_once_applied:
  assumes "finalize_vendor_attempt_once env db i c g a = Inr (db', r, e)" "fr_kind r = K_APPLIED"
    and "distinct (map c_id (db_chunks db))"
  obtains x attempt where "lock_send_context db c = Some x"
    "first_row (\<lambda>r. a_id r = i) (attempts_of db c) = Some attempt" "a_outcome attempt = A_invoking"
    "a_generation attempt = g" "c_route_generation (lc_chunk x) = g"
    "fa_result a \<in> set FINALIZE_RESULTS" "fr_result r = fa_result (effective_args a (lc_chunk x))"
    "db_attempts db' = update_rows (\<lambda>r. a_id r = i \<and> a_outcome r = A_invoking)
       (closed_as (effective_args a (lc_chunk x))) (db_attempts db)"
    "fa_result a \<noteq> A_cancelled_before_invoke \<Longrightarrow>
       now_is db c (result_of (effective_args a (lc_chunk x)) (retry_exhausted a (lc_chunk x)))
         (db'\<lparr>db_attempts := db_attempts db\<rparr>)"
  using assms(1)
proof (cases rule: finalize_once_cases)
  case unchanged
  with assms(2) show thesis by simp
next
  case (applied x attempt db1 persisted)
  note ctx = lock_send_context_SomeD [OF applied(1)]
  let ?a = "effective_args a (lc_chunk x)" and ?ro = "retry_exhausted a (lc_chunk x)"
  let ?rows = "update_rows (\<lambda>r. a_id r = i \<and> a_outcome r = A_invoking)
       (closed_as ?a) (db_attempts db)"
  have db1: "db1 = db\<lparr>db_attempts := ?rows\<rparr>"
    using applied(7) by (auto simp: close_attempt_def update_attempts_def write_attempts_def
        closed_as_def [abs_def]
        split: if_splits)
  have fc: "find_chunk db1 c = find_chunk db c" by (simp add: db1 find_chunk_def)
  have out: "now_is db1 c (result_of ?a ?ro) db'" if "fa_result a \<noteq> A_cancelled_before_invoke"
    using apply_result_effect [OF applied(8)] assms(3) applied(5,6) ctx fc that
    by (simp add: db1)
  have canc: "db' = db1" if "fa_result a = A_cancelled_before_invoke"
    using applied(8) that by (simp add: apply_result_def Let_def effective_args_def retry_exhausted_def)
  have rows: "db_attempts db' = ?rows"
    using out canc by (cases "fa_result a = A_cancelled_before_invoke") (auto simp: now_is_def db1)
  show thesis
  proof (rule that [OF applied(1) _ applied(3-6) _ rows])
    show "first_row (\<lambda>r. a_id r = i) (attempts_of db c) = Some attempt" using applied(2) ctx(4) by simp
    show "fr_result r = fa_result ?a"
      using applied(9) by (simp add: applied_report_def finalize_report_def split: option.splits)
    show "now_is db c (result_of ?a ?ro) (db'\<lparr>db_attempts := db_attempts db\<rparr>)"
      if "fa_result a \<noteq> A_cancelled_before_invoke"
      using out [OF that] fc by (auto simp: now_is_def find_chunk_def db1)
  qed
qed

lemma finalize_vendor_attempt_once:
  assumes "finalize_vendor_attempt d env db i c g a = Inr (db', r, e)"
  obtains e' where "finalize_vendor_attempt_once env db i c g a = Inr (db', r, e')"
    "e = (if fr_kind r = K_APPLIED then e' else None)"
  using assms unfolding finalize_vendor_attempt_def
  by (auto simp: rbind_Inr_iff dest!: finalize_loop_Inr)

lemma first_row_attempts_of:
  assumes "first_row (\<lambda>r. a_id r = i) (attempts_of db c) = Some x"
  shows "x \<in> set (db_attempts db) \<and> a_id x = i \<and> a_chunk_id x = c"
  using first_row_SomeD [OF assms] by (auto simp: set_attempts_of)

lemma agrees_same:
  "agrees out s \<Longrightarrow> classify_finalize_conflict out s out = K_ALREADY_FINALIZED_SAME_RESULT"
  by (cases out) (auto simp: classify_finalize_conflict_def)

lemma same_agrees:
  "classify_finalize_conflict out s req = K_ALREADY_FINALIZED_SAME_RESULT \<Longrightarrow> out = req \<and> agrees out s"
  by (cases out) (auto simp: classify_finalize_conflict_def split: if_splits)

lemma finalize_applied_rows:
  assumes "finalize_vendor_attempt d env db i c g a = Inr (db', r, e)" "fr_kind r = K_APPLIED"
    and "distinct (map c_id (db_chunks db))"
  shows "\<exists>x x'. x \<in> set (db_attempts db) \<and> a_id x = i \<and> a_chunk_id x = c \<and> a_generation x = g
     \<and> a_outcome x = A_invoking \<and> x' \<in> set (db_attempts db') \<and> a_id x' = i \<and> a_chunk_id x' = c
     \<and> a_generation x' = g \<and> a_outcome x' = fr_result r"
proof -
  obtain e' where "finalize_vendor_attempt_once env db i c g a = Inr (db', r, e')"
    by (rule finalize_vendor_attempt_once [OF assms(1)])
  from this assms(2,3) obtain x :: LockedSendContext and attempt where
    f: "first_row (\<lambda>r. a_id r = i) (attempts_of db c) = Some attempt"
    and o: "a_outcome attempt = A_invoking" "a_generation attempt = g"
    and r: "fr_result r = fa_result (effective_args a (lc_chunk x))"
    and rows: "db_attempts db' = update_rows (\<lambda>r. a_id r = i \<and> a_outcome r = A_invoking)
       (closed_as (effective_args a (lc_chunk x))) (db_attempts db)"
    by (rule finalize_once_applied) blast
  have at: "attempt \<in> set (db_attempts db)" "a_id attempt = i" "a_chunk_id attempt = c"
    using first_row_attempts_of [OF f] by auto
  let ?x' = "closed_as (effective_args a (lc_chunk x)) attempt"
  have "?x' \<in> set (db_attempts db')"
    unfolding rows update_rows_def using at o(1) by force
  then show ?thesis using at o r
    by (intro exI [of _ attempt] exI [of _ ?x']) simp
qed

lemma finalize_applied_chunk:
  assumes "finalize_vendor_attempt d env db i c g a = Inr (db', r, e)" "fr_kind r = K_APPLIED"
    and "distinct (map c_id (db_chunks db))" "fr_result r \<noteq> A_cancelled_before_invoke"
  shows "\<exists>ch. find_chunk db' c = Some ch \<and> agrees (fr_result r) (c_status ch)"
proof -
  obtain e' where "finalize_vendor_attempt_once env db i c g a = Inr (db', r, e')"
    by (rule finalize_vendor_attempt_once [OF assms(1)])
  from this assms(2,3) obtain x :: LockedSendContext where
    r: "fr_result r = fa_result (effective_args a (lc_chunk x))"
    and m: "fa_result a \<noteq> A_cancelled_before_invoke \<Longrightarrow>
       now_is db c (result_of (effective_args a (lc_chunk x)) (retry_exhausted a (lc_chunk x)))
         (db'\<lparr>db_attempts := db_attempts db\<rparr>)"
    by (rule finalize_once_applied) blast
  from r assms(4) have "fa_result a \<noteq> A_cancelled_before_invoke" by simp
  from m [OF this] r show ?thesis by (auto simp: now_is_def result_of_def find_chunk_def)
qed

section \<open>Properties\<close>

text \<open>C6: recording an answer is atomic. Unless it is reported as applied, the database is unchanged and
  nothing is published. When it is, the attempt was open, is closed with the reported result, and the
  chunk is in a status that agrees with it.\<close>

theorem finalize_is_atomic:
  assumes "finalize_vendor_attempt d env db i c g a = Inr (db', r, e)"
    and "distinct (map c_id (db_chunks db))"
  shows "if fr_kind r = K_APPLIED
    then (\<exists>x\<in>set (db_attempts db). a_id x = i \<and> a_chunk_id x = c \<and> a_generation x = g
            \<and> a_outcome x = A_invoking)
       \<and> (\<exists>x\<in>set (db_attempts db'). a_id x = i \<and> a_chunk_id x = c \<and> a_generation x = g
            \<and> a_outcome x = fr_result r)
       \<and> (fr_result r = A_cancelled_before_invoke
            \<or> (\<exists>ch. find_chunk db' c = Some ch \<and> agrees (fr_result r) (c_status ch)))
    else db' = db \<and> e = None"
proof (cases "fr_kind r = K_APPLIED")
  case True
  then show ?thesis
    using finalize_applied_rows [OF assms(1) True assms(2)]
      finalize_applied_chunk [OF assms(1) True assms(2)] by auto
next
  case False
  obtain e' where "finalize_vendor_attempt_once env db i c g a = Inr (db', r, e')" "e = None"
    using finalize_vendor_attempt_once [OF assms(1)] False by metis
  with False show ?thesis by (auto elim: finalize_once_cases simp: applied_report_def
      finalize_report_def split: option.splits)
qed

lemma report_same_result:
  assumes "fr_kind (report_from_locked_state out ch msg req) = K_ALREADY_FINALIZED_SAME_RESULT"
  shows "agrees out (c_status ch)"
  using assms by (auto simp: report_from_locked_state_def Let_def dest: same_agrees split: if_splits)

lemma report_kinds [simp]:
  "fr_kind (applied_report out p) = K_APPLIED" "fr_kind (finalize_report k out) = k"
  by (cases p) (simp_all add: applied_report_def finalize_report_def)

lemma finalize_open_kind:
  assumes "finalize_open env db x i g a = Inr (db', r, e)"
  shows "fr_kind r \<in> {K_APPLIED, K_LOST_CAS}"
proof -
  obtain ap where ap: "(case ap of
      Lost_cas \<Rightarrow> Inr (db, finalize_report K_LOST_CAS (fa_result (effective_args a (lc_chunk x))), None)
    | Applied db2 enqueue persisted \<Rightarrow> Inr (db2, applied_report
        (fa_result (effective_args a (lc_chunk x))) persisted, enqueue)) = (Inr (db', r, e) :: _ res)"
    using assms by (auto simp: finalize_open_def Let_def rbind_Inr_iff)
  then show ?thesis by (cases ap) auto
qed

lemma finalize_same_result:
  assumes "finalize_vendor_attempt_once env db i c g a = Inr (db', r, e)"
    and "fr_kind r = K_ALREADY_FINALIZED_SAME_RESULT"
  shows "\<exists>x ch. x \<in> set (db_attempts db) \<and> a_id x = i \<and> a_chunk_id x = c \<and> a_outcome x = fr_result r
    \<and> find_chunk db c = Some ch \<and> agrees (fr_result r) (c_status ch)"
proof -
  have k: "fr_kind r \<noteq> K_APPLIED" using assms(2) by simp
  have "\<exists>x at. lock_send_context db c = Some x \<and> first_row (\<lambda>r. a_id r = i) (lc_attempts x) = Some at
      \<and> r = report_from_locked_state (a_outcome at) (lc_chunk x) (c_vendor_msg (lc_chunk x)) (fa_result a)"
  proof (rule ccontr)
    assume no: "\<not> ?thesis"
    obtain x where "finalize_open env db x i g a = Inr (db', r, e)"
      using assms no unfolding finalize_vendor_attempt_once_def Let_def
      by (auto simp: finalize_report_def split: if_splits option.splits)
    with assms(2) show False by (auto dest: finalize_open_kind)
  qed
  then obtain x at where x: "lock_send_context db c = Some x"
    and f: "first_row (\<lambda>r. a_id r = i) (lc_attempts x) = Some at"
    and r: "r = report_from_locked_state (a_outcome at) (lc_chunk x) (c_vendor_msg (lc_chunk x)) (fa_result a)"
    by blast
  note ctx = lock_send_context_SomeD [OF x]
  have "fr_result r = a_outcome at" by (simp add: r report_from_locked_state_def Let_def)
  moreover have "agrees (a_outcome at) (c_status (lc_chunk x))"
    using assms(2) unfolding r by (rule report_same_result)
  ultimately show ?thesis
    using first_row_attempts_of [of i db c at] f ctx(1,4) by auto
qed


lemma first_row_only:
  assumes "r \<in> set rows" "p r" "\<And>q. q \<in> set rows \<Longrightarrow> p q \<Longrightarrow> q = r"
  shows "first_row p rows = Some r"
proof (cases "first_row p rows")
  case None
  with assms(1,2) show ?thesis by (auto simp: first_row_None_iff)
next
  case (Some q)
  with assms(3) [of q] show ?thesis by (auto dest: first_row_SomeD)
qed

lemma finalize_loop_once:
  assumes "\<not> (d 1 \<and> d 2 \<and> d 3)"
  shows "finalize_loop FINALIZE_DB_ATTEMPTS 1 d once = once"
  using assms by (simp add: FINALIZE_DB_ATTEMPTS_def numeral_3_eq_3 numeral_2_eq_2)

lemma finalize_batch_id:
  assumes "finalize_vendor_attempt_once env db i c g a = Inr (db', r, e)" "fr_kind r = K_APPLIED"
    "lock_send_context db c = Some x"
  shows "\<not> (case fa_batch_id a of None \<Rightarrow> False | Some i \<Rightarrow> i \<noteq> c_batch_id (lc_chunk x))"
  using assms by (auto simp: finalize_vendor_attempt_once_def Let_def split: if_splits option.splits)

lemma replayed_report:
  assumes "result_of (effective_args a ch) (retry_exhausted a ch) c0 ch'"
    and "fa_result a \<in> set FINALIZE_RESULTS"
  shows "fr_kind (report_from_locked_state (fa_result (effective_args a ch)) ch' (c_vendor_msg ch')
      (fa_result a)) = K_ALREADY_FINALIZED_SAME_RESULT"
proof (cases "retry_exhausted a ch")
  case True
  with assms show ?thesis
    by (auto simp: result_of_def effective_args_def report_from_locked_state_def Let_def
        classify_finalize_conflict_def retry_exhausted_def)
next
  case False
  then have "fa_result (effective_args a ch) = fa_result a" by (simp add: effective_args_def)
  moreover have "agrees (fa_result (effective_args a ch)) (c_status ch')"
    using assms(1) by (simp add: result_of_def)
  ultimately show ?thesis
    using agrees_same [of "fa_result a" "c_status ch'"]
    by (auto simp: report_from_locked_state_def Let_def)
qed

lemma closed_attempt_found:
  assumes "first_row (\<lambda>r. a_id r = i) (attempts_of db c) = Some attempt" "a_outcome attempt = A_invoking"
    and rows: "db_attempts db' = update_rows (\<lambda>r. a_id r = i \<and> a_outcome r = A_invoking) (closed_as a)
      (db_attempts db)"
    and "distinct (map a_id (db_attempts db))"
  shows "first_row (\<lambda>r. a_id r = i) (attempts_of db' c) = Some (closed_as a attempt)"
proof (rule first_row_only)
  have at: "attempt \<in> set (db_attempts db)" "a_id attempt = i" "a_chunk_id attempt = c"
    using first_row_attempts_of [OF assms(1)] by auto
  then show "a_id (closed_as a attempt) = i" by simp
  have mem: "closed_as a attempt \<in> set (db_attempts db')"
    unfolding rows update_rows_def using at assms(2) by force
  then show "closed_as a attempt \<in> set (attempts_of db' c)" using at by (simp add: set_attempts_of)
  fix q assume "q \<in> set (attempts_of db' c)" "a_id q = i"
  moreover have "distinct (map a_id (db_attempts db'))"
    using assms(4) by (simp add: rows map_update_rows)
  ultimately show "q = closed_as a attempt"
    using at mem by (auto simp: set_attempts_of distinct_map inj_on_def)
qed

lemma find_batch_same_ids:
  assumes "find_batch db i = Some b" "map b_id (db_batches db') = map b_id (db_batches db)"
  obtains b' where "find_batch db' i = Some b'"
proof -
  have "i \<in> set (map b_id (db_batches db'))"
    unfolding assms(2) using assms(1) by (auto simp: find_batch_def dest: first_row_SomeD)
  then show thesis using that
    by (cases "find_batch db' i") (auto simp: find_batch_def first_row_None_iff)
qed

text \<open>C8: recording an answer twice is harmless. After an applied recording, the same call (also by
  another worker, with other routing data and other aborted transactions) leaves the database
  unchanged, publishes nothing and reports that this very result is already recorded.\<close>

theorem finalize_replay:
  assumes "finalize_vendor_attempt d env db i c g a = Inr (db', r, e)" "fr_kind r = K_APPLIED"
    and "distinct (map c_id (db_chunks db))" "distinct (map a_id (db_attempts db))"
    and "fa_result a \<noteq> A_cancelled_before_invoke" "\<not> (d' 1 \<and> d' 2 \<and> d' 3)"
  shows "\<exists>r'. finalize_vendor_attempt d' env' db' i c g a = Inr (db', r', None)
     \<and> fr_kind r' = K_ALREADY_FINALIZED_SAME_RESULT \<and> fr_result r' = fr_result r"
proof -
  obtain e' where once: "finalize_vendor_attempt_once env db i c g a = Inr (db', r, e')"
    by (rule finalize_vendor_attempt_once [OF assms(1)])
  from this assms(2,3) obtain x :: LockedSendContext and attempt where x: "lock_send_context db c = Some x"
    and f: "first_row (\<lambda>r. a_id r = i) (attempts_of db c) = Some attempt"
      "a_outcome attempt = A_invoking" "a_generation attempt = g"
    and fin: "fa_result a \<in> set FINALIZE_RESULTS"
    and r: "fr_result r = fa_result (effective_args a (lc_chunk x))"
    and rows: "db_attempts db' = update_rows (\<lambda>r. a_id r = i \<and> a_outcome r = A_invoking)
       (closed_as (effective_args a (lc_chunk x))) (db_attempts db)"
    and m: "fa_result a \<noteq> A_cancelled_before_invoke \<Longrightarrow>
       now_is db c (result_of (effective_args a (lc_chunk x)) (retry_exhausted a (lc_chunk x)))
         (db'\<lparr>db_attempts := db_attempts db\<rparr>)"
    by (rule finalize_once_applied) blast
  let ?a = "effective_args a (lc_chunk x)" and ?ro = "retry_exhausted a (lc_chunk x)"
  note ctx = lock_send_context_SomeD [OF x]
  obtain ch' where ch': "find_chunk db' c = Some ch'" "result_of ?a ?ro (lc_chunk x) ch'"
    and ids: "map b_id (db_batches db') = map b_id (db_batches db)"
    using m [OF assms(5)] ctx(1) by (auto simp: now_is_def find_chunk_def)
  obtain b where b: "find_batch db' (c_batch_id ch') = Some b"
    using find_batch_same_ids [OF ctx(3) ids] ch'(2) by (auto simp: result_of_def)
  let ?x' = "\<lparr>lc_chunk = ch', lc_batch = b, lc_attempts = attempts_of db' c\<rparr>"
  have x': "lock_send_context db' c = Some ?x'" by (simp add: lock_send_context_def ch' b)
  have f': "first_row (\<lambda>r. a_id r = i) (attempts_of db' c) = Some (closed_as ?a attempt)"
    by (rule closed_attempt_found [OF f(1,2) rows assms(4)])
  let ?r' = "report_from_locked_state (fa_result ?a) ch' (c_vendor_msg ch') (fa_result a)"
  have inv: "fa_result ?a \<noteq> A_invoking" using fin by (auto simp: FINALIZE_RESULTS_def effective_args_def)
  have "\<not> (case fa_batch_id a of None \<Rightarrow> False | Some i \<Rightarrow> i \<noteq> c_batch_id ch')"
    using finalize_batch_id [OF once assms(2) x] ch'(2) by (simp add: result_of_def split: option.splits)
  then have "finalize_vendor_attempt_once env' db' i c g a = Inr (db', ?r', None)"
    using fin f(3) inv by (simp add: finalize_vendor_attempt_once_def Let_def x' f')
  moreover have "fr_kind ?r' = K_ALREADY_FINALIZED_SAME_RESULT" by (rule replayed_report [OF ch'(2) fin])
  moreover have "fr_result ?r' = fr_result r" by (simp add: r report_from_locked_state_def Let_def)
  ultimately show ?thesis
    unfolding finalize_vendor_attempt_def finalize_loop_once [OF assms(6)] by simp
qed

section \<open>A recorded submission\<close>

definition example_open :: "db res" where
  "example_open =
     rbind (claim_submission example_env example_send 7 0 2 True) (\<lambda>(db, _).
     rbind (begin_vendor_invoke db 7 ''zhihui'' ''zhihui'' ''first'') (\<lambda>(db, _). Inr db))"

lemma example_finalize:
  obtains db db' r e where
    "finalize_vendor_attempt (\<lambda>k. k = 1) example_env db 1 7 1 (finalize_defaults A_submitted)
       = Inr (db', r, e)"
    "fr_kind r = K_APPLIED" "fr_result r = A_submitted"
    "distinct (map c_id (db_chunks db))" "distinct (map a_id (db_attempts db))"
proof -
  have "(case example_open of Inl _ \<Rightarrow> False | Inr db \<Rightarrow>
      distinct (map c_id (db_chunks db)) \<and> distinct (map a_id (db_attempts db)) \<and>
      (case finalize_vendor_attempt (\<lambda>k. k = 1) example_env db 1 7 1 (finalize_defaults A_submitted) of
         Inl _ \<Rightarrow> False
       | Inr x \<Rightarrow> fr_kind (fst (snd x)) = K_APPLIED \<and> fr_result (fst (snd x)) = A_submitted))"
    by code_simp
  then show thesis using that by (auto split: sum.splits)
qed

lemma finalize_is_atomic_witness:
  "\<exists>db db' r e ch. finalize_vendor_attempt (\<lambda>k. k = 1) example_env db 1 7 1 (finalize_defaults A_submitted)
       = Inr (db', r, e) \<and> fr_kind r = K_APPLIED \<and> find_chunk db' 7 = Some ch \<and> c_status ch = C_submitted"
proof -
  obtain db db' r e where f: "finalize_vendor_attempt (\<lambda>k. k = 1) example_env db 1 7 1
      (finalize_defaults A_submitted) = Inr (db', r, e)" "fr_kind r = K_APPLIED" "fr_result r = A_submitted"
    "distinct (map c_id (db_chunks db))" by (rule example_finalize)
  with finalize_is_atomic [OF f(1,4)] show ?thesis by fastforce
qed


lemma finalize_replay_witness:
  "\<exists>db' r'. finalize_vendor_attempt (\<lambda>_. False) example_env db' 1 7 1 (finalize_defaults A_submitted)
       = Inr (db', r', None) \<and> fr_kind r' = K_ALREADY_FINALIZED_SAME_RESULT \<and> fr_result r' = A_submitted"
proof -
  obtain db db' r e where f: "finalize_vendor_attempt (\<lambda>k. k = 1) example_env db 1 7 1
      (finalize_defaults A_submitted) = Inr (db', r, e)" "fr_kind r = K_APPLIED" "fr_result r = A_submitted"
    "distinct (map c_id (db_chunks db))" "distinct (map a_id (db_attempts db))" by (rule example_finalize)
  have "fa_result (finalize_defaults A_submitted) \<noteq> A_cancelled_before_invoke"
    by (simp add: finalize_defaults_def)
  from finalize_replay [OF f(1,2,4,5) this, of "\<lambda>_. False" example_env] f(3) show ?thesis by auto
qed

end
