(* ===== verification/Send_Planning.thy ===== *)
theory Send_Planning
  imports Send_Invariants
begin

text \<open>
  Planning and splitting partition the messages of a batch: every message goes to exactly one new
  chunk, the recipient count of a chunk is the number of its messages, and the usage of a chunk is
  allocated for exactly those. Both operations insert chunks for consecutive groups of messages; the
  common part is \<open>place\<close>, which moves the messages of each group to its chunk.
\<close>

section \<open>Groups\<close>

lemma concat_groups_of: "0 < n \<Longrightarrow> concat (groups_of n xs) = xs"
proof (induction n xs rule: groups_of.induct)
  case (1 n xs)
  then show ?case by (subst groups_of.simps) (auto simp: append_take_drop_id)
qed

lemma groups_of_sizes: "g \<in> set (groups_of n xs) \<Longrightarrow> g \<noteq> [] \<and> length g \<le> n"
proof (induction n xs rule: groups_of.induct)
  case (1 n xs)
  show ?case
  proof (cases "xs = [] \<or> n = 0")
    case True
    with 1(2) show ?thesis by (simp add: groups_of.simps)
  next
    case False
    with 1(2) have "g = take n xs \<or> g \<in> set (groups_of n (drop n xs))"
      using groups_of.simps [of n xs] by auto
    with False 1(1) [OF False] show ?thesis by auto
  qed
qed

section \<open>Moving messages to chunks\<close>

definition move_to :: "int \<times> sms_message list \<Rightarrow> sms_message \<Rightarrow> sms_message" where
  "move_to g m = (if message_key m \<in> message_key ` set (snd g) then m\<lparr>m_chunk_id := Some (fst g)\<rparr> else m)"

definition place :: "(int \<times> sms_message list) list \<Rightarrow> sms_message \<Rightarrow> sms_message" where
  "place gs m = fold move_to gs m"

definition group_keys :: "(int \<times> sms_message list) list \<Rightarrow> (int \<times> datetime) list" where
  "group_keys gs = map message_key (concat (map snd gs))"

lemma move_to_keeps [simp]:
  "message_key (move_to g m) = message_key m" "m_batch_id (move_to g m) = m_batch_id m"
  "m_status (move_to g m) = m_status m"
  by (simp_all add: move_to_def message_key_def)

lemma place_simps [simp]:
  "place [] m = m" "place (g # gs) m = place gs (move_to g m)"
  by (simp_all add: place_def)

lemma place_keeps [simp]:
  "message_key (place gs m) = message_key m" "m_batch_id (place gs m) = m_batch_id m"
  "m_status (place gs m) = m_status m"
  by (induction gs arbitrary: m) simp_all

lemma place_out: "message_key m \<notin> set (group_keys gs) \<Longrightarrow> place gs m = m"
proof (induction gs arbitrary: m)
  case (Cons g gs)
  then have "move_to g m = m" by (auto simp: move_to_def group_keys_def)
  with Cons show ?case by (simp add: group_keys_def)
qed simp

lemma place_in:
  assumes "(i, rows) \<in> set gs" "message_key m \<in> message_key ` set rows" "distinct (group_keys gs)"
  shows "m_chunk_id (place gs m) = Some i"
  using assms
proof (induction gs arbitrary: m)
  case (Cons g gs)
  show ?case
  proof (cases "message_key m \<in> set (group_keys gs)")
    case True
    then have "message_key m \<notin> message_key ` set (snd g)"
      using Cons.prems(3) by (auto simp: group_keys_def)
    with Cons.prems(1,2) have "(i, rows) \<in> set gs" by auto
    with Cons.prems(2,3) show ?thesis using Cons.IH [of "move_to g m"] by (simp add: group_keys_def)
  next
    case False
    with Cons.prems(1,2) have "g = (i, rows)" by (force simp: group_keys_def)
    moreover have "place gs (move_to g m) = move_to g m" using False by (simp add: place_out)
    ultimately show ?thesis using Cons.prems(2) by (simp add: move_to_def)
  qed
qed simp

lemma place_chunk_cases:
  assumes "distinct (group_keys gs)"
  shows "(\<exists>i rows. (i, rows) \<in> set gs \<and> message_key m \<in> message_key ` set rows
      \<and> m_chunk_id (place gs m) = Some i) \<or> (message_key m \<notin> set (group_keys gs) \<and> place gs m = m)"
proof (cases "message_key m \<in> set (group_keys gs)")
  case True
  then obtain i rows where "(i, rows) \<in> set gs" "message_key m \<in> message_key ` set rows"
    by (fastforce simp: group_keys_def)
  then show ?thesis using place_in [OF _ _ assms] by blast
qed (simp add: place_out)

text \<open>The number of messages of a new chunk is the size of its group.\<close>

lemma count_placed:
  assumes "distinct (group_keys gs)" "distinct (map fst gs)" "(i, rows) \<in> set gs"
    and "distinct (map message_key ms)" "set rows \<subseteq> set ms"
    and "\<forall>m\<in>set ms. m_chunk_id m \<noteq> Some i"
  shows "count_rows (\<lambda>m. m_chunk_id m = Some i) (map (place gs) ms) = length rows"
proof -
  have "distinct (map message_key rows)"
  proof -
    have "distinct (map message_key (concat (map snd gs)))" using assms(1) by (simp add: group_keys_def)
    moreover obtain xs ys where "gs = xs @ (i, rows) # ys" using assms(3) by (meson split_list)
    ultimately show ?thesis by simp
  qed
  have iff: "m_chunk_id (place gs m) = Some i \<longleftrightarrow> m \<in> set rows" if "m \<in> set ms" for m
  proof
    assume m: "m_chunk_id (place gs m) = Some i"
    have "m_chunk_id m \<noteq> Some i" using assms(6) that by blast
    with m place_chunk_cases [OF assms(1), of m] obtain rows' where
      r: "(i, rows') \<in> set gs" "message_key m \<in> message_key ` set rows'" by auto
    from r(1) assms(2,3) have "rows' = rows" by (meson eq_key_imp_eq_value)
    with r(2) obtain m' where "m' \<in> set rows" "message_key m' = message_key m" by auto
    with that assms(4,5) show "m \<in> set rows" by (auto simp: distinct_map inj_on_def)
  next
    assume "m \<in> set rows"
    then show "m_chunk_id (place gs m) = Some i" using place_in [OF assms(3) _ assms(1)] by blast
  qed
  have "count_rows (\<lambda>m. m_chunk_id m = Some i) (map (place gs) ms) = length (filter (\<lambda>m. m \<in> set rows) ms)"
    by (simp add: count_rows_def filter_map comp_def iff cong: filter_cong)
  also have "\<dots> = card (set rows)"
    using assms(4,5) by (simp add: distinct_map distinct_length_filter Int_absorb2)
  also have "\<dots> = length rows"
    using \<open>distinct (map message_key rows)\<close> by (simp add: distinct_map distinct_card)
  finally show ?thesis .
qed

section \<open>Inserting chunks for groups\<close>

text \<open>The foreign keys: a message is in a chunk of its batch, an allocation belongs to a chunk.\<close>

definition messages_ok :: "db \<Rightarrow> bool" where
  "messages_ok db \<longleftrightarrow> (\<forall>m\<in>set (db_messages db). \<forall>i. m_chunk_id m = Some i \<longrightarrow>
     (\<exists>c\<in>set (db_chunks db). c_id c = i \<and> c_batch_id c = m_batch_id m))"

lemma messages_ok_code [code]:
  "messages_ok db \<longleftrightarrow> (\<forall>m\<in>set (db_messages db). case m_chunk_id m of None \<Rightarrow> True
     | Some i \<Rightarrow> \<exists>c\<in>set (db_chunks db). c_id c = i \<and> c_batch_id c = m_batch_id m)"
  by (auto simp: messages_ok_def split: option.splits)

definition allocations_ok :: "db \<Rightarrow> bool" where
  "allocations_ok db \<longleftrightarrow>
     (\<forall>ua\<in>set (db_allocations db). ua_chunk_id ua \<in> c_id ` set (db_chunks db))"

definition group_chunk :: "sms_batch \<Rightarrow> sms_chunk \<Rightarrow> int \<times> sms_message list \<Rightarrow> bool" where
  "group_chunk b c g \<longleftrightarrow> c_id c = fst g \<and> c_batch_id c = b_id b \<and> c_status c = C_pending
     \<and> c_phone_count c = int (length (snd g))"

definition group_usage :: "sms_batch \<Rightarrow> usage_allocation \<Rightarrow> int \<times> sms_message list \<Rightarrow> bool" where
  "group_usage b ua g \<longleftrightarrow> ua_chunk_id ua = fst g \<and> ua_recipients ua = int (length (snd g))
     \<and> ua_segments ua = b_segments b * int (length (snd g))"

text \<open>\<open>planned b db db' gs\<close>: for each group a chunk with a new identity was inserted, its usage was
  allocated, and its messages were moved to it; nothing else changed in these tables.\<close>

definition planned :: "sms_batch \<Rightarrow> db \<Rightarrow> db \<Rightarrow> (int \<times> sms_message list) list \<Rightarrow> bool" where
  "planned b db db' gs \<longleftrightarrow>
     (\<exists>cs us. db_chunks db' = db_chunks db @ cs \<and> db_allocations db' = db_allocations db @ us
        \<and> list_all2 (group_chunk b) cs gs \<and> list_all2 (group_usage b) us gs)
     \<and> db_messages db' = map (place gs) (db_messages db)
     \<and> distinct (map fst gs) \<and> set (map fst gs) \<inter> c_id ` set (db_chunks db) = {}"

lemma planned_Nil [simp]: "planned b db db []"
  by (simp add: planned_def map_idI)

lemma group_chunk_ids: "list_all2 (group_chunk b) cs gs \<Longrightarrow> map c_id cs = map fst gs"
  by (induction rule: list_all2_induct) (simp_all add: group_chunk_def)

lemma planned_ids:
  assumes "planned b db db' gs"
  shows "c_id ` set (db_chunks db') = c_id ` set (db_chunks db) \<union> set (map fst gs)"
proof -
  obtain cs where cs: "db_chunks db' = db_chunks db @ cs" "list_all2 (group_chunk b) cs gs"
    using assms by (auto simp: planned_def)
  then have "c_id ` set cs = set (map fst gs)" by (metis group_chunk_ids list.set_map)
  then show ?thesis by (simp add: cs(1) image_Un)
qed

lemma planned_append:
  assumes "planned b db db1 gs1" "planned b db1 db2 gs2"
  shows "planned b db db2 (gs1 @ gs2)"
proof -
  have "c_id ` set (db_chunks db1) = c_id ` set (db_chunks db) \<union> set (map fst gs1)"
    by (rule planned_ids [OF assms(1)])
  moreover have "place (gs1 @ gs2) = place gs2 \<circ> place gs1" by (simp add: place_def fun_eq_iff)
  ultimately show ?thesis
    using assms unfolding planned_def by (auto intro: list_all2_appendI)
qed

lemma planned_allocations_ok:
  assumes "allocations_ok db" "planned b db db' gs"
  shows "allocations_ok db'"
proof -
  obtain us where us: "db_allocations db' = db_allocations db @ us" "list_all2 (group_usage b) us gs"
    using assms(2) by (auto simp: planned_def)
  have "map ua_chunk_id us = map fst gs"
    using us(2) by (induction rule: list_all2_induct) (simp_all add: group_usage_def)
  then have "ua_chunk_id ` set us = set (map fst gs)" by (metis list.set_map)
  then show ?thesis
    using assms(1) us(1) planned_ids [OF assms(2)] by (auto simp: allocations_ok_def)
qed

text \<open>One group of either operation.\<close>

lemma insert_group_planned:
  assumes "insert_chunk db c = Inr db1" "c_id c = serial (map c_id (db_chunks db))"
    and "group_chunk b c (i, rows)"
    and "allocations_ok db"
    and "db' = assign_messages (allocate db1 (allocation_for b i (length rows) r)) i rows
       \<or> db' = allocate (assign_messages db1 i rows) (allocation_for b i (length rows) r)"
  shows "planned b db db' [(i, rows)]"
proof -
  have c: "c_id c = i" and db1: "db1 = db\<lparr>db_chunks := db_chunks db @ [c]\<rparr>"
    using assms(1,3) by (auto simp: insert_chunk_def group_chunk_def split: if_splits)
  have fresh: "i \<notin> c_id ` set (db_chunks db)"
    using assms(2) serial_fresh [of "map c_id (db_chunks db)"] c by simp
  with assms(4) have "\<not> list_ex (\<lambda>x. ua_chunk_id x = i) (db_allocations db)"
    by (auto simp: list_ex_iff allocations_ok_def)
  then have "db' = db\<lparr>db_chunks := db_chunks db @ [c],
      db_allocations := db_allocations db @ [allocation_for b i (length rows) r],
      db_messages := map (move_to (i, rows)) (db_messages db)\<rparr>"
    using assms(5) by (auto simp: db1 assign_messages_def update_messages_def allocate_def
        allocation_for_def update_rows_def move_to_def [abs_def])
  then show ?thesis
    using assms(3) fresh by (simp add: planned_def place_def group_usage_def allocation_for_def)
qed

lemma plan_group_planned:
  assumes "plan_group b (db, ids) (n, rows) = Inr (db', ids')"
    and "allocations_ok db"
  obtains i where "ids' = ids @ [i]" "planned b db db' [(i, rows)]"
proof -
  let ?c = "new_chunk db (b_id b) n (custom_id_for (b_batch_no b) n) (int (length rows)) None"
  obtain db1 where db1: "insert_chunk db ?c = Inr db1"
    "db' = assign_messages (allocate db1 (allocation_for b (c_id ?c) (length rows)
        (if n = 1 then 1 else 0))) (c_id ?c) rows" "ids' = ids @ [c_id ?c]"
    using assms(1) by (auto simp: plan_group_def Let_def rbind_Inr_iff)
  have "planned b db db' [(c_id ?c, rows)]"
  proof (rule insert_group_planned [OF db1(1) _ _ assms(2)])
    show "group_chunk b ?c (c_id ?c, rows)" by (simp add: new_chunk_def group_chunk_def)
  qed (simp add: new_chunk_def, rule disjI1, rule db1(2))
  with db1(3) show thesis by (rule that)
qed

lemma split_child_planned:
  assumes "split_child b p cu (db, ids) (k, n, rows) = Inr (db', ids')"
    and "allocations_ok db"
  obtains i where "ids' = ids @ [i]" "planned b db db' [(i, rows)]"
proof -
  let ?c = "new_chunk db (b_id b) n (custom_id_for cu n) (int (length rows))
      (Some (p, SPLIT_GENERATION, k))"
  obtain db1 where db1: "insert_chunk db ?c = Inr db1"
    "db' = allocate (assign_messages db1 (c_id ?c) rows) (allocation_for b (c_id ?c) (length rows) 0)"
    "ids' = ids @ [c_id ?c]"
    using assms(1) by (auto simp: split_child_def Let_def rbind_Inr_iff split: if_splits)
  have "planned b db db' [(c_id ?c, rows)]"
  proof (rule insert_group_planned [OF db1(1) _ _ assms(2)])
    show "group_chunk b ?c (c_id ?c, rows)" by (simp add: new_chunk_def group_chunk_def)
  qed (simp add: new_chunk_def, rule disjI2, rule db1(2))
  with db1(3) show thesis by (rule that)
qed

lemma plan_groups_planned:
  assumes "foldM (plan_group b) (db, ids) gs = Inr (db', ids')"
    and "allocations_ok db"
  shows "\<exists>new. ids' = ids @ new \<and> length new = length gs \<and> planned b db db' (zip new (map snd gs))"
  using assms
proof (induction gs arbitrary: db ids)
  case (Cons g gs)
  obtain n rows where g: "g = (n, rows)" by (cases g)
  from Cons.prems(1) obtain db1 ids1 where 1: "plan_group b (db, ids) (n, rows) = Inr (db1, ids1)"
    "foldM (plan_group b) (db1, ids1) gs = Inr (db', ids')"
    by (auto simp: rbind_Inr_iff g)
  obtain i where i: "ids1 = ids @ [i]" "planned b db db1 [(i, rows)]"
    by (rule plan_group_planned [OF 1(1) Cons.prems(2)])
  obtain new where "ids' = ids1 @ new" "length new = length gs" "planned b db1 db' (zip new (map snd gs))"
    using Cons.IH [OF 1(2) planned_allocations_ok [OF Cons.prems(2) i(2)]] by blast
  with i show ?case
    by (intro exI [of _ "i # new"]) (auto simp: g dest: planned_append)
qed simp

lemma list_all2_ex_fst:
  "list_all2 P xs ys \<Longrightarrow> y \<in> set ys \<Longrightarrow> \<exists>x\<in>set xs. P x y"
  by (induction rule: list_all2_induct) auto

lemma planned_group:
  assumes "planned b db db' gs" "messages_ok db" "distinct (map message_key (db_messages db))"
    and "distinct (group_keys gs)" "(i, rows) \<in> set gs" "set rows \<subseteq> set (db_messages db)"
  shows "\<exists>c\<in>set (db_chunks db'). group_chunk b c (i, rows)"
    and "\<exists>ua\<in>set (db_allocations db'). group_usage b ua (i, rows)"
    and "count_rows (\<lambda>m. m_chunk_id m = Some i) (db_messages db') = length rows"
proof -
  obtain cs us where cs: "db_chunks db' = db_chunks db @ cs" "list_all2 (group_chunk b) cs gs"
    and us: "db_allocations db' = db_allocations db @ us" "list_all2 (group_usage b) us gs"
    using assms(1) by (auto simp: planned_def)
  show "\<exists>c\<in>set (db_chunks db'). group_chunk b c (i, rows)"
    using list_all2_ex_fst [OF cs(2) assms(5)] by (auto simp: cs(1))
  show "\<exists>ua\<in>set (db_allocations db'). group_usage b ua (i, rows)"
    using list_all2_ex_fst [OF us(2) assms(5)] by (auto simp: us(1))
  have d: "distinct (map fst gs)" and fresh: "set (map fst gs) \<inter> c_id ` set (db_chunks db) = {}"
    and ms: "db_messages db' = map (place gs) (db_messages db)"
    using assms(1) by (auto simp: planned_def)
  have "i \<notin> c_id ` set (db_chunks db)" using fresh assms(5) by force
  then have "\<forall>m\<in>set (db_messages db). m_chunk_id m \<noteq> Some i"
    using assms(2) by (auto simp: messages_ok_def)
  then show "count_rows (\<lambda>m. m_chunk_id m = Some i) (db_messages db') = length rows"
    unfolding ms by (rule count_placed [OF assms(4) d assms(5,3,6)])
qed

lemma enqueue_one_ready_tables:
  assumes "enqueue_one_ready lane db i = Inr db'"
  obtains os n where "db' = db\<lparr>db_outbox := os, db_uuids := n\<rparr>"
proof -
  obtain db1 x where 1: "enqueue_outbox db (chunk_ready_spec i lane) 0 None = Inr (db1, x)"
    and db': "db' = rearm_event db1 (''chunk.ready:'' @ str_int i) ''chunk.ready''"
    using assms by (auto simp: enqueue_one_ready_def rbind_Inr_iff)
  obtain os n where "db1 = db\<lparr>db_outbox := os, db_uuids := n\<rparr>" by (rule enqueue_outbox_tables [OF 1])
  then have "db' = db\<lparr>db_outbox := db_outbox db', db_uuids := n\<rparr>"
    unfolding db' by (simp add: rearm_event_def set_event_def)
  then show thesis by (rule that)
qed

lemma enqueue_chunk_ready_tables:
  assumes "enqueue_chunk_ready db ids lane = Inr db'"
  obtains os n where "db' = db\<lparr>db_outbox := os, db_uuids := n\<rparr>"
proof -
  have "\<exists>os n. db' = db\<lparr>db_outbox := os, db_uuids := n\<rparr>"
    using assms unfolding enqueue_chunk_ready_def
  proof (induction ids arbitrary: db)
    case Nil
    then show ?case by (intro exI [of _ "db_outbox db"] exI [of _ "db_uuids db"]) simp
  next
    case (Cons i ids)
    then obtain db1 where 1: "enqueue_one_ready lane db i = Inr db1"
      "foldM (enqueue_one_ready lane) db1 ids = Inr db'" by (auto simp: rbind_Inr_iff)
    obtain os n where "db1 = db\<lparr>db_outbox := os, db_uuids := n\<rparr>"
      by (rule enqueue_one_ready_tables [OF 1(1)])
    with Cons.IH [OF 1(2)] show ?case by auto
  qed
  then show thesis using that by blast
qed

lemma unplanned_messages_keys:
  assumes "distinct (map message_key (db_messages db))"
  shows "distinct (map message_key (unplanned_messages db b))"
proof -
  have "distinct (map message_key (filter (\<lambda>m. m_batch_id m = b \<and> m_chunk_id m = None) (db_messages db)))"
    using assms by (rule distinct_map_filter)
  then show ?thesis unfolding unplanned_messages_def
    by (simp add: distinct_map)
qed

text \<open>Planning a batch that has no chunks yet.\<close>

lemma plan_new_chunks_planned:
  assumes "plan_new_chunks db b n = Inr (db', ids)" "allocations_ok db" "0 < n"
  obtains gs where "ids = map fst gs" "map snd gs = groups_of n (unplanned_messages db (b_id b))"
    "planned b db db' gs"
proof -
  let ?gs = "groups_of n (unplanned_messages db (b_id b))"
  obtain db1 where 1: "foldM (plan_group b) (db, []) (numbered_groups n (unplanned_messages db (b_id b)))
      = Inr (db1, ids)"
    and m: "materialize_in_flight_reservation (mark_sending db1 (b_id b)) (b_id b)
      (int (length (batch_chunks (mark_sending db1 (b_id b)) (b_id b))))
      (app_limit (mark_sending db1 (b_id b)) b) = Inr db'"
    using assms(1) by (auto simp: plan_new_chunks_def Let_def rbind_Inr_iff)
  have snd: "map snd (numbered_groups n (unplanned_messages db (b_id b))) = ?gs"
    by (simp add: numbered_groups_def)
  obtain new where new: "ids = new" "length new = length ?gs" "planned b db db1 (zip new ?gs)"
    using plan_groups_planned [OF 1 assms(2)] unfolding snd
    by (auto simp: numbered_groups_def)
  have "planned b db db' (zip new ?gs)"
    using new(3) ledger_tablesD(4,5,8) [OF materialize_in_flight_reservation_tables [OF m]]
    by (simp add: planned_def mark_sending_def set_batches_def)
  then show thesis using new by (intro that [of "zip new ?gs"]) simp_all
qed

lemma prepare_new_chunks_planned:
  assumes "prepare_chunks db no bs = Inr (db', ids, lane)"
    and "first_row (\<lambda>b. b_batch_no b = no) (db_batches db) = Some b"
    and "b_status b \<in> {B_queued, B_sending}" "batch_chunks db (b_id b) = []" "allocations_ok db"
  obtains gs where "ids = map fst gs" "map snd gs = groups_of (nat bs) (unplanned_messages db (b_id b))"
    "planned b db db' gs" "1 \<le> bs"
proof -
  have bs: "1 \<le> bs" using assms(1) by (auto simp: prepare_chunks_def split: if_splits)
  have "sendable_ids db (b_id b) = []" by (simp add: sendable_ids_def assms(4))
  then obtain db1 where p: "plan_new_chunks db b (nat bs) = Inr (db1, ids)"
    and e: "enqueue_chunk_ready db1 ids (lane_for (b_category b)) = Inr db'"
    using assms(1-4) bs by (auto simp: prepare_chunks_def Let_def rbind_Inr_iff DONE_BATCH_STATES_def)
  obtain gs where gs: "ids = map fst gs"
    "map snd gs = groups_of (nat bs) (unplanned_messages db (b_id b))" "planned b db db1 gs"
    using plan_new_chunks_planned [OF p assms(5)] bs by auto
  obtain os n where "db' = db1\<lparr>db_outbox := os, db_uuids := n\<rparr>"
    by (rule enqueue_chunk_ready_tables [OF e])
  with gs(3) have "planned b db db' gs" by (simp add: planned_def)
  with gs(1,2) bs show thesis using that by blast
qed

text \<open>\<open>chunk_holds db b i n\<close>: chunk \<open>i\<close> of batch \<open>b\<close> has \<open>n\<close> messages, and its recipient count and its
  allocated usage say so.\<close>

definition chunk_holds :: "db \<Rightarrow> sms_batch \<Rightarrow> int \<Rightarrow> nat \<Rightarrow> bool" where
  "chunk_holds db b i n \<longleftrightarrow> count_rows (\<lambda>m. m_chunk_id m = Some i) (db_messages db) = n
     \<and> (\<exists>c\<in>set (db_chunks db). c_id c = i \<and> c_batch_id c = b_id b \<and> c_phone_count c = int n)
     \<and> (\<exists>ua\<in>set (db_allocations db). ua_chunk_id ua = i \<and> ua_recipients ua = int n
          \<and> ua_segments ua = b_segments b * int n)"

text \<open>When the groups are all messages that satisfy \<open>P\<close>, those go to the new chunks and the others stay.\<close>

lemma planned_partition:
  assumes "planned b db db' gs" "messages_ok db" "distinct (map message_key (db_messages db))"
    and "distinct (map message_key (concat (map snd gs)))"
    and "set (concat (map snd gs)) = {m \<in> set (db_messages db). P m}"
  shows "\<forall>m\<in>set (db_messages db'). (\<exists>i\<in>set (map fst gs). m_chunk_id m = Some i)
      \<or> (m \<in> set (db_messages db) \<and> \<not> P m)"
    and "\<forall>m\<in>set (db_messages db). \<not> P m \<longrightarrow> m \<in> set (db_messages db')"
    and "\<forall>(i, rows)\<in>set gs. chunk_holds db' b i (length rows)"
proof -
  have keys: "distinct (group_keys gs)" using assms(4) by (simp add: group_keys_def)
  have mem: "message_key m \<in> set (group_keys gs) \<longleftrightarrow> P m" if "m \<in> set (db_messages db)" for m
  proof -
    have "set (group_keys gs) = message_key ` {m \<in> set (db_messages db). P m}"
      unfolding group_keys_def set_map assms(5) ..
    then show ?thesis using that assms(3) by (auto simp: distinct_map inj_on_def)
  qed
  have msgs: "db_messages db' = map (place gs) (db_messages db)" using assms(1) by (simp add: planned_def)
  have moved: "\<exists>i\<in>set (map fst gs). m_chunk_id (place gs m) = Some i"
    if "m \<in> set (db_messages db)" "P m" for m
    using mem [OF that(1)] that(2) place_chunk_cases [OF keys, of m] by force
  have stay: "place gs m = m" if "m \<in> set (db_messages db)" "\<not> P m" for m
    using mem [OF that(1)] that(2) place_out by blast
  show "\<forall>m\<in>set (db_messages db'). (\<exists>i\<in>set (map fst gs). m_chunk_id m = Some i)
      \<or> (m \<in> set (db_messages db) \<and> \<not> P m)"
  proof
    fix m' assume "m' \<in> set (db_messages db')"
    then obtain m where m: "m \<in> set (db_messages db)" "m' = place gs m" by (auto simp: msgs)
    show "(\<exists>i\<in>set (map fst gs). m_chunk_id m' = Some i) \<or> (m' \<in> set (db_messages db) \<and> \<not> P m')"
      using moved [OF m(1)] stay [OF m(1)] m by (cases "P m") simp_all
  qed
  show "\<forall>m\<in>set (db_messages db). \<not> P m \<longrightarrow> m \<in> set (db_messages db')"
    unfolding msgs set_map using stay by (metis (no_types) image_eqI)
  show "\<forall>(i, rows)\<in>set gs. chunk_holds db' b i (length rows)"
  proof clarify
    fix i rows assume r: "(i, rows) \<in> set gs"
    then have "set rows \<subseteq> set (concat (map snd gs))" by force
    then have "set rows \<subseteq> set (db_messages db)" unfolding assms(5) by auto
    from planned_group [OF assms(1-3) keys r this] show "chunk_holds db' b i (length rows)"
      by (auto simp: chunk_holds_def group_chunk_def group_usage_def)
  qed
qed

lemma own_messages_unplanned:
  assumes "messages_ok db" "batch_chunks db i = []"
  shows "set (unplanned_messages db i) = {m \<in> set (db_messages db). m_batch_id m = i}"
proof -
  have "m_chunk_id m = None" if "m \<in> set (db_messages db)" "m_batch_id m = i" for m
    using that assms by (cases "m_chunk_id m")
      (auto simp: messages_ok_def batch_chunks_def filter_empty_conv)
  then show ?thesis by (auto simp: unplanned_messages_def)
qed

section \<open>Properties\<close>


section \<open>Splitting\<close>

text \<open>What the steps before the children are created keep.\<close>

definition same_plan :: "db \<Rightarrow> db \<Rightarrow> bool" where
  "same_plan db db' \<longleftrightarrow> db_messages db' = db_messages db \<and> db_allocations db' = db_allocations db
     \<and> db_batches db' = db_batches db
     \<and> map (\<lambda>c. (c_id c, c_batch_id c)) (db_chunks db') = map (\<lambda>c. (c_id c, c_batch_id c)) (db_chunks db)"

lemma same_plan_trans: "same_plan a b \<Longrightarrow> same_plan b c \<Longrightarrow> same_plan a c"
  by (simp add: same_plan_def)

lemma same_plan_ids:
  assumes "same_plan db db'"
  shows "c_id ` set (db_chunks db') = c_id ` set (db_chunks db)"
proof -
  have "fst ` set (map (\<lambda>c. (c_id c, c_batch_id c)) (db_chunks db'))
      = fst ` set (map (\<lambda>c. (c_id c, c_batch_id c)) (db_chunks db))"
    using assms by (simp only: same_plan_def)
  then show ?thesis by (simp add: image_image)
qed

lemma same_plan_ok:
  assumes "same_plan db db'"
  shows "messages_ok db' = messages_ok db" "allocations_ok db' = allocations_ok db"
proof -
  have pairs: "(\<exists>c\<in>set (db_chunks d). c_id c = i \<and> c_batch_id c = j)
      \<longleftrightarrow> (i, j) \<in> set (map (\<lambda>c. (c_id c, c_batch_id c)) (db_chunks d))" for d i j by auto
  show "messages_ok db' = messages_ok db"
    using assms unfolding messages_ok_def pairs by (simp only: same_plan_def)
  show "allocations_ok db' = allocations_ok db"
    using assms same_plan_ids [OF assms] unfolding allocations_ok_def by (simp only: same_plan_def)
qed

lemma settle_same_plan: "settle db c s = Inr db' \<Longrightarrow> same_plan db db'"
  unfolding settle_def settle_live_test_attempt_def
  by (auto simp: rbind_Inr_iff same_plan_def Let_def update_usage_def split: option.splits if_splits)

lemma update_chunk_same_plan:
  assumes "update_chunk db i p f = (db', r)" "\<And>c. c_id (f c) = c_id c" "\<And>c. c_batch_id (f c) = c_batch_id c"
  shows "same_plan db db'"
proof -
  have "map (\<lambda>c. (c_id c, c_batch_id c)) (update_rows q f cs) = map (\<lambda>c. (c_id c, c_batch_id c)) cs" for q cs
    by (rule map_update_rows) (simp add: assms(2,3))
  then show ?thesis
    using assms(1) by (auto simp: update_chunk_def same_plan_def set_chunks_def split: option.splits)
qed

lemma split_attempt_same_plan: "settle_split_vendor_attempt db c = Inr db' \<Longrightarrow> same_plan db db'"
  by (auto simp: settle_split_vendor_attempt_def update_attempts_def write_attempts_def same_plan_def
      split: if_splits)

lemma try_expand_same_plan: "try_expand db b = Inr (db', x) \<Longrightarrow> same_plan db db'"
  by (drule try_expand_tables) (simp add: same_plan_def ledger_tablesD)

text \<open>A split that creates children ends in \<open>create_children\<close>.\<close>

lemma complete_vendor_split_children:
  assumes "complete_vendor_split db p bid cu = Inr (db', ids)" "ids \<noteq> []"
    and "existing_split_children db p = []"
  obtains db1 b where "same_plan db db1" "find_batch db bid = Some b"
    "create_children db1 b p cu = Inr (db', ids)" "2 \<le> length (chunk_messages db1 p)"
    "p \<in> c_id ` set (db_chunks db)"
proof -
  obtain c db0 where c: "find_chunk db p = Some c"
    and e: "try_expand db bid = Inr (db0, True)" and s: "create_split_children db0 p bid cu = Inr (db', ids)"
    using assms by (auto simp: complete_vendor_split_def rbind_Inr_iff split: option.splits if_splits)
  obtain db1 r where u: "update_chunk db0 p splittable (\<lambda>c. c\<lparr>c_status := C_failed,
             c_vendor_code := Some 1006, c_vendor_msg := Some ''split into smaller chunks'',
             c_submitting_since := None, c_retry_not_before := None\<rparr>) = (db1, Some r)"
    using s by (auto simp: create_split_children_def split: prod.splits option.splits)
  obtain db2 db3 b where
    2: "settle db1 p T_released = Inr db2" "settle_split_vendor_attempt db2 p = Inr db3"
    and 3: "2 \<le> length (chunk_messages db3 p)" "find_batch db3 bid = Some b"
      "create_children db3 b p cu = Inr (db', ids)"
    using s unfolding create_split_children_def u
    by (auto simp: rbind_Inr_iff split: if_splits option.splits)
  have "same_plan db0 db1" by (rule update_chunk_same_plan [OF u]) simp_all
  with try_expand_same_plan [OF e] settle_same_plan [OF 2(1)] split_attempt_same_plan [OF 2(2)]
  have same: "same_plan db db3" by (blast intro: same_plan_trans)
  moreover have "find_batch db bid = Some b"
    using 3(2) same by (simp add: find_batch_def same_plan_def)
  moreover have "p \<in> c_id ` set (db_chunks db)" using find_chunk_SomeD [OF c] by auto
  ultimately show thesis using that 3(1,3) by blast
qed

lemma create_children_planned:
  assumes "create_children db b p cu = Inr (db', ids)" "allocations_ok db"
    and "p \<in> c_id ` set (db_chunks db)"
  obtains i j db2 where "ids = [i, j]"
    "planned b db db2 [(i, take ((length (chunk_messages db p) + 1) div 2) (chunk_messages db p)),
      (j, drop ((length (chunk_messages db p) + 1) div 2) (chunk_messages db p))]"
    "db_chunks db' = db_chunks db2" "db_messages db' = db_messages db2"
    "db_allocations db' = db_allocations (clear_allocation db2 p)"
proof -
  let ?n = "fold max (map c_chunk_no (batch_chunks db (b_id b))) 0 + 1"
  let ?l = "take ((length (chunk_messages db p) + 1) div 2) (chunk_messages db p)"
  let ?r = "drop ((length (chunk_messages db p) + 1) div 2) (chunk_messages db p)"
  obtain db1 ids1 db2 where
    1: "split_child b p cu (db, []) (1, ?n, ?l) = Inr (db1, ids1)"
    and 2: "split_child b p cu (db1, ids1) (2, ?n + 1, ?r) = Inr (db2, ids)"
    and e: "enqueue_chunk_ready (clear_allocation db2 p) ids (lane_for (b_category b)) = Inr db'"
    using assms(1) unfolding create_children_def Let_def by (auto simp: rbind_Inr_iff)
  obtain i where i: "ids1 = [] @ [i]" "planned b db db1 [(i, ?l)]"
    by (rule split_child_planned [OF 1 assms(2)])
  obtain j where j: "ids = ids1 @ [j]" "planned b db1 db2 [(j, ?r)]"
    by (rule split_child_planned [OF 2 planned_allocations_ok [OF assms(2) i(2)]])
  have "planned b db db2 [(i, ?l), (j, ?r)]" using planned_append [OF i(2) j(2)] by simp
  moreover obtain os n where "db' = (clear_allocation db2 p)\<lparr>db_outbox := os, db_uuids := n\<rparr>"
    by (rule enqueue_chunk_ready_tables [OF e])
  ultimately show thesis using i(1) j(1) by (intro that [of i j db2]) (simp_all add: clear_allocation_def)
qed

lemma clear_allocation_holds:
  assumes "chunk_holds db b i n" "i \<noteq> p" "db_chunks db' = db_chunks db" "db_messages db' = db_messages db"
    and "db_allocations db' = db_allocations (clear_allocation db p)"
  shows "chunk_holds db' b i n"
proof -
  obtain ua where "ua \<in> set (db_allocations db)" "ua_chunk_id ua = i" "ua_recipients ua = int n"
    "ua_segments ua = b_segments b * int n" using assms(1) by (auto simp: chunk_holds_def)
  moreover from this assms(2) have "ua \<in> set (db_allocations db')"
    unfolding assms(5) clear_allocation_def update_rows_def by force
  ultimately show ?thesis using assms(1,3,4) unfolding chunk_holds_def by auto
qed

text \<open>C28: a split moves every message of the parent to one of two new chunks, whose sizes differ by at
  most one; their recipient counts and allocated usage are those of their messages, the parent keeps
  no message and no allocated recipients, and every other message stays where it is.\<close>

theorem split_partitions_parent:
  assumes "complete_vendor_split db p bid cu = Inr (db', ids)" "ids \<noteq> []"
    and "existing_split_children db p = []"
    and "messages_ok db" "allocations_ok db" "distinct (map message_key (db_messages db))"
  shows "\<exists>i j b k l. ids = [i, j] \<and> i \<noteq> j \<and> find_batch db bid = Some b
    \<and> chunk_holds db' b i k \<and> chunk_holds db' b j l
    \<and> k + l = count_rows (\<lambda>m. m_chunk_id m = Some p) (db_messages db) \<and> 1 \<le> l \<and> l \<le> k \<and> k \<le> l + 1
    \<and> (\<forall>m\<in>set (db_messages db'). m_chunk_id m \<noteq> Some p)
    \<and> (\<forall>ua\<in>set (db_allocations db'). ua_chunk_id ua = p \<longrightarrow> ua_recipients ua = 0)
    \<and> (\<forall>m\<in>set (db_messages db). m_chunk_id m \<noteq> Some p \<longrightarrow> m \<in> set (db_messages db'))"
proof -
  obtain db1 b where same: "same_plan db db1" and b: "find_batch db bid = Some b"
    and cr: "create_children db1 b p cu = Inr (db', ids)" and two: "2 \<le> length (chunk_messages db1 p)"
    and pin: "p \<in> c_id ` set (db_chunks db)"
    by (rule complete_vendor_split_children [OF assms(1-3)])
  have pin1: "p \<in> c_id ` set (db_chunks db1)" using pin same_plan_ids [OF same] by simp
  have ok: "messages_ok db1" "allocations_ok db1" "distinct (map message_key (db_messages db1))"
    and ms1: "db_messages db1 = db_messages db"
    using assms(4-6) same_plan_ok [OF same] same by (simp_all add: same_plan_def)
  let ?ms = "chunk_messages db1 p"
  let ?k = "(length ?ms + 1) div 2"
  obtain i j db2 where ids: "ids = [i, j]"
    and pl: "planned b db1 db2 [(i, take ?k ?ms), (j, drop ?k ?ms)]" (is "planned _ _ _ ?gs")
    and tabs: "db_chunks db' = db_chunks db2" "db_messages db' = db_messages db2"
      "db_allocations db' = db_allocations (clear_allocation db2 p)"
    by (rule create_children_planned [OF cr ok(2) pin1])
  have cc: "concat (map snd ?gs) = ?ms" by simp
  have own: "set (concat (map snd ?gs)) = {m \<in> set (db_messages db1). m_chunk_id m = Some p}"
    unfolding cc by (auto simp: chunk_messages_def)
  have "distinct (map message_key (filter (\<lambda>m. m_chunk_id m = Some p) (db_messages db1)))"
    using ok(3) by (rule distinct_map_filter)
  then have keys: "distinct (map message_key (concat (map snd ?gs)))"
    unfolding cc by (simp add: chunk_messages_def distinct_map)
  note part = planned_partition [OF pl ok(1,3) keys own]
  have new: "i \<noteq> j" "i \<noteq> p" "j \<noteq> p" using pl pin1 by (auto simp: planned_def)
  have holds: "chunk_holds db' b i ?k" "chunk_holds db' b j (length ?ms - ?k)"
    using part(3) two by (auto intro!: clear_allocation_holds [OF _ _ tabs] new(2,3))
  have len: "length ?ms = count_rows (\<lambda>m. m_chunk_id m = Some p) (db_messages db)"
    by (simp add: chunk_messages_def count_rows_def ms1)
  have gone: "\<forall>m\<in>set (db_messages db'). m_chunk_id m \<noteq> Some p"
    using part(1) new unfolding tabs(2) by auto
  have cleared: "\<forall>ua\<in>set (db_allocations db'). ua_chunk_id ua = p \<longrightarrow> ua_recipients ua = 0"
    unfolding tabs(3) clear_allocation_def by (simp add: ball_update_rows)
  have kept: "\<forall>m\<in>set (db_messages db). m_chunk_id m \<noteq> Some p \<longrightarrow> m \<in> set (db_messages db')"
    using part(2) unfolding tabs(2) ms1 .
  have "?k + (length ?ms - ?k) = count_rows (\<lambda>m. m_chunk_id m = Some p) (db_messages db)"
    "1 \<le> length ?ms - ?k" "length ?ms - ?k \<le> ?k" "?k \<le> length ?ms - ?k + 1"
    using two len by linarith+
  with ids new(1) b holds gone cleared kept show ?thesis by blast
qed

section \<open>A planned and split batch\<close>

definition example_plan :: db where
  "example_plan = (empty_db 0)\<lparr>
     db_batches := [example_batch\<lparr>b_app_id := Some 7, b_status := B_queued, b_segments := 2\<rparr>],
     db_messages := map (\<lambda>i. (example_message i)\<lparr>m_chunk_id := None\<rparr>) [1, 2, 3],
     db_apps := [\<lparr>app_id = 7, app_max_in_flight = 10, app_blacklist_check = None\<rparr>],
     db_balances := [\<lparr>bal_app_id = 7, bal_reserved = 3, bal_blocked_at = None\<rparr>],
     db_reservations := [\<lparr>rs_id = 1, rs_app_id = 7, rs_batch_id = Some 1, rs_reserved = 3,
       rs_materialized = None, rs_state = V_batch_bound, rs_generation = 1, rs_expires_at = Some 900,
       rs_release_reason = None\<rparr>]\<rparr>"

definition example_submitting :: "db res" where
  "example_submitting = rbind (prepare_chunks example_plan ''b1'' 2) (\<lambda>(db, _).
     Inr (set_chunks db (\<lambda>c. c_id c = 1) (\<lambda>c. c\<lparr>c_status := C_submitting\<rparr>)))"


lemma example_split:
  obtains db db' where "complete_vendor_split db 1 1 ''b100000001'' = Inr (db', [3, 4])"
    "existing_split_children db 1 = []" "messages_ok db" "allocations_ok db"
    "distinct (map message_key (db_messages db))"
    "count_rows (\<lambda>m. m_chunk_id m = Some 1) (db_messages db) = 2"
proof -
  have "(case example_submitting of Inl _ \<Rightarrow> False | Inr db \<Rightarrow>
      existing_split_children db 1 = [] \<and> messages_ok db \<and> allocations_ok db
      \<and> distinct (map message_key (db_messages db))
      \<and> count_rows (\<lambda>m. m_chunk_id m = Some 1) (db_messages db) = 2
      \<and> (case complete_vendor_split db 1 1 ''b100000001'' of
            Inl _ \<Rightarrow> False | Inr x \<Rightarrow> snd x = [3, 4]))"
    by code_simp
  then show thesis using that by (auto split: sum.splits)
qed

lemma split_partitions_parent_witness:
  "\<exists>db db' b. complete_vendor_split db 1 1 ''b100000001'' = Inr (db', [3, 4])
     \<and> chunk_holds db' b 3 1 \<and> chunk_holds db' b 4 1"
proof -
  obtain db db' where s: "complete_vendor_split db 1 1 ''b100000001'' = Inr (db', [3, 4])"
    "existing_split_children db 1 = []" "messages_ok db" "allocations_ok db"
    "distinct (map message_key (db_messages db))"
    "count_rows (\<lambda>m. m_chunk_id m = Some 1) (db_messages db) = 2" by (rule example_split)
  from split_partitions_parent [OF s(1) _ s(2-5)] s(6) obtain b k l where
    "chunk_holds db' b 3 k" "chunk_holds db' b 4 l" "k + l = 2" "1 \<le> l" "l \<le> k" by auto
  moreover from this have "k = 1" "l = 1" by linarith+
  ultimately show ?thesis using s(1) by blast
qed

end
