(* ===== verification/Blacklist.thy ===== *)
theory Blacklist
  imports Database "HOL-Library.List_Lexorder" "HOL-Library.Char_ord"
begin

text \<open>
  The blacklist of telephone numbers (src/backend/app/services/blacklist_repository.py). A number is
  stored under the keyed digest in use and is found by its digest under any key version. Every change
  raises the policy generation in the same transaction. The keys and the foreign key with its cascades
  are those of src/schema.sql; encrypted numbers, remarks and the audit log do not influence the
  decisions and are left out.
\<close>

section \<open>Model\<close>

record BlacklistEntry =
  en_phone_hmac :: string
  en_key_version :: int
  en_hmac_candidates :: "(int \<times> string) list"

record BlacklistUpsertResult =
  up_added :: int
  up_updated :: int

definition bump_blacklist_generation :: "db \<Rightarrow> db" where
  "bump_blacklist_generation db = db\<lparr>db_blacklist_generation := db_blacklist_generation db + 1\<rparr>"

text \<open>\<open>entry.hmac_candidates or ((entry.key_version, entry.phone_hmac),)\<close>\<close>

definition entry_aliases :: "BlacklistEntry \<Rightarrow> (int \<times> string) list" where
  "entry_aliases e = (if en_hmac_candidates e = [] then [(en_key_version e, en_phone_hmac e)]
                      else en_hmac_candidates e)"

text \<open>The rows of \<open>resolved\<close> for one digest, and the subjects that an entry names.\<close>

definition owners_by_digest :: "db \<Rightarrow> string \<Rightarrow> string list" where
  "owners_by_digest db d =
     map al_owner (filter (\<lambda>a. al_digest a = d) (db_blacklist_aliases db))
     @ filter (\<lambda>h. h = d) (db_blacklist db)"

definition entry_owners :: "db \<Rightarrow> BlacklistEntry \<Rightarrow> string list" where
  "entry_owners db e = concat (map (\<lambda>(_, d). owners_by_digest db d) (entry_aliases e))"

definition entry_current :: "db \<Rightarrow> BlacklistEntry \<Rightarrow> string option" where
  "entry_current db e =
     (let owners = entry_owners db e in
      if owners = [] then None
      else if en_phone_hmac e \<in> set owners then Some (en_phone_hmac e)
      else Some (hd (sort owners)))"

definition duplicate_owners :: "db \<Rightarrow> BlacklistEntry \<Rightarrow> string list" where
  "duplicate_owners db e =
     (case entry_current db e of None \<Rightarrow> []
      | Some current \<Rightarrow> filter (\<lambda>o'. o' \<noteq> current) (entry_owners db e))"

definition delete_subjects :: "db \<Rightarrow> string list \<Rightarrow> db" where
  "delete_subjects db owners =
     db\<lparr>db_blacklist := filter (\<lambda>h. h \<notin> set owners) (db_blacklist db),
        db_blacklist_aliases := filter (\<lambda>a. al_owner a \<notin> set owners) (db_blacklist_aliases db)\<rparr>"

text \<open>\<open>UPDATE blacklist SET phone_hmac=:canonical WHERE phone_hmac=:current\<close> with its cascade.\<close>

definition rename_subject :: "db \<Rightarrow> string \<times> string \<Rightarrow> db res" where
  "rename_subject db names =
     (let (current, canonical) = names in
      if current \<notin> set (db_blacklist db) then Inr db
      else if canonical \<noteq> current \<and> canonical \<in> set (db_blacklist db)
      then Inl (IntegrityError ''blacklist'')
      else Inr (db\<lparr>db_blacklist := update_rows (\<lambda>h. h = current) (\<lambda>_. canonical) (db_blacklist db),
             db_blacklist_aliases := update_rows (\<lambda>a. al_owner a = current)
               (\<lambda>a. a\<lparr>al_owner := canonical\<rparr>) (db_blacklist_aliases db)\<rparr>))"

definition insert_subject :: "db \<Rightarrow> string \<Rightarrow> db res" where
  "insert_subject db canonical =
     (if canonical \<in> set (db_blacklist db) then Inl (IntegrityError ''blacklist'')
      else Inr (db\<lparr>db_blacklist := db_blacklist db @ [canonical]\<rparr>))"

definition alias_key :: "blacklist_alias \<Rightarrow> int \<times> string" where
  "alias_key a = (al_version a, al_digest a)"

definition owner_key :: "blacklist_alias \<Rightarrow> string \<times> int" where
  "owner_key a = (al_owner a, al_version a)"

text \<open>\<open>INSERT INTO blacklist_hmac_alias ... ON CONFLICT(hmac_key_version,hmac_digest) DO UPDATE\<close>.\<close>

definition insert_alias :: "db \<Rightarrow> string \<times> int \<times> string \<Rightarrow> db res" where
  "insert_alias db row =
     (let (canonical, version, digest) = row;
          rows = (if list_ex (\<lambda>a. alias_key a = (version, digest)) (db_blacklist_aliases db)
                  then update_rows (\<lambda>a. alias_key a = (version, digest))
                         (\<lambda>a. a\<lparr>al_owner := canonical\<rparr>) (db_blacklist_aliases db)
                  else db_blacklist_aliases db
                    @ [\<lparr>al_version = version, al_digest = digest, al_owner = canonical\<rparr>])
      in if canonical \<notin> set (db_blacklist db) \<or> \<not> distinct (map owner_key rows)
         then Inl (IntegrityError ''blacklist_hmac_alias'')
         else Inr (db\<lparr>db_blacklist_aliases := rows\<rparr>))"

definition clear_aliases :: "db \<Rightarrow> string list \<Rightarrow> db" where
  "clear_aliases db hmacs = db\<lparr>db_blacklist_aliases :=
     filter (\<lambda>a. al_owner a \<notin> set hmacs) (db_blacklist_aliases db)\<rparr>"

definition alias_rows :: "BlacklistEntry list \<Rightarrow> (string \<times> int \<times> string) list" where
  "alias_rows entries = concat (map (\<lambda>e. map (\<lambda>(v, d). (en_phone_hmac e, v, d)) (entry_aliases e)) entries)"

definition existing_rows :: "db \<Rightarrow> BlacklistEntry list \<Rightarrow> (string \<times> string) list" where
  "existing_rows db entries = concat (map (\<lambda>e. case entry_current db e of
     None \<Rightarrow> [] | Some current \<Rightarrow> [(current, en_phone_hmac e)]) entries)"

definition new_rows :: "db \<Rightarrow> BlacklistEntry list \<Rightarrow> string list" where
  "new_rows db entries = map en_phone_hmac (filter (\<lambda>e. entry_current db e = None) entries)"

definition upsert_blacklist_entries ::
  "db \<Rightarrow> BlacklistEntry list \<Rightarrow> (db \<times> BlacklistUpsertResult) res" where
  "upsert_blacklist_entries db0 entries =
     (let db = bump_blacklist_generation db0;
          updated = length (existing_rows db0 entries)
      in rbind (foldM rename_subject
                  (delete_subjects db (concat (map (duplicate_owners db0) entries)))
                  (existing_rows db0 entries)) (\<lambda>db.
         rbind (foldM insert_subject db (new_rows db0 entries)) (\<lambda>db.
         rbind (foldM insert_alias (clear_aliases db (map en_phone_hmac entries))
                  (alias_rows entries)) (\<lambda>db.
           Inr (db, \<lparr>up_added = int (length entries) - int updated, up_updated = int updated\<rparr>)))))"

text \<open>\<open>SqlBlacklistRepository.delete\<close>. The scalar subquery raises on more than one row.\<close>

definition delete_blacklist :: "db \<Rightarrow> string \<Rightarrow> (db \<times> bool) res" where
  "delete_blacklist db phone_hmac =
     rbind (case filter (\<lambda>a. al_digest a = phone_hmac) (db_blacklist_aliases db) of
              [] \<Rightarrow> Inr phone_hmac
            | [a] \<Rightarrow> Inr (al_owner a)
            | _ \<Rightarrow> Inl (OtherError ''CardinalityViolation'')) (\<lambda>owner.
       if owner \<in> set (db_blacklist db)
       then Inr (bump_blacklist_generation (delete_subjects db [owner]), True)
       else Inr (db, False))"

text \<open>What the dispatch check reads.\<close>

definition listed :: "db \<Rightarrow> string \<Rightarrow> bool" where
  "listed db d \<longleftrightarrow> list_ex (\<lambda>a. al_digest a = d) (db_blacklist_aliases db)"

definition read_generation :: "db \<Rightarrow> int res" where
  "read_generation db =
     (if db_blacklist_generation db < 1
      then Inl (RuntimeError ''blacklist policy generation unavailable'')
      else Inr (db_blacklist_generation db))"

section \<open>Invariant\<close>

definition blacklist_inv :: "db \<Rightarrow> bool" where
  "blacklist_inv db \<longleftrightarrow> distinct (db_blacklist db)
     \<and> distinct (map alias_key (db_blacklist_aliases db))
     \<and> distinct (map owner_key (db_blacklist_aliases db))
     \<and> (\<forall>a\<in>set (db_blacklist_aliases db). al_owner a \<in> set (db_blacklist db))"

section \<open>Lemmas\<close>

text \<open>Every statement keeps the keys; each is a step of the invariant.\<close>

lemma blacklist_inv_delete: "blacklist_inv db \<Longrightarrow> blacklist_inv (delete_subjects db os)"
  by (auto simp: blacklist_inv_def delete_subjects_def distinct_map inj_on_def)

lemma blacklist_inv_clear: "blacklist_inv db \<Longrightarrow> blacklist_inv (clear_aliases db os)"
  by (auto simp: blacklist_inv_def clear_aliases_def distinct_map inj_on_def)

lemma blacklist_inv_bump [simp]: "blacklist_inv (bump_blacklist_generation db) = blacklist_inv db"
  by (simp add: blacklist_inv_def bump_blacklist_generation_def)

lemma distinct_rename:
  assumes "distinct xs" "y = x \<or> y \<notin> set xs"
  shows "distinct (update_rows (\<lambda>h. h = x) (\<lambda>_. y) xs)"
  using assms by (induction xs) (auto simp: update_rows_def)

lemma alias_key_owner [simp]: "alias_key (a\<lparr>al_owner := h\<rparr>) = alias_key a"
  by (simp add: alias_key_def)

lemma map_alias_key_update [simp]:
  "map alias_key (update_rows p (\<lambda>a. a\<lparr>al_owner := h\<rparr>) rows) = map alias_key rows"
  by (simp add: update_rows_def)

lemma set_rename: "x \<in> set xs \<Longrightarrow> set (update_rows (\<lambda>h. h = x) (\<lambda>_. y) xs) = insert y (set xs - {x})"
  by (auto simp: update_rows_def)

lemma blacklist_inv_rename:
  assumes "rename_subject db (x, y) = Inr db'" "blacklist_inv db"
  shows "blacklist_inv db'"
proof (cases "x \<in> set (db_blacklist db)")
  case True
  let ?as = "db_blacklist_aliases db"
  let ?g = "\<lambda>a. if al_owner a = x then a\<lparr>al_owner := y\<rparr> else a"
  have db': "db' = db\<lparr>db_blacklist := update_rows (\<lambda>h. h = x) (\<lambda>_. y) (db_blacklist db),
      db_blacklist_aliases := map ?g ?as\<rparr>" and y: "y = x \<or> y \<notin> set (db_blacklist db)"
    using assms(1) True by (auto simp: rename_subject_def update_rows_def split: if_splits)
  have inv: "distinct (db_blacklist db)" "distinct (map alias_key ?as)" "distinct (map owner_key ?as)"
    "\<forall>a\<in>set ?as. al_owner a \<in> set (db_blacklist db)"
    using assms(2) by (auto simp: blacklist_inv_def)
  have "inj_on ?g (set ?as)"
  proof (rule inj_onI)
    fix a b assume "a \<in> set ?as" "b \<in> set ?as" "?g a = ?g b"
    moreover from this have "alias_key a = alias_key b" by (metis alias_key_owner)
    ultimately show "a = b" using inv(2) by (auto simp: distinct_map inj_on_def)
  qed
  have "inj_on owner_key (set (map ?g ?as))"
  proof (rule inj_onI)
    fix a b assume "a \<in> set (map ?g ?as)" "b \<in> set (map ?g ?as)" and k: "owner_key a = owner_key b"
    then obtain a' b' where ab: "a' \<in> set ?as" "b' \<in> set ?as" "a = ?g a'" "b = ?g b'" by auto
    have "al_owner a' \<in> set (db_blacklist db)" "al_owner b' \<in> set (db_blacklist db)"
      using ab inv(4) by auto
    then have "owner_key a' = owner_key b'"
      using k y ab(3,4) by (auto simp: owner_key_def split: if_splits)
    then have "a' = b'" using ab(1,2) inv(3) by (auto simp: distinct_map inj_on_def)
    then show "a = b" using ab by simp
  qed
  moreover have "distinct (map ?g ?as)"
    using inv(2) \<open>inj_on ?g (set ?as)\<close> by (simp add: distinct_map)
  ultimately have "distinct (map owner_key (map ?g ?as))" by (simp add: distinct_map del: map_map)
  moreover have "map alias_key (map ?g ?as) = map alias_key ?as" by simp
  then have "distinct (map alias_key (map ?g ?as))" using inv(2) by (simp only:)
  moreover have "\<forall>a\<in>set (map ?g ?as). al_owner a \<in> insert y (set (db_blacklist db) - {x})"
    using inv(4) y by auto
  ultimately show ?thesis
    using inv(1) y True by (simp add: db' blacklist_inv_def distinct_rename set_rename)
qed (use assms in \<open>auto simp: rename_subject_def\<close>)

lemma blacklist_inv_insert_subject:
  "insert_subject db x = Inr db' \<Longrightarrow> blacklist_inv db \<Longrightarrow> blacklist_inv db'"
  by (auto simp: insert_subject_def blacklist_inv_def split: if_splits)

lemma blacklist_inv_insert_alias:
  assumes "insert_alias db (c, v, d) = Inr db'" "blacklist_inv db"
  shows "blacklist_inv db'"
proof -
  let ?as = "db_blacklist_aliases db"
  obtain rows where db': "db' = db\<lparr>db_blacklist_aliases := rows\<rparr>" "distinct (map owner_key rows)"
      "c \<in> set (db_blacklist db)"
    and rows: "rows = (if list_ex (\<lambda>a. alias_key a = (v, d)) ?as
        then update_rows (\<lambda>a. alias_key a = (v, d)) (\<lambda>a. a\<lparr>al_owner := c\<rparr>) ?as
        else ?as @ [\<lparr>al_version = v, al_digest = d, al_owner = c\<rparr>])"
    using assms(1) by (auto simp: insert_alias_def Let_def split: if_splits)
  have "distinct (map alias_key rows)"
    using assms(2) unfolding rows by (auto simp: blacklist_inv_def list_ex_iff alias_key_def)
  moreover have "\<forall>a\<in>set rows. al_owner a \<in> set (db_blacklist db)"
    using assms(2) db'(3) unfolding rows by (auto simp: blacklist_inv_def update_rows_def)
  ultimately show ?thesis using assms(2) db' by (simp add: blacklist_inv_def)
qed

lemma delete_blacklist_cases:
  assumes "delete_blacklist db d = Inr (db', b)"
  shows "db' = db \<and> \<not> b \<or> b \<and> (\<exists>x\<in>set (db_blacklist db).
    db' = bump_blacklist_generation (delete_subjects db [x]))"
  using assms by (auto simp: delete_blacklist_def rbind_Inr_iff split: list.splits if_splits)

lemma upsert_blacklist_entries_cases:
  assumes "upsert_blacklist_entries db es = Inr (db', r)"
  obtains db1 db2 where
    "foldM rename_subject (delete_subjects (bump_blacklist_generation db)
       (concat (map (duplicate_owners db) es))) (existing_rows db es) = Inr db1"
    "foldM insert_subject db1 (new_rows db es) = Inr db2"
    "foldM insert_alias (clear_aliases db2 (map en_phone_hmac es)) (alias_rows es) = Inr db'"
  using assms by (auto simp: upsert_blacklist_entries_def Let_def rbind_Inr_iff)

lemma upsert_blacklist_inv:
  assumes "upsert_blacklist_entries db es = Inr (db', r)" "blacklist_inv db"
  shows "blacklist_inv db'"
  using assms(1)
proof (rule upsert_blacklist_entries_cases)
  fix db1 db2
  assume f: "foldM rename_subject (delete_subjects (bump_blacklist_generation db)
       (concat (map (duplicate_owners db) es))) (existing_rows db es) = Inr db1"
    "foldM insert_subject db1 (new_rows db es) = Inr db2"
    "foldM insert_alias (clear_aliases db2 (map en_phone_hmac es)) (alias_rows es) = Inr db'"
  have "blacklist_inv db1"
    by (rule foldM_invariant [OF f(1)])
       (use assms(2) in \<open>auto intro: blacklist_inv_delete blacklist_inv_rename\<close>)
  then have "blacklist_inv db2"
    by (rule foldM_invariant [OF f(2)]) (auto intro: blacklist_inv_insert_subject)
  then have "blacklist_inv (clear_aliases db2 (map en_phone_hmac es))" by (rule blacklist_inv_clear)
  then show ?thesis
    by (rule foldM_invariant [OF f(3)]) (auto intro: blacklist_inv_insert_alias)
qed

text \<open>The generation is raised by exactly one.\<close>

lemma upsert_generation:
  assumes "upsert_blacklist_entries db es = Inr (db', r)"
  shows "db_blacklist_generation db' = db_blacklist_generation db + 1"
  using assms
proof (rule upsert_blacklist_entries_cases)
  let ?P = "\<lambda>x. db_blacklist_generation x = db_blacklist_generation db + 1"
  fix db1 db2
  assume f: "foldM rename_subject (delete_subjects (bump_blacklist_generation db)
       (concat (map (duplicate_owners db) es))) (existing_rows db es) = Inr db1"
    "foldM insert_subject db1 (new_rows db es) = Inr db2"
    "foldM insert_alias (clear_aliases db2 (map en_phone_hmac es)) (alias_rows es) = Inr db'"
  have "?P db1"
    by (rule foldM_invariant [OF f(1)])
       (auto simp: rename_subject_def delete_subjects_def bump_blacklist_generation_def split: if_splits)
  then have "?P db2"
    by (rule foldM_invariant [OF f(2)]) (auto simp: insert_subject_def split: if_splits)
  then have "?P (clear_aliases db2 (map en_phone_hmac es))" by (simp add: clear_aliases_def)
  then show "?P db'"
    by (rule foldM_invariant [OF f(3)]) (auto simp: insert_alias_def Let_def split: if_splits)
qed

section \<open>The policy generation\<close>

text \<open>A transaction of any component: the two that change the blacklist, or one that leaves its tables
  alone.\<close>

inductive blacklist_step :: "db \<Rightarrow> db \<Rightarrow> bool" where
  upsert: "upsert_blacklist_entries db es = Inr (db', r) \<Longrightarrow> blacklist_step db db'"
| delete: "delete_blacklist db d = Inr (db', b) \<Longrightarrow> blacklist_step db db'"
| other: "db_blacklist db' = db_blacklist db \<Longrightarrow> db_blacklist_aliases db' = db_blacklist_aliases db
    \<Longrightarrow> db_blacklist_generation db' = db_blacklist_generation db \<Longrightarrow> blacklist_step db db'"

lemma blacklist_step_version:
  assumes "blacklist_step db db'"
  shows "db_blacklist_generation db \<le> db_blacklist_generation db' \<and>
    (db_blacklist_generation db' = db_blacklist_generation db
      \<longrightarrow> db_blacklist_aliases db' = db_blacklist_aliases db)"
  using assms
  by cases (auto simp: upsert_generation bump_blacklist_generation_def delete_subjects_def
      dest!: delete_blacklist_cases)

interpretation policy: versioned blacklist_step db_blacklist_generation db_blacklist_aliases
  by unfold_locales (use blacklist_step_version in auto)

lemma blacklist_step_inv:
  assumes "blacklist_step db db'" "blacklist_inv db"
  shows "blacklist_inv db'"
  using assms(1)
proof cases
  case (upsert es r)
  then show ?thesis using assms(2) by (rule upsert_blacklist_inv)
next
  case (delete d b)
  with assms(2) show ?thesis by (auto intro: blacklist_inv_delete dest!: delete_blacklist_cases)
next
  case other
  with assms(2) show ?thesis by (simp add: blacklist_inv_def)
qed

interpretation blacklisting: invariant_system blacklist_step blacklist_inv
  by unfold_locales (rule blacklist_step_inv)

section \<open>One number\<close>

lemma entry_owners_listed:
  assumes "blacklist_inv db" "x \<in> set (entry_owners db e)"
  shows "x \<in> set (db_blacklist db)"
  using assms by (auto simp: entry_owners_def owners_by_digest_def blacklist_inv_def)

lemma entry_owners_digest:
  assumes "a \<in> set (db_blacklist_aliases db)" "al_digest a \<in> snd ` set (entry_aliases e)"
  shows "al_owner a \<in> set (entry_owners db e)"
proof -
  obtain v where "(v, al_digest a) \<in> set (entry_aliases e)" using assms(2) by auto
  moreover have "al_owner a \<in> set (owners_by_digest db (al_digest a))"
    using assms(1) by (simp add: owners_by_digest_def)
  ultimately show ?thesis unfolding entry_owners_def set_concat set_map by blast
qed

lemma entry_current_SomeD:
  assumes "entry_current db e = Some c"
  shows "c \<in> set (entry_owners db e)"
    and "en_phone_hmac e \<in> set (entry_owners db e) \<Longrightarrow> c = en_phone_hmac e"
proof -
  have ne: "entry_owners db e \<noteq> []" using assms by (auto simp: entry_current_def Let_def split: if_splits)
  then have "sort (entry_owners db e) \<noteq> []" by (metis set_empty set_sort)
  then have "hd (sort (entry_owners db e)) \<in> set (entry_owners db e)"
    using hd_in_set [of "sort (entry_owners db e)"] by simp
  with assms ne show "c \<in> set (entry_owners db e)"
    by (auto simp: entry_current_def Let_def split: if_splits)
  from assms show "en_phone_hmac e \<in> set (entry_owners db e) \<Longrightarrow> c = en_phone_hmac e"
    by (auto simp: entry_current_def Let_def split: if_splits)
qed

lemma entry_current_None_iff: "entry_current db e = None \<longleftrightarrow> entry_owners db e = []"
  by (auto simp: entry_current_def Let_def)

lemma filter_map_filter:
  assumes "\<And>a. a \<in> set xs \<Longrightarrow> (Q a \<and> P (g a)) = R a" "\<And>a. a \<in> set xs \<Longrightarrow> R a \<Longrightarrow> g a = a"
  shows "filter P (map g (filter Q xs)) = filter R xs"
  using assms
proof (induction xs)
  case (Cons x xs)
  have IH: "filter P (map g (filter Q xs)) = filter R xs" using Cons by simp
  have "(Q x \<and> P (g x)) = R x" "R x \<Longrightarrow> g x = x" using Cons.prems [of x] by auto
  with IH show ?case by (cases "Q x"; cases "R x") auto
qed simp

text \<open>The subjects an entry names are merged into one, which loses its old aliases.\<close>

lemma upsert_single_subjects:
  assumes inv: "blacklist_inv db"
    and ren: "foldM rename_subject (delete_subjects (bump_blacklist_generation db)
       (duplicate_owners db e)) (existing_rows db [e]) = Inr db1"
    and ins: "foldM insert_subject db1 (new_rows db [e]) = Inr db2"
  shows "db_blacklist_aliases (clear_aliases db2 [en_phone_hmac e]) =
      filter (\<lambda>a. al_owner a \<notin> set (entry_owners db e)) (db_blacklist_aliases db)"
    and "en_phone_hmac e \<in> set (db_blacklist db2)"
    and "\<forall>a\<in>set (db_blacklist_aliases db). al_owner a \<notin> set (entry_owners db e)
      \<longrightarrow> al_owner a \<noteq> en_phone_hmac e"
proof -
  let ?h = "en_phone_hmac e" and ?as = "db_blacklist_aliases db" and ?os = "entry_owners db e"
  have own: "\<forall>a\<in>set ?as. al_owner a \<in> set (db_blacklist db)" using inv by (simp add: blacklist_inv_def)
  have "db_blacklist_aliases (clear_aliases db2 [?h]) = filter (\<lambda>a. al_owner a \<notin> set ?os) ?as
    \<and> ?h \<in> set (db_blacklist db2) \<and> (?h \<in> set ?os \<or> ?h \<notin> set (db_blacklist db))"
  proof (cases "entry_current db e")
    case None
    then have os: "?os = []" by (simp add: entry_current_None_iff)
    have "existing_rows db [e] = []" "duplicate_owners db e = []" "new_rows db [e] = [?h]"
      by (simp_all add: existing_rows_def duplicate_owners_def new_rows_def None)
    with ren ins have db1: "db1 = delete_subjects (bump_blacklist_generation db) []"
      and "insert_subject db1 ?h = Inr db2" by (auto simp: rbind_Inr_iff)
    then have db2: "db_blacklist db2 = db_blacklist db @ [?h]" "db_blacklist_aliases db2 = ?as"
      and h: "?h \<notin> set (db_blacklist db)"
      by (auto simp: insert_subject_def delete_subjects_def bump_blacklist_generation_def
          split: if_splits)
    have "filter (\<lambda>a. al_owner a \<noteq> ?h) ?as = ?as" unfolding filter_id_conv using own h by metis
    then show ?thesis using db2 h by (simp add: clear_aliases_def os)
  next
    case (Some c)
    note c = entry_current_SomeD [OF Some]
    let ?ds = "filter (\<lambda>o'. o' \<noteq> c) ?os"
    let ?db = "delete_subjects (bump_blacklist_generation db) ?ds"
    have "existing_rows db [e] = [(c, ?h)]" "duplicate_owners db e = ?ds" "new_rows db [e] = []"
      by (simp_all add: existing_rows_def duplicate_owners_def new_rows_def Some)
    with ren ins have r: "rename_subject ?db (c, ?h) = Inr db2" by (auto simp: rbind_Inr_iff)
    have bl: "db_blacklist ?db = filter (\<lambda>h. h \<notin> set ?ds) (db_blacklist db)"
      "db_blacklist_aliases ?db = filter (\<lambda>a. al_owner a \<notin> set ?ds) ?as"
      by (simp_all add: delete_subjects_def bump_blacklist_generation_def)
    have cin: "c \<in> set (db_blacklist ?db)"
      using entry_owners_listed [OF inv c(1)] by (simp add: bl)
    with r have h: "?h = c \<or> ?h \<notin> set (db_blacklist ?db)"
      and db2: "db_blacklist db2 = update_rows (\<lambda>h. h = c) (\<lambda>_. ?h) (db_blacklist ?db)"
        "db_blacklist_aliases db2 = update_rows (\<lambda>a. al_owner a = c) (\<lambda>a. a\<lparr>al_owner := ?h\<rparr>)
           (db_blacklist_aliases ?db)"
      by (auto simp: rename_subject_def split: if_splits)
    have h': "?h \<in> set ?os \<or> ?h \<notin> set (db_blacklist db)" using h c by (auto simp: bl)
    have "filter (\<lambda>a. al_owner a \<noteq> ?h) (db_blacklist_aliases db2) = filter (\<lambda>a. al_owner a \<notin> set ?os) ?as"
      unfolding db2(2) bl(2) update_rows_def
    proof (rule filter_map_filter)
      fix a assume "a \<in> set ?as"
      then have o: "al_owner a \<in> set (db_blacklist db)" using own by simp
      show "(al_owner a \<notin> set ?ds \<and> al_owner (if al_owner a = c then a\<lparr>al_owner := ?h\<rparr> else a) \<noteq> ?h)
          = (al_owner a \<notin> set ?os)"
        using o h' c by (cases "al_owner a = c") auto
      show "al_owner a \<notin> set ?os \<Longrightarrow> (if al_owner a = c then a\<lparr>al_owner := ?h\<rparr> else a) = a"
        using c(1) by (cases "al_owner a = c") simp_all
    qed
    then show ?thesis
      using h' cin by (simp add: clear_aliases_def db2(1) set_rename)
  qed
  then show "db_blacklist_aliases (clear_aliases db2 [?h]) = filter (\<lambda>a. al_owner a \<notin> set ?os) ?as"
    "?h \<in> set (db_blacklist db2)"
    "\<forall>a\<in>set ?as. al_owner a \<notin> set ?os \<longrightarrow> al_owner a \<noteq> ?h"
    using own by auto
qed

definition alias_row :: "string \<Rightarrow> int \<times> string \<Rightarrow> blacklist_alias" where
  "alias_row h p = \<lparr>al_version = fst p, al_digest = snd p, al_owner = h\<rparr>"

text \<open>New aliases are appended where no key is in use.\<close>

lemma insert_aliases_append:
  assumes "foldM insert_alias db (map (\<lambda>(v, d). (h, v, d)) ps) = Inr db'"
    and "distinct ps" "\<forall>a\<in>set (db_blacklist_aliases db). alias_key a \<notin> set ps"
  shows "db_blacklist_aliases db' = db_blacklist_aliases db @ map (alias_row h) ps
    \<and> db_blacklist db' = db_blacklist db"
  using assms
proof (induction ps arbitrary: db)
  case (Cons p ps)
  obtain v d where p: "p = (v, d)" by (cases p)
  from Cons.prems(1) obtain dm where dm: "insert_alias db (h, v, d) = Inr dm"
    "foldM insert_alias dm (map (\<lambda>(v, d). (h, v, d)) ps) = Inr db'"
    by (auto simp: p rbind_Inr_iff)
  have "\<not> list_ex (\<lambda>a. alias_key a = (v, d)) (db_blacklist_aliases db)"
    using Cons.prems(3) by (auto simp: p list_ex_iff)
  with dm(1) have m: "db_blacklist_aliases dm = db_blacklist_aliases db @ [alias_row h p]"
    "db_blacklist dm = db_blacklist db"
    by (auto simp: insert_alias_def Let_def alias_row_def p split: if_splits)
  have "\<forall>a\<in>set (db_blacklist_aliases dm). alias_key a \<notin> set ps"
    using Cons.prems(2,3) by (auto simp: m(1) alias_row_def alias_key_def p)
  with Cons.IH [OF dm(2)] Cons.prems(2) show ?case by (simp add: m)
qed simp

lemma upsert_single:
  assumes "blacklist_inv db" "upsert_blacklist_entries db [e] = Inr (db', r)"
    and "distinct (entry_aliases e)"
  shows "db_blacklist_aliases db' =
      filter (\<lambda>a. al_owner a \<notin> set (entry_owners db e)) (db_blacklist_aliases db)
      @ map (alias_row (en_phone_hmac e)) (entry_aliases e)"
    and "en_phone_hmac e \<in> set (db_blacklist db')"
    and "\<forall>a\<in>set (db_blacklist_aliases db). al_owner a \<notin> set (entry_owners db e)
      \<longrightarrow> al_owner a \<noteq> en_phone_hmac e"
proof -
  obtain db1 db2 where f: "foldM rename_subject (delete_subjects (bump_blacklist_generation db)
       (duplicate_owners db e)) (existing_rows db [e]) = Inr db1"
    "foldM insert_subject db1 (new_rows db [e]) = Inr db2"
    "foldM insert_alias (clear_aliases db2 [en_phone_hmac e])
       (map (\<lambda>(v, d). (en_phone_hmac e, v, d)) (entry_aliases e)) = Inr db'"
    using assms(2) by (rule upsert_blacklist_entries_cases) (auto simp: alias_rows_def)
  note s = upsert_single_subjects [OF assms(1) f(1,2)]
  have "\<forall>a\<in>set (db_blacklist_aliases (clear_aliases db2 [en_phone_hmac e])).
      alias_key a \<notin> set (entry_aliases e)"
    unfolding s(1)
  proof
    fix a assume a: "a \<in> set (filter (\<lambda>a. al_owner a \<notin> set (entry_owners db e)) (db_blacklist_aliases db))"
    then have "al_digest a \<notin> snd ` set (entry_aliases e)" using entry_owners_digest [of a db e] by auto
    then show "alias_key a \<notin> set (entry_aliases e)" unfolding alias_key_def by force
  qed
  note t = insert_aliases_append [OF f(3) assms(3) this]
  show "db_blacklist_aliases db' =
      filter (\<lambda>a. al_owner a \<notin> set (entry_owners db e)) (db_blacklist_aliases db)
      @ map (alias_row (en_phone_hmac e)) (entry_aliases e)"
    using t by (simp add: s(1))
  show "en_phone_hmac e \<in> set (db_blacklist db')" using t s(2) by (simp add: clear_aliases_def)
  show "\<forall>a\<in>set (db_blacklist_aliases db). al_owner a \<notin> set (entry_owners db e)
      \<longrightarrow> al_owner a \<noteq> en_phone_hmac e" by (rule s(3))
qed

section \<open>Properties\<close>

text \<open>C34: blacklisting a number and taking it off again. Once the number is added, each of its digests
  is found. Deleting it under any one of them removes all of them, and what remains of the aliases is
  exactly those of the subjects that the number did not name.\<close>

theorem blacklisting_round_trip:
  assumes "blacklist_inv db" "upsert_blacklist_entries db [e] = Inr (db1, r)"
    and "distinct (map snd (entry_aliases e))" "(v, d) \<in> set (entry_aliases e)"
  shows "(\<forall>p\<in>set (entry_aliases e). listed db1 (snd p)) \<and>
    (\<exists>db2. delete_blacklist db1 d = Inr (db2, True)
       \<and> (\<forall>p\<in>set (entry_aliases e). \<not> listed db2 (snd p))
       \<and> db_blacklist_aliases db2 =
           filter (\<lambda>a. al_owner a \<notin> set (entry_owners db e)) (db_blacklist_aliases db))"
proof -
  let ?h = "en_phone_hmac e" and ?ps = "entry_aliases e"
  let ?rest = "filter (\<lambda>a. al_owner a \<notin> set (entry_owners db e)) (db_blacklist_aliases db)"
  have "distinct ?ps" using assms(3) by (simp add: distinct_map)
  note u = upsert_single [OF assms(1,2) this]
  have rest: "al_digest a \<notin> snd ` set ?ps" "al_owner a \<noteq> ?h" if "a \<in> set ?rest" for a
    using that entry_owners_digest [of a db e] u(3) by auto
  have none: "filter (\<lambda>a. al_digest a = x) ?rest = []" if "x \<in> snd ` set ?ps" for x
    unfolding filter_empty_conv using rest(1) that by blast
  have "listed db1 (snd p)" if "p \<in> set ?ps" for p
  proof -
    have "alias_row ?h p \<in> set (db_blacklist_aliases db1)" "al_digest (alias_row ?h p) = snd p"
      using that by (simp_all add: u(1) alias_row_def)
    then show ?thesis unfolding listed_def list_ex_iff by blast
  qed
  moreover
  have "filter (\<lambda>p. snd p = d) ?ps = [(v, d)]"
    by (rule filter_unique_key [OF assms(3,4)]) simp_all
  then have "filter (\<lambda>a. al_digest a = d) (db_blacklist_aliases db1) = [alias_row ?h (v, d)]"
    using none [of d] assms(4) by (force simp: u(1) filter_map comp_def alias_row_def)
  then have del: "delete_blacklist db1 d =
      Inr (bump_blacklist_generation (delete_subjects db1 [?h]), True)"
    using u(2) by (simp add: delete_blacklist_def alias_row_def)
  have "filter (\<lambda>a. al_owner a \<notin> {?h}) ?rest = ?rest"
    unfolding filter_id_conv using rest(2) by blast
  then have al: "db_blacklist_aliases (bump_blacklist_generation (delete_subjects db1 [?h])) = ?rest"
    by (simp add: bump_blacklist_generation_def delete_subjects_def u(1) alias_row_def filter_empty_conv)
  have "\<not> listed (bump_blacklist_generation (delete_subjects db1 [?h])) (snd p)" if "p \<in> set ?ps" for p
    unfolding listed_def al list_ex_iff using rest(1) that by blast
  ultimately show ?thesis using del al by blast
qed

definition example_entry :: BlacklistEntry where
  "example_entry = \<lparr>en_phone_hmac = ''c2'', en_key_version = 2,
     en_hmac_candidates = [(1, ''c1''), (2, ''c2'')]\<rparr>"

text \<open>A database that holds the number under its old digest, and another number.\<close>

definition example_blacklist :: db where
  "example_blacklist = (empty_db 0)\<lparr>db_blacklist := [''c1'', ''x1''],
     db_blacklist_aliases := [alias_row ''c1'' (1, ''c1''), alias_row ''x1'' (1, ''x1'')]\<rparr>"

theorem blacklisting_round_trip_witness:
  "\<exists>db1 db2 r. upsert_blacklist_entries example_blacklist [example_entry] = Inr (db1, r)
     \<and> listed db1 ''c1'' \<and> delete_blacklist db1 ''c1'' = Inr (db2, True)
     \<and> \<not> listed db2 ''c2'' \<and> listed db2 ''x1''"
proof -
  have "(case upsert_blacklist_entries example_blacklist [example_entry] of Inl _ \<Rightarrow> False | Inr _ \<Rightarrow> True)"
    by code_simp
  then obtain db1 r where u: "upsert_blacklist_entries example_blacklist [example_entry] = Inr (db1, r)"
    by (auto split: sum.splits)
  have i: "blacklist_inv example_blacklist"
    by (simp add: blacklist_inv_def example_blacklist_def alias_row_def alias_key_def owner_key_def)
  have x: "filter (\<lambda>a. al_owner a \<notin> set (entry_owners example_blacklist example_entry))
      (db_blacklist_aliases example_blacklist) = [alias_row ''x1'' (1, ''x1'')]" by code_simp
  have al: "entry_aliases example_entry = [(1, ''c1''), (2, ''c2'')]"
    by (simp add: entry_aliases_def example_entry_def)
  have "listed db2 ''x1''" if "db_blacklist_aliases db2 = [alias_row ''x1'' (1, ''x1'')]" for db2
    using that by (simp add: listed_def alias_row_def)
  then show ?thesis
    using blacklisting_round_trip [OF i u, unfolded x al, of 1 "''c1''"] u by auto
qed

end
