(* ===== verification/Blacklist_Set.thy ===== *)
theory Blacklist_Set
  imports Blacklist
begin

text \<open>
  The blacklist as the callers see it: a set of telephone numbers. The relation \<open>holds\<close> ties the two
  tables to such a set, and the operations of the repository are shown to act on the set as adding,
  deleting and asking for a number.
\<close>

section \<open>Numbers and digests\<close>

text \<open>What the keyed digests of a number promise: an entry lists a number under one digest for each key
  version, the stored digest is among them, and no two numbers share a digest.\<close>

definition digests :: "BlacklistEntry \<Rightarrow> string set" where
  "digests e = snd ` set (entry_aliases e)"

definition well_keyed :: "BlacklistEntry \<Rightarrow> bool" where
  "well_keyed e \<longleftrightarrow> distinct (map fst (entry_aliases e)) \<and> distinct (map snd (entry_aliases e))
     \<and> en_phone_hmac e \<in> digests e"

definition keyed :: "('n \<Rightarrow> BlacklistEntry) \<Rightarrow> bool" where
  "keyed entry \<longleftrightarrow> (\<forall>n. well_keyed (entry n)) \<and> (\<forall>m n. m \<noteq> n \<longrightarrow> digests (entry m) \<inter> digests (entry n) = {})"

text \<open>The tables hold exactly the set \<open>N\<close> of numbers.\<close>

definition rows_of :: "BlacklistEntry \<Rightarrow> blacklist_alias set" where
  "rows_of e = alias_row (en_phone_hmac e) ` set (entry_aliases e)"

definition holds :: "('n \<Rightarrow> BlacklistEntry) \<Rightarrow> db \<Rightarrow> 'n set \<Rightarrow> bool" where
  "holds entry db N \<longleftrightarrow> blacklist_inv db
     \<and> set (db_blacklist_aliases db) = (\<Union>n\<in>N. rows_of (entry n))
     \<and> set (db_blacklist db) = (\<lambda>n. en_phone_hmac (entry n)) ` N"

section \<open>Lemmas\<close>

lemma rows_of_owner: "a \<in> rows_of e \<Longrightarrow> al_owner a = en_phone_hmac e"
  by (auto simp: rows_of_def alias_row_def)

lemma rows_of_digest: "a \<in> rows_of e \<Longrightarrow> al_digest a \<in> digests e"
  by (force simp: rows_of_def alias_row_def digests_def)

lemma digests_row: "d \<in> digests e \<Longrightarrow> \<exists>a\<in>rows_of e. al_digest a = d"
  by (force simp: rows_of_def alias_row_def digests_def)

lemma keyed_hmac:
  assumes "keyed entry"
  shows "en_phone_hmac (entry n) \<in> digests (entry n)"
    and "d \<in> digests (entry m) \<Longrightarrow> d \<in> digests (entry n) \<Longrightarrow> m = n"
    and "en_phone_hmac (entry m) = en_phone_hmac (entry n) \<longleftrightarrow> m = n"
proof -
  show h: "en_phone_hmac (entry n) \<in> digests (entry n)" for n
    using assms by (simp add: keyed_def well_keyed_def)
  show i: "d \<in> digests (entry m) \<Longrightarrow> d \<in> digests (entry n) \<Longrightarrow> m = n" for d m n
    using assms by (auto simp: keyed_def)
  show "en_phone_hmac (entry m) = en_phone_hmac (entry n) \<longleftrightarrow> m = n"
    using h [of m] h [of n] i [of "en_phone_hmac (entry m)" m n] by auto
qed

lemma listed_iff:
  assumes "keyed entry" "holds entry db N" "d \<in> digests (entry n)"
  shows "listed db d \<longleftrightarrow> n \<in> N"
proof
  assume "listed db d"
  then obtain a m where "m \<in> N" "a \<in> rows_of (entry m)" "al_digest a = d"
    using assms(2) by (auto simp: listed_def list_ex_iff holds_def)
  then have "m = n" using keyed_hmac(2) [OF assms(1)] assms(3) rows_of_digest by blast
  with \<open>m \<in> N\<close> show "n \<in> N" by simp
next
  assume "n \<in> N"
  then show "listed db d"
    using assms(2) digests_row [OF assms(3)] by (force simp: listed_def list_ex_iff holds_def)
qed

lemma entry_owners_of:
  assumes "keyed entry" "holds entry db N"
  shows "set (entry_owners db (entry n)) = (if n \<in> N then {en_phone_hmac (entry n)} else {})"
proof -
  have owners: "set (entry_owners db (entry n)) = (\<Union>d\<in>digests (entry n). set (owners_by_digest db d))"
    by (simp add: entry_owners_def digests_def case_prod_unfold)
  have sub: "x = en_phone_hmac (entry n) \<and> n \<in> N" if x: "x \<in> set (entry_owners db (entry n))" for x
  proof -
    obtain d where d: "d \<in> digests (entry n)" "x \<in> set (owners_by_digest db d)"
      using x unfolding owners by blast
    then consider a where "a \<in> set (db_blacklist_aliases db)" "al_digest a = d" "x = al_owner a"
      | "x = d" "d \<in> set (db_blacklist db)"
      by (auto simp: owners_by_digest_def)
    then show ?thesis
    proof cases
      case 1
      then obtain m where m: "m \<in> N" "a \<in> rows_of (entry m)" using assms(2) by (auto simp: holds_def)
      then have "m = n" using keyed_hmac(2) [OF assms(1)] rows_of_digest d(1) 1(2) by blast
      with m 1(3) rows_of_owner show ?thesis by auto
    next
      case 2
      then obtain m where m: "m \<in> N" "d = en_phone_hmac (entry m)" using assms(2) by (auto simp: holds_def)
      then have "m = n" using keyed_hmac(1,2) [OF assms(1)] d(1) by blast
      with m 2 show ?thesis by simp
    qed
  qed
  have sup: "en_phone_hmac (entry n) \<in> set (entry_owners db (entry n))" if "n \<in> N"
  proof -
    have "en_phone_hmac (entry n) \<in> set (owners_by_digest db (en_phone_hmac (entry n)))"
      using that assms(2) by (auto simp: owners_by_digest_def holds_def)
    then show ?thesis using keyed_hmac(1) [OF assms(1), of n] unfolding owners by blast
  qed
  show ?thesis
  proof (cases "n \<in> N")
    case True
    then show ?thesis unfolding if_P [OF True] using sub sup by blast
  next
    case False
    show ?thesis unfolding if_not_P [OF False]
      by (rule equals0I) (drule sub, simp add: False)
  qed
qed

text \<open>New aliases go in when neither key is in use.\<close>

lemma owner_key_row: "owner_key (alias_row h p) = (h, fst p)"
  by (simp add: owner_key_def alias_row_def)

lemma alias_key_row: "alias_key (alias_row h p) = p"
  by (simp add: alias_key_def alias_row_def)

lemma insert_aliases_succeed:
  assumes "h \<in> set (db_blacklist db)" "distinct (map fst ps)"
    and "\<forall>a\<in>set (db_blacklist_aliases db). alias_key a \<notin> set ps \<and> owner_key a \<notin> (\<lambda>p. (h, fst p)) ` set ps"
    and "distinct (map owner_key (db_blacklist_aliases db))"
  shows "foldM insert_alias db (map (\<lambda>(v, d). (h, v, d)) ps)
    = Inr (db\<lparr>db_blacklist_aliases := db_blacklist_aliases db @ map (alias_row h) ps\<rparr>)"
  using assms
proof (induction ps arbitrary: db)
  case (Cons p ps)
  obtain v d where p: "p = (v, d)" by (cases p)
  let ?as = "db_blacklist_aliases db"
  have "\<not> list_ex (\<lambda>a. alias_key a = (v, d)) ?as" using Cons.prems(3) by (auto simp: list_ex_iff p)
  moreover have "distinct (map owner_key (?as @ [alias_row h p]))"
    using Cons.prems(3,4) by (auto simp: owner_key_row)
  ultimately have i: "insert_alias db (h, v, d) = Inr (db\<lparr>db_blacklist_aliases := ?as @ [alias_row h p]\<rparr>)"
    using Cons.prems(1) by (simp add: insert_alias_def p alias_row_def)
  let ?db = "db\<lparr>db_blacklist_aliases := ?as @ [alias_row h p]\<rparr>"
  have "foldM insert_alias ?db (map (\<lambda>(v, d). (h, v, d)) ps)
      = Inr (?db\<lparr>db_blacklist_aliases := db_blacklist_aliases ?db @ map (alias_row h) ps\<rparr>)"
  proof (rule Cons.IH)
    show "h \<in> set (db_blacklist ?db)" "distinct (map fst ps)" using Cons.prems(1,2) by simp_all
    show "distinct (map owner_key (db_blacklist_aliases ?db))"
      using \<open>distinct (map owner_key (?as @ [alias_row h p]))\<close> by simp
    have "fst p \<notin> fst ` set ps" using Cons.prems(2) by simp
    then show "\<forall>a\<in>set (db_blacklist_aliases ?db). alias_key a \<notin> set ps \<and> owner_key a \<notin> (\<lambda>p. (h, fst p)) ` set ps"
      using Cons.prems(3) by (auto simp: owner_key_row alias_key_row image_iff)
  qed
  then show ?case by (simp add: p i)
qed simp

text \<open>The two shapes of an upsert: a number that is already there, and a new one.\<close>

lemma upsert_subjects:
  assumes "keyed entry" "holds entry db N"
  shows "\<exists>db2. foldM rename_subject (delete_subjects (bump_blacklist_generation db)
       (duplicate_owners db (entry n))) (existing_rows db [entry n]) = Inr db2
    \<and> (\<exists>db3. foldM insert_subject db2 (new_rows db [entry n]) = Inr db3
      \<and> db_blacklist_aliases db3 = db_blacklist_aliases db
      \<and> set (db_blacklist db3) = insert (en_phone_hmac (entry n)) (set (db_blacklist db)))"
proof -
  let ?h = "en_phone_hmac (entry n)" and ?b = "bump_blacklist_generation db"
  have b: "db_blacklist ?b = db_blacklist db" "db_blacklist_aliases ?b = db_blacklist_aliases db"
    by (simp_all add: bump_blacklist_generation_def)
  note o = entry_owners_of [OF assms, of n]
  show ?thesis
  proof (cases "n \<in> N")
    case True
    then have m: "set (entry_owners db (entry n)) = {?h}" using o by simp
    then have "entry_owners db (entry n) \<noteq> []" "?h \<in> set (entry_owners db (entry n))" by (force, simp)
    then have c: "entry_current db (entry n) = Some ?h" by (simp add: entry_current_def Let_def)
    have "duplicate_owners db (entry n) = []" using m by (simp add: duplicate_owners_def c)
    then have d: "delete_subjects ?b (duplicate_owners db (entry n)) = ?b" by (simp add: delete_subjects_def)
    have h: "?h \<in> set (db_blacklist db)" using True assms(2) by (auto simp: holds_def)
    have u: "update_rows (\<lambda>x. x = ?h) (\<lambda>_. ?h) xs = xs" for xs by (simp add: update_rows_def)
    have ua: "update_rows (\<lambda>a. al_owner a = ?h) (\<lambda>a. a\<lparr>al_owner := ?h\<rparr>) as = as" for as
      unfolding update_rows_def by (rule map_idI) auto
    have "rename_subject ?b (?h, ?h) = Inr ?b" using h by (simp add: rename_subject_def b u ua)
    then show ?thesis using c d h by (simp add: existing_rows_def new_rows_def b insert_absorb)
  next
    case False
    then have "entry_owners db (entry n) = []" using o by simp
    then have c: "entry_current db (entry n) = None" by (simp add: entry_current_def)
    have h: "?h \<notin> set (db_blacklist db)"
      using False assms(2) keyed_hmac(3) [OF assms(1)] by (auto simp: holds_def)
    show ?thesis using h
      by (simp add: existing_rows_def new_rows_def c duplicate_owners_def delete_subjects_def insert_subject_def b)
  qed
qed

lemma upsert_refines:
  assumes "keyed entry" "holds entry db N"
  shows "\<exists>db' r. upsert_blacklist_entries db [entry n] = Inr (db', r) \<and> holds entry db' (insert n N)"
proof -
  let ?h = "en_phone_hmac (entry n)" and ?ps = "entry_aliases (entry n)"
  obtain db2 db3 where f: "foldM rename_subject (delete_subjects (bump_blacklist_generation db)
       (duplicate_owners db (entry n))) (existing_rows db [entry n]) = Inr db2"
    "foldM insert_subject db2 (new_rows db [entry n]) = Inr db3"
    and s: "db_blacklist_aliases db3 = db_blacklist_aliases db"
      "set (db_blacklist db3) = insert ?h (set (db_blacklist db))"
    using upsert_subjects [OF assms] by blast
  define db4 where "db4 = clear_aliases db3 [?h]"
  have as: "db_blacklist_aliases db4 = filter (\<lambda>a. al_owner a \<noteq> ?h) (db_blacklist_aliases db)"
    and bl: "set (db_blacklist db4) = insert ?h (set (db_blacklist db))"
    by (simp_all add: db4_def clear_aliases_def s)
  have other: "set (db_blacklist_aliases db4) = (\<Union>m\<in>N - {n}. rows_of (entry m))"
    using assms(2) keyed_hmac(3) [OF assms(1)] rows_of_owner by (fastforce simp: as holds_def)
  have k: "well_keyed (entry n)" using assms(1) by (simp add: keyed_def)
  have "foldM insert_alias db4 (map (\<lambda>(v, d). (?h, v, d)) ?ps)
      = Inr (db4\<lparr>db_blacklist_aliases := db_blacklist_aliases db4 @ map (alias_row ?h) ?ps\<rparr>)"
  proof (rule insert_aliases_succeed)
    show "?h \<in> set (db_blacklist db4)" by (simp add: bl)
    show "distinct (map fst ?ps)" using k by (simp add: well_keyed_def)
    show "distinct (map owner_key (db_blacklist_aliases db4))"
      unfolding as using assms(2) by (auto simp: holds_def blacklist_inv_def intro: distinct_map_filter)
    show "\<forall>a\<in>set (db_blacklist_aliases db4). alias_key a \<notin> set ?ps \<and> owner_key a \<notin> (\<lambda>p. (?h, fst p)) ` set ?ps"
    proof
      fix a assume a: "a \<in> set (db_blacklist_aliases db4)"
      then obtain m where m: "m \<noteq> n" "a \<in> rows_of (entry m)" unfolding other by blast
      then have "al_digest a \<notin> digests (entry n)" using keyed_hmac(2) [OF assms(1)] rows_of_digest by blast
      moreover have "al_owner a \<noteq> ?h" using a by (simp add: as)
      ultimately show "alias_key a \<notin> set ?ps \<and> owner_key a \<notin> (\<lambda>p. (?h, fst p)) ` set ?ps"
        by (auto simp: alias_key_def owner_key_def digests_def image_iff)
    qed
  qed
  then obtain db' where d: "foldM insert_alias db4 (map (\<lambda>(v, d). (?h, v, d)) ?ps) = Inr db'"
    and r: "set (db_blacklist_aliases db') = set (db_blacklist_aliases db4) \<union> rows_of (entry n)"
      "set (db_blacklist db') = insert ?h (set (db_blacklist db))"
    by (simp add: rows_of_def bl)
  have "upsert_blacklist_entries db [entry n] = Inr (db', \<lparr>up_added = 1 - int (length (existing_rows db [entry n])),
      up_updated = int (length (existing_rows db [entry n]))\<rparr>)"
    using f d by (simp add: upsert_blacklist_entries_def Let_def alias_rows_def db4_def)
  moreover from this have "blacklist_inv db'"
    using upsert_blacklist_inv assms(2) by (auto simp: holds_def)
  then have "holds entry db' (insert n N)"
    using assms(2) unfolding holds_def r other by auto
  ultimately show ?thesis by blast
qed

lemma distinct_singleton: "distinct xs \<Longrightarrow> set xs = {x} \<Longrightarrow> xs = [x]"
  by (cases xs; cases "tl xs") auto

lemma found_row:
  assumes "keyed entry" "holds entry db N" "(v, d) \<in> set (entry_aliases (entry n))"
  shows "filter (\<lambda>a. al_digest a = d) (db_blacklist_aliases db)
    = (if n \<in> N then [alias_row (en_phone_hmac (entry n)) (v, d)] else [])"
proof -
  let ?f = "filter (\<lambda>a. al_digest a = d) (db_blacklist_aliases db)" and ?r = "alias_row (en_phone_hmac (entry n)) (v, d)"
  have d: "d \<in> digests (entry n)" using assms(3) by (force simp: digests_def)
  have mem: "a \<in> set (db_blacklist_aliases db) \<longleftrightarrow> (\<exists>m\<in>N. a \<in> rows_of (entry m))" for a
    using assms(2) by (simp add: holds_def)
  have inj: "inj_on snd (set (entry_aliases (entry n)))"
    using assms(1) by (simp add: keyed_def well_keyed_def distinct_map)
  have row: "n \<in> N \<and> a = ?r" if a: "a \<in> set ?f" for a
  proof -
    from a obtain m where m: "m \<in> N" "a \<in> rows_of (entry m)" and ad: "al_digest a = d" using mem by auto
    have "m = n" by (rule keyed_hmac(2) [OF assms(1) _ d]) (use rows_of_digest [OF m(2)] ad in simp)
    with m obtain p where p: "p \<in> set (entry_aliases (entry n))" "a = alias_row (en_phone_hmac (entry n)) p"
      by (auto simp: rows_of_def)
    with ad have "snd p = d" by (simp add: alias_row_def)
    then have "p = (v, d)" using inj_onD [OF inj, of p "(v, d)"] p(1) assms(3) by simp
    with p m \<open>m = n\<close> show ?thesis by simp
  qed
  show ?thesis
  proof (cases "n \<in> N")
    case True
    have "?r \<in> rows_of (entry n)" using assms(3) by (simp add: rows_of_def)
    then have "?r \<in> set ?f" using True mem by (auto simp: alias_row_def)
    then have "set ?f = {?r}" using row by blast
    moreover have "distinct ?f" using assms(2) by (simp add: holds_def blacklist_inv_def distinct_map)
    ultimately show ?thesis unfolding if_P [OF True] by (rule distinct_singleton [rotated])
  next
    case False
    have "set ?f = {}" by (rule equals0I) (drule row, simp add: False)
    then show ?thesis using False by (simp only: set_empty if_False)
  qed
qed

lemma delete_refines:
  assumes "keyed entry" "holds entry db N" "d \<in> digests (entry n)"
  shows "\<exists>db'. delete_blacklist db d = Inr (db', n \<in> N) \<and> holds entry db' (N - {n})"
proof -
  let ?h = "en_phone_hmac (entry n)"
  obtain v where v: "(v, d) \<in> set (entry_aliases (entry n))" using assms(3) by (auto simp: digests_def)
  note f = found_row [OF assms(1,2) v]
  show ?thesis
  proof (cases "n \<in> N")
    case True
    have "?h \<in> set (db_blacklist db)" using True assms(2) by (simp add: holds_def)
    then have del: "delete_blacklist db d = Inr (bump_blacklist_generation (delete_subjects db [?h]), True)"
      using f True by (simp add: delete_blacklist_def alias_row_def)
    let ?db = "bump_blacklist_generation (delete_subjects db [?h])"
    have "set (db_blacklist_aliases ?db) = {a \<in> \<Union>n\<in>N. rows_of (entry n). al_owner a \<noteq> ?h}"
      "set (db_blacklist ?db) = {x \<in> (\<lambda>n. en_phone_hmac (entry n)) ` N. x \<noteq> ?h}"
      using assms(2) by (auto simp: bump_blacklist_generation_def delete_subjects_def holds_def)
    moreover have "{a \<in> \<Union>n\<in>N. rows_of (entry n). al_owner a \<noteq> ?h} = (\<Union>m\<in>N - {n}. rows_of (entry m))"
      using keyed_hmac(3) [OF assms(1)] by (auto simp: rows_of_owner)
    moreover have "{x \<in> (\<lambda>n. en_phone_hmac (entry n)) ` N. x \<noteq> ?h} = (\<lambda>n. en_phone_hmac (entry n)) ` (N - {n})"
      using keyed_hmac(3) [OF assms(1)] by auto
    moreover have "blacklist_inv ?db" using assms(2) blacklist_inv_delete by (simp add: holds_def)
    ultimately have "holds entry ?db (N - {n})" unfolding holds_def by simp
    with del True show ?thesis by simp
  next
    case False
    have "d \<notin> set (db_blacklist db)"
    proof
      assume "d \<in> set (db_blacklist db)"
      then obtain m where "m \<in> N" "d = en_phone_hmac (entry m)" using assms(2) by (auto simp: holds_def)
      with keyed_hmac(1) [OF assms(1), of m] keyed_hmac(2) [OF assms(1) _ assms(3), of m] False
      show False by simp
    qed
    then show ?thesis using f False assms(2) by (simp add: delete_blacklist_def)
  qed
qed

section \<open>Properties\<close>

text \<open>C39: the tables of the blacklist implement a set of telephone numbers. Given digests that tell numbers
  apart, adding a number always succeeds and gives the tables of the larger set; deleting one by any of
  its digests always succeeds, says whether it was there and gives the tables of the smaller set; and a
  number is found under any of its digests exactly when it is in the set.\<close>

theorem blacklist_refines_a_set:
  assumes "keyed entry" "holds entry db N"
  shows "(\<exists>db' r. upsert_blacklist_entries db [entry n] = Inr (db', r) \<and> holds entry db' (insert n N)) \<and>
    (\<forall>d\<in>digests (entry n). (listed db d \<longleftrightarrow> n \<in> N) \<and>
      (\<exists>db'. delete_blacklist db d = Inr (db', n \<in> N) \<and> holds entry db' (N - {n})))"
  using upsert_refines [OF assms] delete_refines [OF assms] listed_iff [OF assms] by blast

definition example_numbers :: "bool \<Rightarrow> BlacklistEntry" where
  "example_numbers n = (if n then example_entry
     else \<lparr>en_phone_hmac = ''x1'', en_key_version = 1, en_hmac_candidates = []\<rparr>)"

theorem blacklist_refines_a_set_witness:
  "\<exists>db' r. upsert_blacklist_entries (empty_db 0) [example_numbers True] = Inr (db', r)
     \<and> holds example_numbers db' {True}"
proof -
  have "keyed example_numbers"
    by (auto simp: keyed_def well_keyed_def digests_def example_numbers_def example_entry_def entry_aliases_def)
  moreover have "holds example_numbers (empty_db 0) {}"
    by (simp add: holds_def blacklist_inv_def empty_db_def)
  ultimately show ?thesis using blacklist_refines_a_set [of example_numbers "empty_db 0" "{}" True] by simp
qed

end
