(* ===== verification/Send_Payload.thy ===== *)
theory Send_Payload
  imports Send_Split
begin

text \<open>
  The payload that a worker submits (\<open>ChunkPayload\<close> of src/backend/app/tasks/send.py) and the queries
  that assemble it (src/backend/app/tasks/send_repository_payload.py). Encrypted columns are modelled
  by their plain text. The number of recipients that are not on the list of test recipients is the
  parameter \<open>se_denied\<close>, read only when the live test is on.
\<close>

record ChunkPayload =
  ck_chunk_id :: int
  ck_batch_id :: int
  ck_custom_id :: string
  ck_phones :: "string list"
  ck_content :: pystr
  ck_template_id :: string
  ck_sign_name :: pystr
  ck_retry_count :: int
  ck_denied_recipient_count :: int
  ck_selected_vendor :: string
  ck_route_generation :: int
  ck_category :: string
  ck_status :: chunk_status
  ck_next_vendor :: "string option"
  ck_route_policy_version :: int
  ck_failover_from_attempt_id :: "int option"
  ck_is_test :: bool

definition chunk_pending :: "db \<Rightarrow> int \<Rightarrow> sms_message list" where
  "chunk_pending db chunk_id = sort_key message_key
     (filter (\<lambda>m. m_chunk_id m = Some chunk_id \<and> m_status m = M_pending) (db_messages db))"

definition payload_of :: "sms_chunk \<Rightarrow> sms_batch \<Rightarrow> string list \<Rightarrow> int \<Rightarrow> ChunkPayload" where
  "payload_of c b phones denied =
     \<lparr>ck_chunk_id = c_id c, ck_batch_id = c_batch_id c, ck_custom_id = strip (c_custom_id c),
      ck_phones = (if denied \<noteq> 0 then [] else phones), ck_content = b_content b,
      ck_template_id = b_template b, ck_sign_name = b_sign_name b,
      ck_retry_count = c_retry_count c, ck_denied_recipient_count = denied,
      ck_selected_vendor = (if c_selected_vendor c = [] then PRIMARY_VENDOR_ID else c_selected_vendor c),
      ck_route_generation = max 1 (int_or (c_route_generation c) 1),
      ck_category = category_or_notice (b_category b), ck_status = c_status c,
      ck_next_vendor = c_next_vendor c,
      ck_route_policy_version = max 1 (int_or (c_policy_version c) 1),
      ck_failover_from_attempt_id = c_failover_from c, ck_is_test = b_is_test b\<rparr>"

definition payload :: "store_env \<Rightarrow> db \<Rightarrow> int \<Rightarrow> ChunkPayload res" where
  "payload env db chunk_id =
     (case find_chunk db chunk_id of
        None \<Rightarrow> Inl (OtherError ''NoResultFound'')
      | Some c \<Rightarrow> (case find_batch db (c_batch_id c) of
          None \<Rightarrow> Inl (OtherError ''NoResultFound'')
        | Some b \<Rightarrow> Inr (payload_of c b (map m_phone (chunk_pending db chunk_id))
            (if se_vendor_live_test env then se_denied env db chunk_id else 0))))"

definition refresh_invoke_payload :: "store_env \<Rightarrow> db \<Rightarrow> int \<Rightarrow> ChunkPayload res" where
  "refresh_invoke_payload env db chunk_id = payload env db chunk_id"

definition load_chunk :: "store_env \<Rightarrow> db \<Rightarrow> int \<Rightarrow> (ChunkPayload \<times> string) option res" where
  "load_chunk env db chunk_id =
     (case find_chunk db chunk_id of
        None \<Rightarrow> Inr None
      | Some c \<Rightarrow> (case find_batch db (c_batch_id c) of
          None \<Rightarrow> Inr None
        | Some b \<Rightarrow>
            if b_status b \<in> {B_queued, B_sending} \<and> sendable_chunk db c
            then rbind (payload env db chunk_id) (\<lambda>p. Inr (Some (p, lane_for (b_category b))))
            else Inr None))"

definition split_once :: "store_env \<Rightarrow> db \<Rightarrow> ChunkPayload \<Rightarrow> (db \<times> ChunkPayload list) res" where
  "split_once env db chunk =
     (if length (ck_phones chunk) < 2 then Inr (db, [])
      else rbind (complete_vendor_split db (ck_chunk_id chunk) (ck_batch_id chunk) (ck_custom_id chunk))
        (\<lambda>(db, child_ids). rbind (traverse (payload env db) child_ids) (\<lambda>children.
           Inr (db, children))))"

end
