(* ===== verification/Billing.thy ===== *)
theory Billing
  imports Prelude
begin

text \<open>
  The one rule for billable segments (src/backend/app/services/billing.py): up to 70 characters are
  one segment, longer texts are cut every 67 characters. The lemmas show that the number of segments
  is the least that holds the text.
\<close>

definition SINGLE_SEGMENT_CHARS :: int where
  "SINGLE_SEGMENT_CHARS = 70"

definition MULTI_SEGMENT_CHARS :: int where
  "MULTI_SEGMENT_CHARS = 67"

definition calculate_segments :: "pystr \<Rightarrow> int" where
  "calculate_segments final_content =
     (let len = int (length final_content) in
      if len \<le> SINGLE_SEGMENT_CHARS then 1
      else (len + MULTI_SEGMENT_CHARS - 1) div MULTI_SEGMENT_CHARS)"

definition segment_capacity :: "int \<Rightarrow> int res" where
  "segment_capacity segments =
     (if segments < 1 then Inl (ValueError ''segments must be positive'')
      else Inr (if segments = 1 then SINGLE_SEGMENT_CHARS else MULTI_SEGMENT_CHARS))"

definition calculate_quota_cost :: "pystr \<Rightarrow> int \<Rightarrow> int res" where
  "calculate_quota_cost final_content recipient_count =
     (if recipient_count < 0 then Inl (ValueError ''recipient_count must be non-negative'')
      else Inr (calculate_segments final_content * recipient_count))"

section \<open>Properties\<close>

lemma segments_positive: "1 \<le> calculate_segments c"
proof (cases "int (length c) \<le> 70")
  case False
  then have "67 div 67 \<le> (int (length c) + 66) div 67" by (intro zdiv_mono1) auto
  with False show ?thesis
    by (simp add: calculate_segments_def SINGLE_SEGMENT_CHARS_def MULTI_SEGMENT_CHARS_def)
qed (simp add: calculate_segments_def SINGLE_SEGMENT_CHARS_def)

lemma segments_multi:
  assumes "70 < int (length c)"
  shows "2 \<le> calculate_segments c" "67 * (calculate_segments c - 1) < int (length c)"
    "int (length c) \<le> 67 * calculate_segments c"
proof -
  let ?n = "int (length c)"
  have s: "calculate_segments c = (?n + 66) div 67"
    using assms by (simp add: calculate_segments_def SINGLE_SEGMENT_CHARS_def MULTI_SEGMENT_CHARS_def)
  have "134 div 67 \<le> (?n + 66) div 67" using assms by (intro zdiv_mono1) auto
  then show "2 \<le> calculate_segments c" by (simp add: s)
  define q r where "q = (?n + 66) div 67" and "r = (?n + 66) mod 67"
  have "q * 67 + r = ?n + 66" unfolding q_def r_def by (rule div_mult_mod_eq)
  moreover have "0 \<le> r" "r < 67" unfolding r_def by simp_all
  ultimately have "67 * (q - 1) < ?n" "?n \<le> 67 * q" by (simp_all add: algebra_simps)
  then show "67 * (calculate_segments c - 1) < ?n" "?n \<le> 67 * calculate_segments c"
    unfolding s q_def by simp_all
qed

text \<open>C35: the price of a text. Its segments are enough to hold it at the capacity of a segment of that
  many, and no smaller number of segments is.\<close>

theorem segments_are_least:
  "\<exists>k. segment_capacity (calculate_segments c) = Inr k
    \<and> int (length c) \<le> calculate_segments c * k
    \<and> {n. \<exists>k. segment_capacity n = Inr k \<and> int (length c) \<le> n * k \<and> n < calculate_segments c} = {}"
proof (cases "int (length c) \<le> 70")
  case True
  then have "calculate_segments c = 1" by (simp add: calculate_segments_def SINGLE_SEGMENT_CHARS_def)
  with True show ?thesis by (auto simp: segment_capacity_def SINGLE_SEGMENT_CHARS_def split: if_splits)
next
  case False
  then have l: "70 < int (length c)" by simp
  note m = segments_multi [OF l]
  have cap: "segment_capacity (calculate_segments c) = Inr 67"
    using m(1) by (simp add: segment_capacity_def MULTI_SEGMENT_CHARS_def)
  have "\<not> int (length c) \<le> n * k" if "segment_capacity n = Inr k" "n < calculate_segments c" for n k
  proof (cases "n = 1")
    case True
    with that l show ?thesis by (simp add: segment_capacity_def SINGLE_SEGMENT_CHARS_def)
  next
    case False
    with that have "k = 67" "n \<le> calculate_segments c - 1"
      by (auto simp: segment_capacity_def MULTI_SEGMENT_CHARS_def split: if_splits)
    with m(2) show ?thesis by simp
  qed
  then have "{n. \<exists>k. segment_capacity n = Inr k \<and> int (length c) \<le> n * k
      \<and> n < calculate_segments c} = {}" by blast
  with cap m(3) show ?thesis by (simp add: mult.commute)
qed

end
