(* ===== verification/Dispatch.thy ===== *)
theory Dispatch
  imports Send_Payload Blacklist Billing Send_Invariants
begin

text \<open>
  The check of a chunk against the blacklist right before it is sent
  (src/backend/app/services/dispatch_blacklist.py). Messages of blacklisted numbers are withdrawn, the
  usage of the chunk is reduced, and the batch is settled when nothing is left. The release of the
  usage of a withdrawn message belongs to the usage ledger: whether it releases anything is the
  parameter \<open>du\<close>, and the release is recorded as a request. Locks on subjects and the audit log do not
  influence the decisions and are left out.
\<close>

section \<open>Model\<close>

datatype DispatchAction = D_SEND | D_EMPTY | D_FROZEN | D_STALE

record DispatchDecision =
  dd_eligible_phones :: "string list"
  dd_excluded_count :: int
  dd_generation :: "int option"
  dd_action :: DispatchAction

definition decision ::
  "string list \<Rightarrow> int \<Rightarrow> int option \<Rightarrow> DispatchAction \<Rightarrow> DispatchDecision" where
  "decision phones excluded generation action =
     \<lparr>dd_eligible_phones = phones, dd_excluded_count = excluded, dd_generation = generation,
      dd_action = action\<rparr>"

definition notice_blacklist_flag :: "int option \<Rightarrow> bool option \<Rightarrow> bool" where
  "notice_blacklist_flag app check =
     (case (app, check) of (Some _, Some b) \<Rightarrow> b | _ \<Rightarrow> True)"

definition blacklist_required :: "string \<Rightarrow> int option \<Rightarrow> bool option \<Rightarrow> bool res" where
  "blacklist_required category app check =
     rbind (policy_for_category category {category} (notice_blacklist_flag app check))
       (\<lambda>policy. Inr (cp_blacklist_required policy))"

definition PRE_SEND :: "chunk_status list" where
  "PRE_SEND = [C_pending, C_retrying, C_submitting, C_failover_pending]"

definition FROZEN :: "chunk_status list" where
  "FROZEN = [C_submitted, C_uncertain]"

definition REASON :: string where
  "REASON = ''BLACKLISTED_BEFORE_SEND''"

definition pending_messages :: "db \<Rightarrow> int \<Rightarrow> sms_message list" where
  "pending_messages db chunk_id = sort_key m_id
     (filter (\<lambda>m. m_chunk_id m = Some chunk_id \<and> m_status m = M_pending) (db_messages db))"

definition decrypt :: "sms_message \<Rightarrow> string res" where
  "decrypt m = (if m_phone m = [] then Inl (RuntimeError ''dispatch phone unavailable'')
                else Inr (m_phone m))"

definition fail_unchunked :: "db \<Rightarrow> int \<Rightarrow> chunk_status \<Rightarrow> db" where
  "fail_unchunked db chunk_id status =
     (if status = C_submitting then db
      else set_chunks db (\<lambda>c. c_id c = chunk_id \<and> c_status c = status)
             (\<lambda>c. c\<lparr>c_status := C_failed, c_vendor_msg := Some REASON, c_submitting_since := None,
                    c_retry_not_before := None\<rparr>))"

definition settled_batch :: "db \<Rightarrow> int \<Rightarrow> sms_batch \<Rightarrow> sms_batch" where
  "settled_batch db batch_id b =
     (let active = count_messages db batch_id [M_pending, M_sent];
          total = count_rows (\<lambda>m. m_batch_id m = batch_id) (db_messages db) in
      b\<lparr>b_delivered := count_messages db batch_id [M_delivered],
        b_failed := count_messages db batch_id [M_failed],
        b_unknown_cnt := count_messages db batch_id [M_unknown],
        b_active_count := Some active,
        b_status := (if b_status b = B_completed_unknown then B_completed_unknown
                     else if total = 0 then b_status b
                     else if active = 0 \<and> b_status b \<in> {B_queued, B_sending} then B_completed
                     else b_status b),
        b_updated_at := db_now db\<rparr>)"

definition settle_batch :: "db \<Rightarrow> int \<Rightarrow> db res" where
  "settle_batch db batch_id =
     (let db = set_batches db (\<lambda>b. b_id b = batch_id) (settled_batch db batch_id) in
      case find_batch db batch_id of
        None \<Rightarrow> Inl (OtherError ''NoResultFound'')
      | Some b \<Rightarrow>
          if b_status b \<noteq> B_completed then Inr db
          else rbind (request_inflight_release_for_batch
                        (log_request db (Batch_finished batch_id)) batch_id ''batch-completed'')
                 (\<lambda>(db, _). Inr db))"

text \<open>\<open>INSERT INTO sms_dispatch_exclusion ... ON CONFLICT DO NOTHING\<close> and the update of the message.\<close>

definition exclude_one :: "db \<Rightarrow> sms_message \<Rightarrow> int \<Rightarrow> int \<Rightarrow> db \<times> bool" where
  "exclude_one db item batch_id generation =
     (if list_ex (\<lambda>x. (ex_message_id x, ex_created_at x) = message_key item) (db_exclusions db)
      then (db, False)
      else let p = (\<lambda>m. message_key m = message_key item \<and> m_status m = M_pending);
               db = db\<lparr>db_exclusions := db_exclusions db
                 @ [\<lparr>ex_message_id = m_id item, ex_created_at = m_created_at item,
                     ex_batch_id = batch_id, ex_generation = generation\<rparr>]\<rparr>
           in (update_messages db p (\<lambda>m. m\<lparr>m_status := M_other\<rparr>), list_ex p (db_messages db)))"

definition release_one ::
  "(db \<Rightarrow> string \<Rightarrow> string \<Rightarrow> int \<Rightarrow> bool) \<Rightarrow> db \<Rightarrow> string option \<Rightarrow> string \<Rightarrow> int \<Rightarrow> db \<times> bool" where
  "release_one du db reservation phone_hmac segments =
     (case reservation of
        None \<Rightarrow> (db, False)
      | Some r \<Rightarrow> if segments < 1 \<or> \<not> du db r phone_hmac segments then (db, False)
                 else (log_request db (Release_usage r phone_hmac segments), True))"

text \<open>The loop over the hits: withdraw the message, release its usage.\<close>

definition withdraw ::
  "(db \<Rightarrow> string \<Rightarrow> string \<Rightarrow> int \<Rightarrow> bool) \<Rightarrow> sms_batch \<Rightarrow> ChunkPayload \<Rightarrow> int
     \<Rightarrow> db \<times> int \<times> bool \<Rightarrow> sms_message \<Rightarrow> (db \<times> int \<times> bool) res" where
  "withdraw du batch chunk generation s item =
     (let (db, excluded, released) = s in
      case exclude_one db item (b_id batch) generation of
        (db, False) \<Rightarrow> Inr (db, excluded, released)
      | (db, True) \<Rightarrow>
          rbind (calculate_quota_cost (ck_sign_name chunk @ ck_content chunk) 1) (\<lambda>segments.
            let (db, r) = release_one du db (b_usage_reservation_id batch) (m_phone_hmac item) segments
            in Inr (db, excluded + 1, r \<or> released)))"

definition reduce_allocation :: "db \<Rightarrow> int \<Rightarrow> int \<Rightarrow> int \<Rightarrow> db" where
  "reduce_allocation db chunk_id n segments =
     db\<lparr>db_allocations := update_rows (\<lambda>a. ua_chunk_id a = chunk_id)
       (\<lambda>a. a\<lparr>ua_recipients := max (ua_recipients a - n) 0,
              ua_segments := max (ua_segments a - segments) 0\<rparr>) (db_allocations db)\<rparr>"

definition usage_projection_spec :: "string \<Rightarrow> int \<Rightarrow> int \<Rightarrow> OutboxEventSpec" where
  "usage_projection_spec r generation chunk_id =
     \<lparr>sp_event_type = ''usage.projection'', sp_aggregate_type = ''usage_reservation'',
      sp_aggregate_id = r, sp_task_name = ''app.tasks.outbox.publish_usage_projection'',
      sp_queue = ''realtime'', sp_args = [Arg_str r],
      sp_dedup_key = ''usage.projection:'' @ r @ '':'' @ str_int generation @ '':'' @ str_int chunk_id,
      sp_max_attempts = 12, sp_correlation_id = None\<rparr>"

definition account_excluded ::
  "db \<Rightarrow> sms_batch \<Rightarrow> ChunkPayload \<Rightarrow> int \<Rightarrow> int \<Rightarrow> bool \<Rightarrow> db res" where
  "account_excluded db batch chunk generation excluded released =
     (if excluded = 0 then Inr db
      else rbind (calculate_quota_cost (ck_sign_name chunk @ ck_content chunk) excluded) (\<lambda>segments.
        let db = reduce_allocation db (ck_chunk_id chunk) excluded segments in
        rbind (case b_usage_reservation_id batch of
                 Some r \<Rightarrow> if released
                          then rbind (enqueue_outbox db
                                 (usage_projection_spec r generation (ck_chunk_id chunk)) 0 None)
                                 (\<lambda>(db, _). Inr db)
                          else Inr db
               | None \<Rightarrow> Inr db) (\<lambda>db. settle_batch db (b_id batch))))"

definition empty_chunk :: "db \<Rightarrow> sms_chunk \<Rightarrow> db res" where
  "empty_chunk db c = settle_batch (fail_unchunked db (c_id c) (c_status c)) (c_batch_id c)"

text \<open>The part of \<open>decide_dispatch\<close> that checks the pending messages \<open>loaded\<close> against the blacklist.\<close>

definition dispatch_checked ::
  "(db \<Rightarrow> string \<Rightarrow> string \<Rightarrow> int \<Rightarrow> bool) \<Rightarrow> db \<Rightarrow> sms_chunk \<Rightarrow> sms_batch \<Rightarrow> ChunkPayload
     \<Rightarrow> sms_message list \<Rightarrow> (db \<times> DispatchDecision) res" where
  "dispatch_checked du db c batch chunk loaded =
     rbind (read_generation db) (\<lambda>generation.
       let hit_ids = map m_id (filter (\<lambda>m. listed db (m_phone_hmac m)) (pending_messages db (c_id c)));
           hit = (\<lambda>m. m_id m \<in> set hit_ids);
           eligible = map m_phone (filter (\<lambda>m. \<not> hit m) loaded)
       in rbind (foldM (withdraw du batch chunk generation) (db, 0, False) (filter hit loaded))
            (\<lambda>(db, excluded, released).
          rbind (account_excluded db batch chunk generation excluded released) (\<lambda>db.
            if eligible = []
            then rbind (empty_chunk db c) (\<lambda>db.
                   Inr (db, decision [] excluded (Some generation) D_EMPTY))
            else Inr (db, decision eligible excluded (Some generation) D_SEND))))"

definition app_blacklist :: "db \<Rightarrow> int option \<Rightarrow> bool option" where
  "app_blacklist db app =
     (case app of None \<Rightarrow> None
      | Some i \<Rightarrow> (case first_row (\<lambda>a. app_id a = i) (db_apps db) of
          None \<Rightarrow> None | Some a \<Rightarrow> app_blacklist_check a))"

definition decide_dispatch ::
  "(db \<Rightarrow> string \<Rightarrow> string \<Rightarrow> int \<Rightarrow> bool) \<Rightarrow> db \<Rightarrow> ChunkPayload \<Rightarrow> (db \<times> DispatchDecision) res" where
  "decide_dispatch du db chunk =
     (case find_chunk db (ck_chunk_id chunk) of
        None \<Rightarrow> Inl (RuntimeError ''dispatch chunk unavailable'')
      | Some c \<Rightarrow> (case find_batch db (c_batch_id c) of
          None \<Rightarrow> Inl (RuntimeError ''dispatch chunk unavailable'')
        | Some batch \<Rightarrow>
            if c_status c \<in> set FROZEN \<or> c_status c \<notin> set PRE_SEND
            then Inr (db, decision [] 0 None D_FROZEN)
            else let loaded = pending_messages db (c_id c) in
              if loaded = []
              then rbind (empty_chunk db c) (\<lambda>db. Inr (db, decision [] 0 None D_EMPTY))
              else rbind (traverse decrypt loaded) (\<lambda>phones.
                rbind (blacklist_required (b_category batch) (b_app_id batch)
                         (app_blacklist db (b_app_id batch))) (\<lambda>required.
                  if \<not> required then Inr (db, decision phones 0 None D_SEND)
                  else dispatch_checked du db c batch chunk loaded))))"

section \<open>What the check leaves alone\<close>

text \<open>Everything but the messages that it withdraws, the usage of the chunk, the batch and, when nothing
  is left, the status of the chunk.\<close>

definition dispatch_keeps :: "db \<Rightarrow> db \<Rightarrow> bool" where
  "dispatch_keeps db db' \<longleftrightarrow> same_view db db' \<and> db_blacklist db' = db_blacklist db
     \<and> db_blacklist_aliases db' = db_blacklist_aliases db
     \<and> db_blacklist_generation db' = db_blacklist_generation db"

definition same_messages :: "db \<Rightarrow> db \<Rightarrow> bool" where
  "same_messages db db' \<longleftrightarrow> dispatch_keeps db db' \<and> db_messages db' = db_messages db"

lemma dispatch_keeps_refl [simp]: "dispatch_keeps db db"
  by (simp add: dispatch_keeps_def same_view_def)

lemma same_messages_refl [simp]: "same_messages db db"
  by (simp add: same_messages_def)

lemma dispatch_keeps_trans: "dispatch_keeps a b \<Longrightarrow> dispatch_keeps b c \<Longrightarrow> dispatch_keeps a c"
  by (simp add: dispatch_keeps_def same_view_def)

lemma same_messages_trans: "same_messages a b \<Longrightarrow> same_messages b c \<Longrightarrow> same_messages a c"
  unfolding same_messages_def by (auto intro: dispatch_keeps_trans)

lemma keeps_chain:
  "dispatch_keeps db (update_messages db p f)"
  "dispatch_keeps db (db\<lparr>db_exclusions := xs\<rparr>)"
  "same_messages db (log_request db r)"
  "same_messages db (set_batches db q g)"
  "same_messages db (db\<lparr>db_allocations := as\<rparr>)"
  "same_messages db (db\<lparr>db_outbox := os, db_uuids := n\<rparr>)"
  by (simp_all add: dispatch_keeps_def same_messages_def same_view_def update_messages_def
      log_request_def set_batches_def)

lemma ledger_same_messages:
  assumes "ledger_tables db db'"
  shows "same_messages db db'"
proof -
  have "db_blacklist db' = db_blacklist db" "db_blacklist_aliases db' = db_blacklist_aliases db"
    "db_blacklist_generation db' = db_blacklist_generation db"
    using assms by (cases db, cases db', simp add: ledger_tables_def)+
  then show ?thesis
    by (simp add: same_messages_def dispatch_keeps_def same_view_def ledger_tablesD [OF assms])
qed

lemma settle_batch_keeps:
  assumes "settle_batch db i = Inr db'"
  shows "same_messages db db'"
proof -
  let ?db = "set_batches db (\<lambda>b. b_id b = i) (settled_batch db i)"
  from assms have "db' = ?db \<or> (\<exists>b. request_inflight_release_for_batch
      (log_request ?db (Batch_finished i)) i ''batch-completed'' = Inr (db', b))"
    unfolding settle_batch_def Let_def by (auto simp: rbind_Inr_iff split: option.splits if_splits)
  then show ?thesis
  proof
    assume "db' = ?db"
    then show ?thesis by (simp add: keeps_chain)
  next
    assume "\<exists>b. request_inflight_release_for_batch
      (log_request ?db (Batch_finished i)) i ''batch-completed'' = Inr (db', b)"
    then have "same_messages (log_request ?db (Batch_finished i)) db'"
      using request_inflight_release_for_batch_tables ledger_same_messages by blast
    then show ?thesis using keeps_chain(3,4) same_messages_trans by blast
  qed
qed

lemma fail_unchunked_keeps: "same_messages db (fail_unchunked db i s)"
  by (auto simp: fail_unchunked_def same_messages_def dispatch_keeps_def same_view_def set_chunks_def
      update_rows_def retry_view_def)

lemma empty_chunk_keeps: "empty_chunk db c = Inr db' \<Longrightarrow> same_messages db db'"
  unfolding empty_chunk_def using fail_unchunked_keeps settle_batch_keeps same_messages_trans by blast

lemma account_excluded_keeps:
  assumes "account_excluded db batch chunk g n rel = Inr db'"
  shows "same_messages db db'"
proof (cases "n = 0")
  case True
  with assms show ?thesis by (simp add: account_excluded_def)
next
  case False
  then obtain seg where seg: "calculate_quota_cost (ck_sign_name chunk @ ck_content chunk) n = Inr seg"
    using assms by (auto simp: account_excluded_def rbind_Inr_iff)
  obtain db1 where m: "settle_batch db1 (b_id batch) = Inr db'"
    and d: "db1 = reduce_allocation db (ck_chunk_id chunk) n seg
      \<or> (\<exists>spec i. enqueue_outbox (reduce_allocation db (ck_chunk_id chunk) n seg) spec 0 None = Inr (db1, i))"
  proof (cases "b_usage_reservation_id batch")
    case None
    with assms False seg
    have "settle_batch (reduce_allocation db (ck_chunk_id chunk) n seg) (b_id batch) = Inr db'"
      by (simp add: account_excluded_def Let_def)
    then show ?thesis by (rule that) (rule disjI1, rule refl)
  next
    case (Some u)
    with assms False seg show ?thesis
      by (cases rel) (auto simp: account_excluded_def Let_def rbind_Inr_iff intro: that)
  qed
  have r: "same_messages db (reduce_allocation db (ck_chunk_id chunk) n seg)"
    by (simp add: reduce_allocation_def keeps_chain)
  from d have "same_messages (reduce_allocation db (ck_chunk_id chunk) n seg) db1"
  proof
    assume "\<exists>spec i. enqueue_outbox (reduce_allocation db (ck_chunk_id chunk) n seg) spec 0 None = Inr (db1, i)"
    then obtain os k where "db1 = (reduce_allocation db (ck_chunk_id chunk) n seg)\<lparr>db_outbox := os, db_uuids := k\<rparr>"
      using enqueue_outbox_tables by metis
    then show ?thesis by (simp add: keeps_chain)
  qed simp
  with r settle_batch_keeps [OF m] show ?thesis using same_messages_trans by blast
qed

section \<open>Withdrawing messages\<close>

definition withdrawn :: "sms_message list \<Rightarrow> sms_message list \<Rightarrow> sms_message list" where
  "withdrawn items ms = update_rows (\<lambda>m. message_key m \<in> message_key ` set items \<and> m_status m = M_pending)
     (\<lambda>m. m\<lparr>m_status := M_other\<rparr>) ms"

lemma message_key_status [simp]: "message_key (m\<lparr>m_status := s\<rparr>) = message_key m"
  by (simp add: message_key_def)

lemma withdrawn_Nil [simp]: "withdrawn [] ms = ms"
  by (simp add: withdrawn_def update_rows_def)

lemma withdrawn_Cons:
  "withdrawn (x # xs) ms = withdrawn xs (update_rows
     (\<lambda>m. message_key m = message_key x \<and> m_status m = M_pending) (\<lambda>m. m\<lparr>m_status := M_other\<rparr>) ms)"
  by (auto simp: withdrawn_def update_rows_def)

lemma list_ex_image: "list_ex (\<lambda>x. f x = k) xs \<longleftrightarrow> k \<in> f ` set xs"
  by (induction xs) auto

definition excluded_keys :: "db \<Rightarrow> (int \<times> datetime) set" where
  "excluded_keys db = (\<lambda>x. (ex_message_id x, ex_created_at x)) ` set (db_exclusions db)"

lemma exclude_one_keeps:
  assumes "exclude_one db item i g = (db', b)" "message_key item \<notin> excluded_keys db"
  shows "dispatch_keeps db db' \<and> excluded_keys db' = insert (message_key item) (excluded_keys db)
    \<and> db_messages db' = withdrawn [item] (db_messages db)"
proof -
  have "\<not> list_ex (\<lambda>x. (ex_message_id x, ex_created_at x) = message_key item) (db_exclusions db)"
    using assms(2) unfolding list_ex_image excluded_keys_def .
  with assms(1) have "db' = update_messages (db\<lparr>db_exclusions := db_exclusions db
      @ [\<lparr>ex_message_id = m_id item, ex_created_at = m_created_at item, ex_batch_id = i,
          ex_generation = g\<rparr>]\<rparr>) (\<lambda>m. message_key m = message_key item \<and> m_status m = M_pending)
      (\<lambda>m. m\<lparr>m_status := M_other\<rparr>)"
    unfolding exclude_one_def Let_def by simp
  then show ?thesis
    by (simp add: update_messages_def dispatch_keeps_def same_view_def excluded_keys_def
        withdrawn_Cons message_key_def)
qed

lemma release_one_keeps: "release_one du db r h n = (db', b) \<Longrightarrow>
    same_messages db db' \<and> excluded_keys db' = excluded_keys db"
  by (auto simp: release_one_def log_request_def same_messages_def dispatch_keeps_def same_view_def
      excluded_keys_def split: option.splits if_splits)

lemma withdraw_keeps:
  assumes "withdraw du batch chunk g (db, n, r) item = Inr (db', n', r')"
    and "message_key item \<notin> excluded_keys db"
  shows "dispatch_keeps db db' \<and> excluded_keys db' = insert (message_key item) (excluded_keys db)
    \<and> db_messages db' = withdrawn [item] (db_messages db)"
proof -
  obtain db1 b where e: "exclude_one db item (b_id batch) g = (db1, b)" by (metis surj_pair)
  note k = exclude_one_keeps [OF e assms(2)]
  have "same_messages db1 db' \<and> excluded_keys db' = excluded_keys db1"
  proof (cases b)
    case False
    with assms(1) e show ?thesis by (simp add: withdraw_def)
  next
    case True
    with assms(1) e obtain seg where "calculate_quota_cost (ck_sign_name chunk @ ck_content chunk) 1 = Inr seg"
      by (auto simp: withdraw_def rbind_Inr_iff)
    with True assms(1) e
    have "\<exists>x. release_one du db1 (b_usage_reservation_id batch) (m_phone_hmac item) seg = (db', x)"
      by (auto simp: withdraw_def Let_def case_prod_unfold prod_eq_iff)
    then show ?thesis using release_one_keeps by blast
  qed
  then show ?thesis using k dispatch_keeps_trans unfolding same_messages_def by metis
qed

lemma withdraw_all:
  assumes "foldM (withdraw du batch chunk g) (db, n, r) items = Inr (db', n', r')"
    and "distinct (map message_key items)" "message_key ` set items \<inter> excluded_keys db = {}"
  shows "dispatch_keeps db db' \<and> db_messages db' = withdrawn items (db_messages db)"
  using assms
proof (induction items arbitrary: db n r)
  case (Cons x items)
  from Cons.prems(1) obtain dm k q where m: "withdraw du batch chunk g (db, n, r) x = Inr (dm, k, q)"
    "foldM (withdraw du batch chunk g) (dm, k, q) items = Inr (db', n', r')"
    by (auto simp: rbind_Inr_iff)
  have x: "dispatch_keeps db dm" "excluded_keys dm = insert (message_key x) (excluded_keys db)"
    "db_messages dm = withdrawn [x] (db_messages db)"
    using withdraw_keeps [OF m(1)] Cons.prems(3) by auto
  have "message_key ` set items \<inter> excluded_keys dm = {}" using Cons.prems(2,3) x(2) by auto
  with Cons.IH [OF m(2)] Cons.prems(2)
  have "dispatch_keeps dm db'" "db_messages db' = withdrawn items (db_messages dm)" by auto
  with x show ?case using dispatch_keeps_trans by (auto simp: withdrawn_Cons)
qed simp


section \<open>The numbers that are sent\<close>

lemma decision_sel [simp]:
  "dd_eligible_phones (decision ps n g a) = ps" "dd_excluded_count (decision ps n g a) = n"
  "dd_generation (decision ps n g a) = g" "dd_action (decision ps n g a) = a"
  by (simp_all add: decision_def)

lemma pending_withdrawn:
  assumes "db_messages db' = withdrawn (filter hit (pending_messages db i)) (db_messages db)"
    and "\<And>m m'. m \<in> set (pending_messages db i) \<Longrightarrow> m' \<in> set (pending_messages db i)
      \<Longrightarrow> message_key m = message_key m' \<Longrightarrow> hit m = hit m'"
  shows "pending_messages db' i = filter (\<lambda>m. \<not> hit m) (pending_messages db i)"
proof -
  define K where "K = message_key ` set (filter hit (pending_messages db i))"
  let ?g = "\<lambda>m. if message_key m \<in> K \<and> m_status m = M_pending then m\<lparr>m_status := M_other\<rparr> else m"
  let ?p = "\<lambda>m. m_chunk_id m = Some i \<and> m_status m = M_pending"
  have mem: "m \<in> set (pending_messages db i) \<longleftrightarrow> m \<in> set (db_messages db) \<and> ?p m" for m
    by (auto simp: pending_messages_def)
  have "filter ?p (map ?g (filter (\<lambda>_. True) (db_messages db)))
      = filter (\<lambda>m. m_chunk_id m = Some i \<and> m_status m = M_pending \<and> \<not> hit m) (db_messages db)"
  proof (rule filter_map_filter)
    fix m assume m: "m \<in> set (db_messages db)"
    have k: "message_key m \<in> K \<longleftrightarrow> hit m" if "?p m"
    proof
      have in_l: "m \<in> set (pending_messages db i)" using mem m that by blast
      show "hit m \<Longrightarrow> message_key m \<in> K" using in_l by (simp add: K_def)
      assume "message_key m \<in> K"
      then obtain m' where "m' \<in> set (pending_messages db i)" "hit m'" "message_key m = message_key m'"
        unfolding K_def by auto
      with assms(2) [OF in_l] show "hit m" by blast
    qed
    show "(True \<and> ?p (?g m)) = (m_chunk_id m = Some i \<and> m_status m = M_pending \<and> \<not> hit m)"
      by (cases "m_chunk_id m = Some i"; cases "m_status m = M_pending"; cases "hit m") (simp_all add: k)
    show "m_chunk_id m = Some i \<and> m_status m = M_pending \<and> \<not> hit m \<Longrightarrow> ?g m = m" by (simp add: k)
  qed
  then show ?thesis
    by (simp add: pending_messages_def assms(1) withdrawn_def update_rows_def filter_sort K_def)
qed

lemma pending_same_messages: "same_messages db db' \<Longrightarrow> pending_messages db' i = pending_messages db i"
  by (simp add: pending_messages_def same_messages_def)

text \<open>The branch that checks the blacklist.\<close>

lemma dispatch_checked_send:
  assumes "dispatch_checked du db c batch chunk (pending_messages db (c_id c)) = Inr (db', d)"
    and "dd_action d = D_SEND" "distinct (map m_id (pending_messages db (c_id c)))"
    and "message_key ` set (pending_messages db (c_id c)) \<inter> excluded_keys db = {}"
  shows "dispatch_keeps db db'" "dd_eligible_phones d \<noteq> []"
    and "pending_messages db' (c_id c) =
      filter (\<lambda>m. \<not> listed db (m_phone_hmac m)) (pending_messages db (c_id c))"
    and "dd_eligible_phones d = map m_phone (pending_messages db' (c_id c))"
    and "dd_generation d = Some (db_blacklist_generation db)"
proof -
  let ?l = "pending_messages db (c_id c)"
  let ?hit = "\<lambda>m. m_id m \<in> set (map m_id (filter (\<lambda>m. listed db (m_phone_hmac m)) ?l))"
  obtain g where g: "read_generation db = Inr g" using assms(1) by (auto simp: dispatch_checked_def rbind_Inr_iff)
  let ?e = "map m_phone (filter (\<lambda>m. \<not> ?hit m) ?l)"
  have eq: "dispatch_checked du db c batch chunk ?l =
      rbind (foldM (withdraw du batch chunk g) (db, 0, False) (filter ?hit ?l)) (\<lambda>(db, n, r).
        rbind (account_excluded db batch chunk g n r) (\<lambda>db.
          if ?e = [] then rbind (empty_chunk db c) (\<lambda>db. Inr (db, decision [] n (Some g) D_EMPTY))
          else Inr (db, decision ?e n (Some g) D_SEND)))"
    unfolding dispatch_checked_def Let_def g rbind_simps ..
  obtain db1 n r where f1: "foldM (withdraw du batch chunk g) (db, 0, False) (filter ?hit ?l) = Inr (db1, n, r)"
    using assms(1) unfolding eq rbind_Inr_iff by (metis prod_cases3)
  obtain db2 where f2: "account_excluded db1 batch chunk g n r = Inr db2"
    using assms(1) unfolding eq f1 rbind_simps prod.case rbind_Inr_iff by blast
  note f = f1 f2
  have r: "(if ?e = [] then rbind (empty_chunk db2 c) (\<lambda>db. Inr (db, decision [] n (Some g) D_EMPTY))
      else Inr (db2, decision ?e n (Some g) D_SEND)) = Inr (db', d)"
    using assms(1) unfolding eq f1 f2 rbind_simps prod.case .
  have ne: "?e \<noteq> []"
  proof
    assume "?e = []"
    with r have "dd_action d = D_EMPTY" by (auto simp: rbind_Inr_iff)
    with assms(2) show False by simp
  qed
  with r have d: "d = decision ?e n (Some g) D_SEND" "db' = db2" by (simp_all del: map_is_Nil_conv)
  have hit: "?hit m \<longleftrightarrow> listed db (m_phone_hmac m)" if "m \<in> set ?l" for m
    using that assms(3) by (auto simp: distinct_map inj_on_def)
  have "distinct (map message_key ?l)"
    using assms(3) by (auto simp: distinct_map inj_on_def message_key_def)
  then have "distinct (map message_key (filter ?hit ?l))" by (rule distinct_map_filter)
  moreover have "message_key ` set (filter ?hit ?l) \<inter> excluded_keys db = {}" using assms(4) by auto
  ultimately have w: "dispatch_keeps db db1" "db_messages db1 = withdrawn (filter ?hit ?l) (db_messages db)"
    using withdraw_all [OF f(1)] by auto
  have a: "same_messages db1 db'" using account_excluded_keeps [OF f(2)] d(2) by simp
  show "dispatch_keeps db db'" using w(1) a dispatch_keeps_trans by (auto simp: same_messages_def)
  have p: "pending_messages db' (c_id c) = filter (\<lambda>m. \<not> ?hit m) ?l"
    unfolding pending_same_messages [OF a]
    by (rule pending_withdrawn [OF w(2)]) (auto simp: message_key_def)
  show "pending_messages db' (c_id c) = filter (\<lambda>m. \<not> listed db (m_phone_hmac m)) ?l"
    unfolding p using hit by (intro filter_cong) auto
  show "dd_eligible_phones d = map m_phone (pending_messages db' (c_id c))"
    unfolding p unfolding d(1) decision_sel ..
  show "dd_eligible_phones d \<noteq> []" using ne unfolding d(1) decision_sel .
  show "dd_generation d = Some (db_blacklist_generation db)"
    using g by (simp add: d read_generation_def split: if_splits)
qed

text \<open>Whatever it decides, the check keeps attempts, budgets, retry counts and the blacklist.\<close>

lemma exclude_one_frame: "dispatch_keeps db (fst (exclude_one db item i g))"
  by (simp add: exclude_one_def Let_def dispatch_keeps_def same_view_def update_messages_def)

lemma withdraw_frame:
  assumes "withdraw du batch chunk g s item = Inr s'"
  shows "dispatch_keeps (fst s) (fst s')"
proof -
  obtain db n r where s: "s = (db, n, r)" by (metis prod_cases3)
  obtain db1 b where e: "exclude_one db item (b_id batch) g = (db1, b)" by (metis surj_pair)
  have 1: "dispatch_keeps db db1" using exclude_one_frame [of db item "b_id batch" g] by (simp add: e)
  show ?thesis
  proof (cases b)
    case False
    with assms e 1 show ?thesis by (auto simp: withdraw_def s)
  next
    case True
    with assms e obtain seg where q: "calculate_quota_cost (ck_sign_name chunk @ ck_content chunk) 1 = Inr seg"
      by (auto simp: withdraw_def s rbind_Inr_iff)
    obtain db2 x where re: "release_one du db1 (b_usage_reservation_id batch) (m_phone_hmac item) seg = (db2, x)"
      by (metis surj_pair)
    have "dispatch_keeps db1 db2" using release_one_keeps [OF re] by (simp add: same_messages_def)
    moreover have "fst s' = db2" using assms e True q re by (auto simp: withdraw_def s)
    ultimately show ?thesis using 1 dispatch_keeps_trans by (auto simp: s)
  qed
qed

lemma dispatch_checked_frame:
  assumes "dispatch_checked du db c batch chunk loaded = Inr (db', d)"
  shows "dispatch_keeps db db'"
proof -
  obtain g where g: "read_generation db = Inr g" using assms by (auto simp: dispatch_checked_def rbind_Inr_iff)
  obtain s items where s: "foldM (withdraw du batch chunk g) (db, 0, False) items = Inr s"
    "\<exists>db2. account_excluded (fst s) batch chunk g (fst (snd s)) (snd (snd s)) = Inr db2
       \<and> (db' = db2 \<or> empty_chunk db2 c = Inr db')"
    using assms unfolding dispatch_checked_def Let_def g rbind_simps rbind_Inr_iff
    by (fastforce simp: case_prod_unfold rbind_Inr_iff split: if_splits)
  have "dispatch_keeps db (fst s)"
    using s(1) by (rule foldM_invariant [where P = "\<lambda>s. dispatch_keeps db (fst s)"])
      (auto dest: withdraw_frame intro: dispatch_keeps_trans)
  moreover obtain db2 where 2: "same_messages (fst s) db2" "db' = db2 \<or> same_messages db2 db'"
    using s(2) account_excluded_keeps empty_chunk_keeps by blast
  ultimately show ?thesis using dispatch_keeps_trans unfolding same_messages_def by blast
qed

lemma decide_dispatch_frame:
  assumes "decide_dispatch du db chunk = Inr (db', d)"
  shows "dispatch_keeps db db'"
proof -
  consider "db' = db" | c where "empty_chunk db c = Inr db'"
    | c batch loaded where "dispatch_checked du db c batch chunk loaded = Inr (db', d)"
    using assms unfolding decide_dispatch_def Let_def
    by (auto simp: rbind_Inr_iff split: option.splits if_splits)
  then show ?thesis
  proof cases
    case 2
    then show ?thesis using empty_chunk_keeps by (auto simp: same_messages_def)
  next
    case 3
    then show ?thesis by (rule dispatch_checked_frame)
  qed simp
qed

lemma decide_dispatch_step: "decide_dispatch du db chunk = Inr (db', d) \<Longrightarrow> send_step db db'"
  by (rule send_step.outside) (use decide_dispatch_frame in \<open>auto simp: dispatch_keeps_def\<close>)

section \<open>Properties\<close>

text \<open>C33: a check of the blacklist that allows the chunk to be sent. The numbers it returns are exactly
  those of the messages of the chunk that are still pending afterwards, there is at least one, no
  blacklisted number is among them, and every number that was pending before and is not blacklisted is
  kept.\<close>

theorem dispatch_sends_what_is_left:
  assumes "decide_dispatch du db chunk = Inr (db', d)" "dd_action d = D_SEND"
    and "dd_generation d = Some g" "distinct (map m_id (pending_messages db (ck_chunk_id chunk)))"
    and "message_key ` set (pending_messages db (ck_chunk_id chunk)) \<inter> excluded_keys db = {}"
  shows "dd_eligible_phones d = map m_phone (pending_messages db' (ck_chunk_id chunk))
    \<and> dd_eligible_phones d \<noteq> []
    \<and> pending_messages db' (ck_chunk_id chunk) =
        filter (\<lambda>m. \<not> listed db' (m_phone_hmac m)) (pending_messages db (ck_chunk_id chunk))
    \<and> g = db_blacklist_generation db'"
proof -
  obtain c batch where "find_chunk db (ck_chunk_id chunk) = Some c"
    and k: "dispatch_checked du db c batch chunk (pending_messages db (c_id c)) = Inr (db', d)"
    using assms(1-3) unfolding decide_dispatch_def Let_def
    by (auto simp: rbind_Inr_iff split: option.splits if_splits)
  then have c: "c_id c = ck_chunk_id chunk" by (auto dest: find_chunk_SomeD)
  note s = dispatch_checked_send [OF k assms(2), unfolded c, OF assms(4,5)]
  have "db_blacklist_aliases db' = db_blacklist_aliases db"
    "db_blacklist_generation db' = db_blacklist_generation db"
    using s(1) by (simp_all add: dispatch_keeps_def)
  with s(2-5) assms(3) show ?thesis by (simp add: listed_def)
qed

text \<open>A marketing chunk of three recipients, one of whom is blacklisted.\<close>

definition example_dispatch :: db where
  "example_dispatch = example_send\<lparr>
     db_batches := [example_batch\<lparr>b_category := ''market'', b_usage_reservation_id := Some ''u''\<rparr>],
     db_messages := [example_message 1, example_message 2, example_message 3],
     db_blacklist := [''h2''],
     db_blacklist_aliases := [\<lparr>al_version = 1, al_digest = ''h2'', al_owner = ''h2''\<rparr>]\<rparr>"

definition example_payload :: ChunkPayload where
  "example_payload = payload_of example_chunk example_batch [''13800000001''] 0"

theorem dispatch_sends_what_is_left_witness:
  "\<exists>db' d. decide_dispatch (\<lambda>_ _ _ _. False) example_dispatch example_payload = Inr (db', d)
     \<and> dd_eligible_phones d = [''13800000001'', ''13800000003'']
     \<and> map m_phone (pending_messages db' 7) = [''13800000001'', ''13800000003'']"
proof -
  have "(case decide_dispatch (\<lambda>_ _ _ _. False) example_dispatch example_payload of Inl _ \<Rightarrow> False
    | Inr (db', d) \<Rightarrow> dd_action d = D_SEND \<and> dd_generation d = Some 1
        \<and> dd_eligible_phones d = [''13800000001'', ''13800000003''])" by code_simp
  then obtain db' d where r: "decide_dispatch (\<lambda>_ _ _ _. False) example_dispatch example_payload = Inr (db', d)"
    "dd_action d = D_SEND" "dd_generation d = Some 1"
    "dd_eligible_phones d = [''13800000001'', ''13800000003'']"
    by (auto split: sum.splits prod.splits)
  have i: "ck_chunk_id example_payload = 7" by code_simp
  have "distinct (map m_id (pending_messages example_dispatch 7))" by code_simp
  moreover have "excluded_keys example_dispatch = {}"
    by (simp add: excluded_keys_def example_dispatch_def example_send_def empty_db_def)
  ultimately show ?thesis
    using dispatch_sends_what_is_left [OF r(1-3)] r by (simp add: i)
qed

end
