(* ===== verification/Token_Bucket.thy ===== *)
theory Token_Bucket
  imports Prelude
begin

text \<open>
  The token bucket that limits the calls to a provider (src/backend/app/core/ratelimit.py). Its two
  Lua scripts run atomically in Redis; they are translated with the value of the key, its expiry and
  the reading of the Redis clock in milliseconds made explicit. The clock is arbitrary: it may stand
  still, jump and go back.

  A hash field that is missing, is not a number or is not integral is \<open>None\<close>: the scripts refuse all
  of these in the same way. The numbers are integers below \<open>2^53\<close>, so that the doubles of Lua are
  exact.
\<close>

section \<open>Model\<close>

record bucket_hash =
  bk_tokens :: "int option"
  bk_last_ms :: "int option"
  bk_expires_at :: int

datatype redis_value = Absent | Other_type | Hash bucket_hash

text \<open>A key is gone once the clock has passed its expiry.\<close>

definition live :: "int \<Rightarrow> redis_value \<Rightarrow> redis_value" where
  "live now v = (case v of Hash b \<Rightarrow> if bk_expires_at b < now then Absent else v | _ \<Rightarrow> v)"

text \<open>The first half of \<open>TOKEN_BUCKET_LUA\<close>: the tokens and the high-water mark after the refill, or
  \<open>None\<close> for \<open>return -2\<close>.\<close>

definition refill :: "int \<Rightarrow> int \<Rightarrow> redis_value \<Rightarrow> (int \<times> int) option" where
  "refill capacity now v =
     (case v of
        Absent \<Rightarrow> Some (capacity, now)
      | Other_type \<Rightarrow> None
      | Hash b \<Rightarrow> (case (bk_tokens b, bk_last_ms b) of
          (Some tokens, Some last_ms) \<Rightarrow>
            if tokens < 0 \<or> last_ms < 0 \<or> tokens > 9007199254740991 \<or> last_ms > 9007199254740000
            then None
            else if last_ms > now then Some (0, last_ms)
            else let elapsed_seconds = (now - last_ms) div 1000 in
              if elapsed_seconds > 0
              then Some (min capacity (tokens + elapsed_seconds * capacity),
                         last_ms + elapsed_seconds * 1000)
              else Some (tokens, last_ms)
        | _ \<Rightarrow> None))"

definition lane_allowed :: "string \<Rightarrow> int \<Rightarrow> int \<Rightarrow> bool" where
  "lane_allowed lane reserved tokens \<longleftrightarrow>
     (lane = ''realtime'' \<and> 1 \<le> tokens) \<or> (lane = ''bulk'' \<and> reserved < tokens)"

definition TOKEN_BUCKET_LUA ::
  "string \<Rightarrow> int \<Rightarrow> int \<Rightarrow> int \<Rightarrow> redis_value \<Rightarrow> redis_value \<times> int" where
  "TOKEN_BUCKET_LUA lane capacity reserved now v =
     (case refill capacity now (live now v) of
        None \<Rightarrow> (v, - 2)
      | Some (tokens, last_ms) \<Rightarrow>
          let tokens = min capacity tokens;
              allowed = lane_allowed lane reserved tokens;
              tokens = (if allowed then tokens - 1 else tokens)
          in (Hash \<lparr>bk_tokens = Some tokens, bk_last_ms = Some last_ms,
                bk_expires_at = now + max 60000 (last_ms - now + 1000)\<rparr>,
              if allowed then last_ms else - 1))"

definition TOKEN_REFUND_LUA :: "int \<Rightarrow> int \<Rightarrow> int \<Rightarrow> redis_value \<Rightarrow> (redis_value \<times> int) res" where
  "TOKEN_REFUND_LUA capacity lease_epoch now v =
     (case live now v of
        Absent \<Rightarrow> Inr (v, 0)
      | Other_type \<Rightarrow> Inl (OtherError ''WRONGTYPE'')
      | Hash b \<Rightarrow> (case (bk_tokens b, bk_last_ms b) of
          (Some tokens, Some last_ms) \<Rightarrow>
            if last_ms \<noteq> lease_epoch then Inr (v, 0)
            else if now < last_ms \<or> last_ms + 1000 \<le> now \<or> tokens < 0 then Inr (v, 0)
            else Inr (Hash \<lparr>bk_tokens = Some (min capacity (tokens + 1)), bk_last_ms = Some last_ms,
                        bk_expires_at = now + 60000\<rparr>, 1)
        | _ \<Rightarrow> Inr (v, 0)))"

definition acquire ::
  "string \<Rightarrow> int \<Rightarrow> int \<Rightarrow> int \<Rightarrow> redis_value \<Rightarrow> redis_value \<times> int option res" where
  "acquire lane vendor_qps reserved_realtime_qps now v =
     (if lane \<notin> {''realtime'', ''bulk''} then (v, Inl (ValueError ''lane must be realtime or bulk''))
      else if vendor_qps < 1 \<or> \<not> (0 \<le> reserved_realtime_qps \<and> reserved_realtime_qps < vendor_qps)
      then (v, Inl (ValueError ''invalid vendor QPS reservation''))
      else let (v, lease_epoch) = TOKEN_BUCKET_LUA lane vendor_qps reserved_realtime_qps now v in
        (v, if lease_epoch < - 1 then Inl (RuntimeError ''vendor token bucket state unavailable'')
            else Inr (if lease_epoch < 0 then None else Some lease_epoch)))"

definition refund :: "int \<Rightarrow> int \<Rightarrow> int \<Rightarrow> redis_value \<Rightarrow> redis_value \<times> unit res" where
  "refund vendor_qps lease_epoch now v =
     (if vendor_qps < 1 then (v, Inl (ValueError ''vendor_qps must be positive''))
      else case TOKEN_REFUND_LUA vendor_qps lease_epoch now v of
        Inl e \<Rightarrow> (v, Inl e) | Inr (v, _) \<Rightarrow> (v, Inr ()))"

section \<open>Runs\<close>

text \<open>A sequence of calls with fixed limits, and what they granted and took back.\<close>

datatype bucket_op = Acquire string int | Refund int int

datatype bucket_event = Granted int int | Refunded int

definition bucket_step ::
  "int \<Rightarrow> int \<Rightarrow> redis_value \<Rightarrow> bucket_op \<Rightarrow> redis_value \<times> bucket_event list" where
  "bucket_step qps reserved v c =
     (case c of
        Acquire lane now \<Rightarrow> (case acquire lane qps reserved now v of
            (v, Inr (Some e)) \<Rightarrow> (v, [Granted e now]) | (v, _) \<Rightarrow> (v, []))
      | Refund e now \<Rightarrow> (case (refund qps e now v, TOKEN_REFUND_LUA qps e now v) of
            ((v, Inr _), Inr (_, r)) \<Rightarrow> (v, if r = 1 then [Refunded e] else [])
          | ((v, _), _) \<Rightarrow> (v, [])))"

fun bucket_run ::
  "int \<Rightarrow> int \<Rightarrow> redis_value \<Rightarrow> bucket_op list \<Rightarrow> redis_value \<times> bucket_event list" where
  "bucket_run qps reserved v [] = (v, [])"
| "bucket_run qps reserved v (c # cs) =
     (let (v, es) = bucket_step qps reserved v c; (v, es') = bucket_run qps reserved v cs
      in (v, es @ es'))"

definition granted :: "int \<Rightarrow> bucket_event list \<Rightarrow> nat" where
  "granted e es = count_rows (\<lambda>x. case x of Granted e' _ \<Rightarrow> e' = e | _ \<Rightarrow> False) es"

definition refunded :: "int \<Rightarrow> bucket_event list \<Rightarrow> nat" where
  "refunded e es = count_rows (\<lambda>x. x = Refunded e) es"

section \<open>The invariant of a run\<close>

definition epochs :: "bucket_event list \<Rightarrow> int set" where
  "epochs es = {e. \<exists>n. Granted e n \<in> set es}"

definition bucket_ok :: "int \<Rightarrow> redis_value \<Rightarrow> bucket_event list \<Rightarrow> bool" where
  "bucket_ok qps v es \<longleftrightarrow>
     (\<forall>e. int (granted e es) \<le> qps + int (refunded e es))
     \<and> (\<forall>e\<in>epochs es. \<forall>e'\<in>epochs es. e < e' \<longrightarrow> e + 1000 \<le> e')
     \<and> (\<forall>e n. Granted e n \<in> set es \<longrightarrow> e \<le> n \<and> n < e + 1000)
     \<and> (case v of
          Absent \<Rightarrow> epochs es = {}
        | Other_type \<Rightarrow> False
        | Hash b \<Rightarrow> (\<exists>tokens last_ms. bk_tokens b = Some tokens \<and> bk_last_ms b = Some last_ms
            \<and> tokens \<le> qps \<and> int (granted last_ms es) + tokens \<le> qps + int (refunded last_ms es)
            \<and> last_ms + 1000 \<le> bk_expires_at b
            \<and> (\<forall>e\<in>epochs es. e = last_ms \<or> e + 1000 \<le> last_ms)))"

lemma granted_append [simp]: "granted e (xs @ ys) = granted e xs + granted e ys"
  by (simp add: granted_def count_rows_def)

lemma refunded_append [simp]: "refunded e (xs @ ys) = refunded e xs + refunded e ys"
  by (simp add: refunded_def count_rows_def)

lemma granted_single [simp]:
  "granted e [] = 0" "granted e [Granted e' n] = (if e' = e then 1 else 0)" "granted e [Refunded e'] = 0"
  by (simp_all add: granted_def count_rows_def)

lemma refunded_single [simp]:
  "refunded e [] = 0" "refunded e [Granted e' n] = 0" "refunded e [Refunded e'] = (if e' = e then 1 else 0)"
  by (simp_all add: refunded_def count_rows_def)

lemma epochs_append [simp]: "epochs (xs @ ys) = epochs xs \<union> epochs ys"
  by (auto simp: epochs_def)

lemma epochs_single [simp]: "epochs [] = {}" "epochs [Granted e n] = {e}" "epochs [Refunded e] = {}"
  by (auto simp: epochs_def)

lemma granted_outside: "e \<notin> epochs es \<Longrightarrow> granted e es = 0"
  by (induction es) (auto simp: granted_def count_rows_def epochs_def split: bucket_event.splits)

lemma div_1000_bounds: "x div 1000 * 1000 \<le> x" "x < x div 1000 * 1000 + 1000" for x :: int
  using div_mult_mod_eq [of x 1000] pos_mod_bound [of 1000 x] pos_mod_sign [of 1000 x]
  by linarith+

lemma refill_ok:
  assumes "bucket_ok qps v es" "refill qps now (live now v) = Some (t, l)"
  shows "int (granted l es) + min qps t \<le> qps + int (refunded l es)"
    and "\<forall>e\<in>epochs es. e = l \<or> e + 1000 \<le> l"
    and "(l \<le> now \<and> now < l + 1000) \<or> (now < l \<and> t = 0)"
proof -
  have new: "int (granted l es) + min qps t \<le> qps + int (refunded l es)"
    if "\<forall>e\<in>epochs es. e + 1000 \<le> l"
    using that granted_outside [of l es] by force
  have "(int (granted l es) + min qps t \<le> qps + int (refunded l es))
      \<and> (\<forall>e\<in>epochs es. e = l \<or> e + 1000 \<le> l)
      \<and> ((l \<le> now \<and> now < l + 1000) \<or> (now < l \<and> t = 0))"
  proof (cases "live now v")
    case Absent
    then have tl: "l = now" using assms(2) by (simp add: refill_def)
    have "\<forall>e\<in>epochs es. e + 1000 \<le> l"
      using Absent assms(1) by (cases v)
        (fastforce simp: live_def bucket_ok_def tl split: if_splits)+
    with new tl show ?thesis by auto
  next
    case Other_type
    then show ?thesis using assms(2) by (simp add: refill_def)
  next
    case (Hash b)
    then have v: "v = Hash b" by (cases v) (auto simp: live_def split: if_splits)
    with assms(1) obtain tokens last_ms where b: "bk_tokens b = Some tokens" "bk_last_ms b = Some last_ms"
      and inv: "int (granted last_ms es) + tokens \<le> qps + int (refunded last_ms es)"
        "\<forall>e\<in>epochs es. e = last_ms \<or> e + 1000 \<le> last_ms"
      and all: "int (granted last_ms es) \<le> qps + int (refunded last_ms es)"
      by (auto simp: bucket_ok_def)
    define s where "s = (now - last_ms) div 1000"
    consider "last_ms > now" "t = 0" "l = last_ms"
      | "last_ms \<le> now" "s > 0" "l = last_ms + s * 1000"
      | "last_ms \<le> now" "s \<le> 0" "t = tokens" "l = last_ms"
      using assms(2) b Hash by (auto simp: refill_def Let_def s_def split: if_splits)
    then show ?thesis
    proof cases
      case 1
      with inv(2) all show ?thesis by auto
    next
      case 2
      then have "\<forall>e\<in>epochs es. e + 1000 \<le> l" using inv(2) by fastforce
      moreover have "l \<le> now \<and> now < l + 1000" using 2 div_1000_bounds [of "now - last_ms"] unfolding s_def by linarith
      ultimately show ?thesis using new by auto
    next
      case 3
      moreover have "now < l + 1000" using 3 div_1000_bounds [of "now - last_ms"] unfolding s_def by linarith
      ultimately show ?thesis using inv by auto
    qed
  qed
  then show "int (granted l es) + min qps t \<le> qps + int (refunded l es)"
    "\<forall>e\<in>epochs es. e = l \<or> e + 1000 \<le> l" "(l \<le> now \<and> now < l + 1000) \<or> (now < l \<and> t = 0)"
    by auto
qed

lemma lua_ok:
  assumes "bucket_ok qps v es" "1 \<le> qps" "0 \<le> reserved"
    and "TOKEN_BUCKET_LUA lane qps reserved now v = (v', r)"
  shows "bucket_ok qps v' (es @ (if r < 0 then [] else [Granted r now]))"
proof (cases "refill qps now (live now v)")
  case None
  with assms show ?thesis by (simp add: TOKEN_BUCKET_LUA_def)
next
  case (Some p)
  obtain t l where p: "p = (t, l)" by (cases p)
  note ok = refill_ok [OF assms(1) Some [unfolded p]]
  let ?allowed = "lane_allowed lane reserved (min qps t)"
  have v': "v' = Hash \<lparr>bk_tokens = Some (if ?allowed then min qps t - 1 else min qps t),
      bk_last_ms = Some l, bk_expires_at = now + max 60000 (l - now + 1000)\<rparr>"
    and r: "r = (if ?allowed then l else - 1)"
    using assms(4) Some p by (simp_all add: TOKEN_BUCKET_LUA_def Let_def split: if_splits)
  have base: "\<forall>e. int (granted e es) \<le> qps + int (refunded e es)"
    "\<forall>e\<in>epochs es. \<forall>e'\<in>epochs es. e < e' \<longrightarrow> e + 1000 \<le> e'"
    "\<forall>e n. Granted e n \<in> set es \<longrightarrow> e \<le> n \<and> n < e + 1000"
    using assms(1) by (simp_all add: bucket_ok_def)
  show ?thesis
  proof (cases "?allowed \<and> 0 \<le> l")
    case True
    then have pos: "1 \<le> min qps t" using assms(3) by (auto simp: lane_allowed_def)
    then have now: "l \<le> now" "now < l + 1000" using ok(3) by auto
    have "int (granted l es) + 1 \<le> qps + int (refunded l es)" using ok(1) pos by linarith
    with True base ok(1,2) now show ?thesis
      unfolding bucket_ok_def v' r by auto
  next
    case False
    then have "es @ (if r < 0 then [] else [Granted r now]) = es" by (auto simp: r)
    with False base ok(1,2) show ?thesis
      unfolding bucket_ok_def v' by auto
  qed
qed

lemma refund_ok:
  assumes "bucket_ok qps v es" "TOKEN_REFUND_LUA qps e now v = Inr (v', r)"
  shows "bucket_ok qps v' (es @ (if r = 1 then [Refunded e] else []))"
proof (cases "r = 1")
  case False
  with assms show ?thesis
    by (auto simp: TOKEN_REFUND_LUA_def split: redis_value.splits option.splits prod.splits if_splits)
next
  case True
  obtain b tokens where v: "v = Hash b" and b: "bk_tokens b = Some tokens" "bk_last_ms b = Some e"
    and now: "e \<le> now" and v': "v' = Hash \<lparr>bk_tokens = Some (min qps (tokens + 1)),
        bk_last_ms = Some e, bk_expires_at = now + 60000\<rparr>"
    using assms(2) True
    by (auto simp: TOKEN_REFUND_LUA_def live_def split: redis_value.splits option.splits if_splits)
  from assms(1) v b have "\<forall>e. int (granted e es) \<le> qps + int (refunded e es)"
    "\<forall>e\<in>epochs es. \<forall>e'\<in>epochs es. e < e' \<longrightarrow> e + 1000 \<le> e'"
    "\<forall>e n. Granted e n \<in> set es \<longrightarrow> e \<le> n \<and> n < e + 1000"
    "int (granted e es) + tokens \<le> qps + int (refunded e es)"
    "\<forall>e'\<in>epochs es. e' = e \<or> e' + 1000 \<le> e"
    by (auto simp: bucket_ok_def)
  with True now show ?thesis
    unfolding bucket_ok_def v' by (auto simp: add_increasing2 intro: order_trans)
qed

lemma bucket_step_ok:
  assumes "bucket_ok qps v es" "bucket_step qps reserved v c = (v', es')"
  shows "bucket_ok qps v' (es @ es')"
proof (cases c)
  case (Acquire lane now)
  show ?thesis
  proof (cases "lane \<in> {''realtime'', ''bulk''} \<and> 1 \<le> qps \<and> 0 \<le> reserved \<and> reserved < qps")
    case True
    obtain v1 r where lua: "TOKEN_BUCKET_LUA lane qps reserved now v = (v1, r)" by fastforce
    with True have "acquire lane qps reserved now v = (v1,
        if r < - 1 then Inl (RuntimeError ''vendor token bucket state unavailable'')
        else Inr (if r < 0 then None else Some r))"
      by (auto simp: acquire_def)
    with assms(2) Acquire have "v' = v1" "es' = (if r < 0 then [] else [Granted r now])"
      by (auto simp: bucket_step_def split: if_splits)
    with lua_ok [OF assms(1) _ _ lua] True show ?thesis by auto
  next
    case False
    then have "bucket_step qps reserved v c = (v, [])"
      using Acquire by (auto simp: bucket_step_def acquire_def)
    with assms show ?thesis by simp
  qed
next
  case (Refund e now)
  show ?thesis
  proof (cases "TOKEN_REFUND_LUA qps e now v")
    case (Inl err)
    with assms Refund show ?thesis by (auto simp: bucket_step_def refund_def split: if_splits)
  next
    case (Inr p)
    obtain v1 r where p: "p = (v1, r)" by (cases p)
    from refund_ok [OF assms(1) Inr [unfolded p]]
    have ok: "bucket_ok qps v1 (es @ (if r = 1 then [Refunded e] else []))" .
    show ?thesis
    proof (cases "1 \<le> qps")
      case True
      then have "bucket_step qps reserved v c = (v1, if r = 1 then [Refunded e] else [])"
        using Refund Inr p by (simp add: bucket_step_def refund_def)
      with assms(2) ok show ?thesis by auto
    next
      case False
      then have "bucket_step qps reserved v c = (v, [])"
        using Refund Inr p by (simp add: bucket_step_def refund_def)
      with assms show ?thesis by simp
    qed
  qed
qed

lemma bucket_run_ok:
  assumes "bucket_ok qps v es" "bucket_run qps reserved v cs = (v', es')"
  shows "bucket_ok qps v' (es @ es')"
  using assms
proof (induction cs arbitrary: v es es')
  case (Cons c cs)
  obtain v1 es1 es2 where 1: "bucket_step qps reserved v c = (v1, es1)"
    "bucket_run qps reserved v1 cs = (v', es2)" "es' = es1 @ es2"
    using Cons.prems(2) by (auto split: prod.splits)
  from Cons.IH [OF bucket_step_ok [OF Cons.prems(1) 1(1)] 1(2)] show ?case by (simp add: 1(3))
qed simp

text \<open>How many grants fall into a window of whole seconds: at most one epoch per second, and one more
  that began before it.\<close>

lemma spaced_epochs_card:
  assumes "\<forall>e\<in>E. \<forall>e'\<in>E. e < e' \<longrightarrow> e + 1000 \<le> e'" "\<forall>e\<in>E. t - 1000 < e \<and> e < t + 1000 * int k"
  shows "finite E" "card E \<le> k + 1"
proof -
  let ?f = "\<lambda>e :: int. (e - t) div 1000"
  have inj: "inj_on ?f E"
  proof (rule inj_onI, rule ccontr)
    fix e e' assume e: "e \<in> E" "e' \<in> E" "?f e = ?f e'" "e \<noteq> e'"
    then have "e + 1000 \<le> e' \<or> e' + 1000 \<le> e" using assms(1) by (meson linorder_neqE)
    with e(3) show False
      using div_1000_bounds [of "e - t"] div_1000_bounds [of "e' - t"] by linarith
  qed
  have sub: "?f ` E \<subseteq> {- 1..<int k}"
  proof
    fix x assume "x \<in> ?f ` E"
    then obtain e where e: "e \<in> E" "x = ?f e" by auto
    with assms(2) have "- 1000 \<le> e - t" "e - t < 1000 * int k" by force+
    then have "- 1000 div 1000 \<le> ?f e" "?f e < int k"
      by (auto intro: zdiv_mono1 simp: div_less_iff_less_mult)
    with e(2) show "x \<in> {- 1..<int k}" by simp
  qed
  show "finite E" by (rule inj_on_finite [OF inj sub]) simp
  have "card E \<le> card {- 1..<int k}" by (rule card_inj_on_le [OF inj sub]) simp
  then show "card E \<le> k + 1" by simp
qed

definition granted_within :: "int \<Rightarrow> int \<Rightarrow> bucket_event list \<Rightarrow> nat" where
  "granted_within t t' es =
     count_rows (\<lambda>x. case x of Granted _ n \<Rightarrow> t \<le> n \<and> n < t' | _ \<Rightarrow> False) es"

lemma count_by_epoch:
  assumes "finite E" "\<And>e n. Granted e n \<in> set es \<Longrightarrow> P n \<Longrightarrow> e \<in> E"
  shows "count_rows (\<lambda>x. case x of Granted _ n \<Rightarrow> P n | _ \<Rightarrow> False) es \<le> (\<Sum>e\<in>E. granted e es)"
  using assms(2)
proof (induction es)
  case (Cons x es)
  let ?Q = "\<lambda>x. case x of Granted _ n \<Rightarrow> P n | _ \<Rightarrow> False"
  have IH: "count_rows ?Q es \<le> (\<Sum>e\<in>E. granted e es)" 
    by (rule Cons.IH) (use Cons.prems in auto)
  have split: "granted e (x # es) = granted e [x] + granted e es" for e
    using granted_append [of e "[x]" es] by simp
  have "count_rows ?Q (x # es) = (if ?Q x then 1 else 0) + count_rows ?Q es"
    by (simp add: count_rows_def)
  also have "(if ?Q x then 1 else 0) \<le> (\<Sum>e\<in>E. granted e [x])"
  proof (cases x)
    case (Granted e n)
    then show ?thesis using Cons.prems [of e n] assms(1) by (auto simp: sum.delta)
  qed simp
  finally have "count_rows ?Q (x # es) \<le> (\<Sum>e\<in>E. granted e [x]) + count_rows ?Q es" by simp
  also have "\<dots> \<le> (\<Sum>e\<in>E. granted e [x]) + (\<Sum>e\<in>E. granted e es)" using IH by simp
  finally show ?case unfolding split by (simp add: sum.distrib)
qed (simp add: count_rows_def)

lemma sum_refunded_le:
  assumes "finite E"
  shows "(\<Sum>e\<in>E. refunded e es) \<le> count_rows (\<lambda>x. case x of Refunded _ \<Rightarrow> True | _ \<Rightarrow> False) es"
proof (induction es)
  case (Cons x es)
  have split: "refunded e (x # es) = refunded e [x] + refunded e es" for e
    using refunded_append [of e "[x]" es] by simp
  have "(\<Sum>e\<in>E. refunded e [x]) \<le> (case x of Refunded _ \<Rightarrow> 1 | _ \<Rightarrow> 0)"
    using assms by (cases x) (auto simp: sum.delta)
  with Cons show ?case unfolding split
    by (cases x) (simp_all add: sum.distrib count_rows_def)
qed (simp add: count_rows_def)

definition refunds :: "bucket_event list \<Rightarrow> nat" where
  "refunds es = count_rows (\<lambda>x. case x of Refunded _ \<Rightarrow> True | _ \<Rightarrow> False) es"

section \<open>Properties\<close>

text \<open>C29: whatever the clock does, however calls of both lanes and refunds are interleaved, and also
  when the key expires, the calls that the bucket grants at clock readings inside a window of \<open>k\<close>
  seconds are at most \<open>k + 1\<close> times the rate of the provider, plus one for each refunded token.\<close>

theorem bucket_rate_bound:
  assumes "bucket_run qps reserved Absent cs = (v, es)" "1 \<le> qps"
  shows "int (granted_within t (t + 1000 * int k) es) \<le> int (k + 1) * qps + int (refunds es)"
proof -
  have "bucket_ok qps Absent []" using assms(2) by (simp add: bucket_ok_def)
  then have ok: "bucket_ok qps v es" using bucket_run_ok [OF _ assms(1), of "[]"] by simp
  let ?E = "{e \<in> epochs es. t - 1000 < e \<and> e < t + 1000 * int k}"
  have "\<forall>e\<in>?E. \<forall>e'\<in>?E. e < e' \<longrightarrow> e + 1000 \<le> e'" using ok by (simp add: bucket_ok_def)
  from spaced_epochs_card [OF this, of t k] have E: "finite ?E" "card ?E \<le> k + 1" by auto
  have mem: "e \<in> ?E" if "Granted e n \<in> set es" "t \<le> n \<and> n < t + 1000 * int k" for e n
  proof -
    have "e \<le> n \<and> n < e + 1000" using ok that(1) by (simp add: bucket_ok_def)
    with that show ?thesis by (auto simp: epochs_def)
  qed
  have "granted_within t (t + 1000 * int k) es \<le> (\<Sum>e\<in>?E. granted e es)"
    unfolding granted_within_def by (rule count_by_epoch [OF E(1) mem])
  then have "int (granted_within t (t + 1000 * int k) es) \<le> (\<Sum>e\<in>?E. int (granted e es))"
    unfolding of_nat_sum [symmetric] of_nat_le_iff .
  also have "\<dots> \<le> (\<Sum>e\<in>?E. qps + int (refunded e es))"
    by (rule sum_mono) (use ok in \<open>simp add: bucket_ok_def\<close>)
  also have "\<dots> = int (card ?E) * qps + (\<Sum>e\<in>?E. int (refunded e es))"
    by (simp add: sum.distrib)
  also have "\<dots> \<le> int (k + 1) * qps + (\<Sum>e\<in>?E. int (refunded e es))"
    using E(2) assms(2) by (intro add_right_mono mult_right_mono) simp_all
  also have "(\<Sum>e\<in>?E. int (refunded e es)) \<le> int (refunds es)"
    unfolding refunds_def of_nat_sum [symmetric] of_nat_le_iff by (rule sum_refunded_le [OF E(1)])
  finally show ?thesis by simp
qed


section \<open>A run of the bucket\<close>

definition example_calls :: "bucket_op list" where
  "example_calls = [Acquire ''bulk'' 5000, Acquire ''bulk'' 5100, Acquire ''realtime'' 5200,
     Acquire ''realtime'' 4000, Refund 5000 5300, Acquire ''realtime'' 5400, Acquire ''realtime'' 6000]"

lemma bucket_rate_bound_witness:
  "snd (bucket_run 2 1 Absent example_calls)
     = [Granted 5000 5000, Granted 5000 5200, Refunded 5000, Granted 5000 5400, Granted 6000 6000]
   \<and> int (granted_within 5000 (5000 + 1000 * int 1) (snd (bucket_run 2 1 Absent example_calls)))
       \<le> int (1 + 1) * 2 + int (refunds (snd (bucket_run 2 1 Absent example_calls)))"
  using bucket_rate_bound [of 2 1 example_calls "fst (bucket_run 2 1 Absent example_calls)"
      "snd (bucket_run 2 1 Absent example_calls)" 5000 1] by code_simp


end
