(* ===== verification/Send_World.thy ===== *)
theory Send_World
  imports Dispatch Token_Bucket
begin

text \<open>
  The world that a send worker runs in. A worker is a sequence of interactions: transactions on the
  database, scripts in Redis, calls to the provider, and readings of settings and clocks. Between any
  two of them other workers and the rest of the platform change the database and the token buckets.
  All of that, the answers of the provider and every fault are values of an oracle \<open>outside\<close>, indexed
  by the number of the interaction. A fault raises before or after the commit, so a lost answer to a
  \<open>COMMIT\<close> is covered.

  A run that has used up its fuel is \<open>Running\<close>; it is neither a result nor an exception, and what it
  did so far is in the world. Calls to the provider are logged with the database at that moment. The
  list \<open>w_open\<close> holds the calls that were authorised for this worker and that it may still make; it
  is history that the program does not read.
\<close>

section \<open>World and oracle\<close>

record provider_call =
  hc_attempt_id :: int
  hc_chunk_id :: int
  hc_vendor_id :: string
  hc_phones :: "string list"
  hc_db :: db

datatype signal =
    Pause_queues int
  | Pause_daily_limit string datetime
  | Pause_control_agent_stale
  | Vendor_failure int
  | Vendor_success
  | Heartbeat string bool
  | Retry_message retry_message

type_synonym authorised = "int \<times> int \<times> string"

record world =
  w_db :: db
  w_bucket :: "string \<Rightarrow> redis_value"
  w_tick :: nat
  w_open :: "authorised list"
  w_calls :: "provider_call list"
  w_granted :: nat
  w_refunded :: nat
  w_market_defer_until :: "datetime option"
  w_signals :: "signal list"

datatype fault = No_fault | Fault_before exn | Fault_after exn

datatype answer =
    Task_id string
  | Transport_error
  | Protocol_error
  | Api_error int
  | Raises exn

record outside =
  o_db :: "nat \<Rightarrow> authorised list \<Rightarrow> db \<Rightarrow> db"
  o_fault :: "nat \<Rightarrow> fault"
  o_bucket :: "nat \<Rightarrow> string \<Rightarrow> redis_value \<Rightarrow> redis_value"
  o_redis_ms :: "nat \<Rightarrow> int"
  o_paused :: "nat \<Rightarrow> bool"
  o_health :: "nat \<Rightarrow> VendorHealth list"
  o_answer :: "nat \<Rightarrow> answer"
  o_control :: "nat \<Rightarrow> bool option"
  o_window :: "nat \<Rightarrow> string"
  o_clock :: "nat \<Rightarrow> datetime"
  o_deadlock :: "nat \<Rightarrow> nat \<Rightarrow> bool"

section \<open>The monad of a worker\<close>

datatype 'a run = Returned 'a | Raised exn | Running

type_synonym 'a worker = "world \<Rightarrow> 'a run \<times> world"

definition wreturn :: "'a \<Rightarrow> 'a worker" where
  "wreturn x w = (Returned x, w)"

definition wraise :: "exn \<Rightarrow> 'a worker" where
  "wraise e w = (Raised e, w)"

definition wrunning :: "'a worker" where
  "wrunning w = (Running, w)"

definition wbind :: "'a worker \<Rightarrow> ('a \<Rightarrow> 'b worker) \<Rightarrow> 'b worker" where
  "wbind m f w =
     (case m w of (Returned x, w) \<Rightarrow> f x w | (Raised e, w) \<Rightarrow> (Raised e, w) | (Running, w) \<Rightarrow> (Running, w))"

text \<open>\<open>try: m except: h\<close>. A handler decides which exceptions it takes.\<close>

definition wcatch :: "'a worker \<Rightarrow> (exn \<Rightarrow> 'a worker) \<Rightarrow> 'a worker" where
  "wcatch m h w = (case m w of (Raised e, w) \<Rightarrow> h e w | r \<Rightarrow> r)"

text \<open>\<open>try: m finally: f\<close>, where \<open>f\<close> depends on the result of \<open>m\<close>, if there is one. An exception of
  \<open>f\<close> replaces what \<open>m\<close> returned or raised.\<close>

definition wfinally :: "'a worker \<Rightarrow> ('a option \<Rightarrow> unit worker) \<Rightarrow> 'a worker" where
  "wfinally m f w =
     (case m w of
        (Running, w) \<Rightarrow> (Running, w)
      | (Returned x, w) \<Rightarrow> wbind (f (Some x)) (\<lambda>_. wreturn x) w
      | (Raised e, w) \<Rightarrow> wbind (f None) (\<lambda>_. wraise e) w)"

definition wlift :: "'a res \<Rightarrow> 'a worker" where
  "wlift r = (case r of Inl e \<Rightarrow> wraise e | Inr x \<Rightarrow> wreturn x)"

fun wfor :: "('a \<Rightarrow> unit worker) \<Rightarrow> 'a list \<Rightarrow> unit worker" where
  "wfor f [] = wreturn ()"
| "wfor f (x # xs) = wbind (f x) (\<lambda>_. wfor f xs)"

text \<open>\<open>asyncio.CancelledError\<close> is not an \<open>Exception\<close>.\<close>

definition cancelled :: exn where
  "cancelled = OtherError ''CancelledError''"

definition is_exception :: "exn \<Rightarrow> bool" where
  "is_exception e \<longleftrightarrow> e \<noteq> cancelled"

definition is_runtime_error :: "exn \<Rightarrow> bool" where
  "is_runtime_error e \<longleftrightarrow> (case e of RuntimeError _ \<Rightarrow> True | _ \<Rightarrow> False)"

section \<open>Interactions\<close>

text \<open>Reading a value of the outside.\<close>

definition ask :: "outside \<Rightarrow> (nat \<Rightarrow> 'a) \<Rightarrow> 'a worker" where
  "ask out f w =
     (let k = w_tick w; w = w\<lparr>w_tick := Suc k\<rparr> in
      case o_fault out k of
        No_fault \<Rightarrow> (Returned (f k), w)
      | Fault_before e \<Rightarrow> (Raised e, w)
      | Fault_after e \<Rightarrow> (Raised e, w))"

text \<open>Handing something to another component.\<close>

definition tell :: "outside \<Rightarrow> signal \<Rightarrow> unit worker" where
  "tell out s w =
     (let k = w_tick w; w = w\<lparr>w_tick := Suc k\<rparr> in
      case o_fault out k of
        No_fault \<Rightarrow> (Returned (), w\<lparr>w_signals := w_signals w @ [s]\<rparr>)
      | Fault_before e \<Rightarrow> (Raised e, w)
      | Fault_after e \<Rightarrow> (Raised e, w\<lparr>w_signals := w_signals w @ [s]\<rparr>))"

text \<open>One transaction, after whatever the others did.\<close>

definition transaction :: "outside \<Rightarrow> (db \<Rightarrow> (db \<times> 'a) res) \<Rightarrow> 'a worker" where
  "transaction out f w =
     (let k = w_tick w; db = o_db out k (w_open w) (w_db w);
          w = w\<lparr>w_tick := Suc k, w_db := db\<rparr> in
      case o_fault out k of
        Fault_before e \<Rightarrow> (Raised e, w)
      | flt \<Rightarrow> (case f db of
          Inl e \<Rightarrow> (Raised e, w)
        | Inr (db, x) \<Rightarrow>
            (case flt of Fault_after e \<Rightarrow> (Raised e, w\<lparr>w_db := db\<rparr>)
             | _ \<Rightarrow> (Returned x, w\<lparr>w_db := db\<rparr>))))"

definition query :: "outside \<Rightarrow> (db \<Rightarrow> 'a res) \<Rightarrow> 'a worker" where
  "query out f = transaction out (\<lambda>db. rbind (f db) (\<lambda>x. Inr (db, x)))"

definition command :: "outside \<Rightarrow> (db \<Rightarrow> db res) \<Rightarrow> unit worker" where
  "command out f = transaction out (\<lambda>db. rbind (f db) (\<lambda>db. Inr (db, ())))"

text \<open>The history of authorised calls: one is opened when its authorisation is committed, and closed when
  it is made or given up.\<close>

definition wopen :: "authorised \<Rightarrow> unit worker" where
  "wopen a w = (Returned (), w\<lparr>w_open := a # w_open w\<rparr>)"

definition wclose :: "int \<Rightarrow> unit worker" where
  "wclose i w = (Returned (), w\<lparr>w_open := filter (\<lambda>a. fst a \<noteq> i) (w_open w)\<rparr>)"

definition set_market_defer :: "datetime option \<Rightarrow> unit worker" where
  "set_market_defer t w = (Returned (), w\<lparr>w_market_defer_until := t\<rparr>)"

definition get_market_defer :: "datetime option worker" where
  "get_market_defer w = (Returned (w_market_defer_until w), w)"

text \<open>The token bucket of a provider.\<close>

definition bucket_acquire ::
  "outside \<Rightarrow> string \<Rightarrow> int \<Rightarrow> int \<Rightarrow> string \<Rightarrow> int option worker" where
  "bucket_acquire out lane qps reserved vendor_id w =
     (let k = w_tick w; w = w\<lparr>w_tick := Suc k\<rparr> in
      case o_fault out k of
        Fault_before e \<Rightarrow> (Raised e, w)
      | flt \<Rightarrow>
          let (v, r) = acquire lane qps reserved (o_redis_ms out k)
                         (o_bucket out k vendor_id (w_bucket w vendor_id));
              w = w\<lparr>w_bucket := (w_bucket w)(vendor_id := v)\<rparr> in
          case r of
            Inl e \<Rightarrow> (Raised e, w)
          | Inr lease \<Rightarrow>
              let w = (if lease = None then w else w\<lparr>w_granted := Suc (w_granted w)\<rparr>) in
              (case flt of Fault_after e \<Rightarrow> (Raised e, w) | _ \<Rightarrow> (Returned lease, w)))"

definition bucket_refund :: "outside \<Rightarrow> int \<Rightarrow> int \<Rightarrow> string \<Rightarrow> unit worker" where
  "bucket_refund out qps lease_epoch vendor_id w =
     (let k = w_tick w; w = w\<lparr>w_tick := Suc k\<rparr> in
      case o_fault out k of
        Fault_before e \<Rightarrow> (Raised e, w)
      | flt \<Rightarrow>
          let (v, r) = refund qps lease_epoch (o_redis_ms out k)
                         (o_bucket out k vendor_id (w_bucket w vendor_id));
              w = w\<lparr>w_bucket := (w_bucket w)(vendor_id := v), w_refunded := Suc (w_refunded w)\<rparr> in
          case r of
            Inl e \<Rightarrow> (Raised e, w)
          | Inr _ \<Rightarrow> (case flt of Fault_after e \<Rightarrow> (Raised e, w) | _ \<Rightarrow> (Returned (), w)))"

text \<open>The call to the provider. The log entry is made with the database as the last interaction left
  it, changed by the others until the moment of the call.\<close>

definition gateway_send ::
  "outside \<Rightarrow> int \<Rightarrow> int \<Rightarrow> string \<Rightarrow> string list \<Rightarrow> answer worker" where
  "gateway_send out attempt_id chunk_id vendor_id phones w =
     (let k = w_tick w; db = o_db out k (w_open w) (w_db w) in
      (Returned (o_answer out k),
       w\<lparr>w_tick := Suc k, w_db := db, w_open := filter (\<lambda>a. fst a \<noteq> attempt_id) (w_open w),
         w_calls := w_calls w @ [\<lparr>hc_attempt_id = attempt_id, hc_chunk_id = chunk_id,
           hc_vendor_id = vendor_id, hc_phones = phones, hc_db = db\<rparr>]\<rparr>))"

end
