(* ===== verification/Send_Worker.thy ===== *)
theory Send_Worker
  imports Send_World
begin

text \<open>
  The send worker (\<open>SendWorker\<close> of src/backend/app/tasks/send.py) with the store \<open>SqlChunkStore\<close>: the
  checks before a call, the token, the claim of the chunk, the attempt that authorises the call, the
  call itself, and the recording of its result with fail-over to the next provider and the split of a
  chunk that is too large. Metrics and alerts of database failures are left out. Each \<open>await\<close> of the source that leaves the process is one interaction of
  \<open>Send_World\<close>.

  Fail-over and split call the submission again. The recursion runs on fuel, one unit for each nested
  call to a provider, and so does the loop that waits for a token; a run that is out of fuel is
  \<open>Running\<close>.
\<close>

section \<open>Configuration\<close>

record worker_config =
  wk_env :: store_env
  wk_gateways :: "string list"
  wk_router :: "string list"
  wk_registry :: "VendorRecord list"
  wk_has_health :: bool
  wk_recipient_guard :: "(string list \<Rightarrow> int) option"
  wk_control_guard :: bool
  wk_enforce_live_test_budget :: bool
  wk_enforce_live_test_recipients :: bool
  wk_vendor_qps :: int
  wk_reserved_realtime_qps :: int
  wk_has_window :: bool
  wk_usage :: "db \<Rightarrow> string \<Rightarrow> string \<Rightarrow> int \<Rightarrow> bool"
  wk_patience :: nat

definition send_worker :: "worker_config \<Rightarrow> worker_config res" where
  "send_worker cfg =
     (if wk_enforce_live_test_budget cfg \<and> wk_recipient_guard cfg = None
         \<and> \<not> wk_enforce_live_test_recipients cfg
      then Inl (ValueError ''live-test budget requires recipient enforcement'') else Inr cfg)"

text \<open>The UTF-8 text of code points, for the messages that are stored.\<close>

definition utf8_char :: "nat \<Rightarrow> string" where
  "utf8_char c = map char_of
     (if c < 128 then [c]
      else if c < 2048 then [192 + c div 64, 128 + c mod 64]
      else if c < 65536 then [224 + c div 4096, 128 + c div 64 mod 64, 128 + c mod 64]
      else [240 + c div 262144, 128 + c div 4096 mod 64, 128 + c div 64 mod 64, 128 + c mod 64])"

definition utf8 :: "pystr \<Rightarrow> string" where
  "utf8 s = concat (map utf8_char s)"

section \<open>Monitoring\<close>

text \<open>Errors of the monitor are logged and dropped; a cancellation is not.\<close>

definition dropping_errors :: "unit worker \<Rightarrow> unit worker" where
  "dropping_errors m = wcatch m (\<lambda>e. if is_exception e then wreturn () else wraise e)"

definition record_failure :: "outside \<Rightarrow> int \<Rightarrow> unit worker" where
  "record_failure out code = dropping_errors (tell out (Vendor_failure code))"

definition record_success :: "outside \<Rightarrow> unit worker" where
  "record_success out = dropping_errors (tell out Vendor_success)"

section \<open>Tokens\<close>

definition is_paused :: "outside \<Rightarrow> bool worker" where
  "is_paused out = ask out (o_paused out)"

primrec token_loop :: "nat \<Rightarrow> worker_config \<Rightarrow> outside \<Rightarrow> string \<Rightarrow> string \<Rightarrow> int option worker" where
  "token_loop 0 cfg out lane vendor_id = wrunning"
| "token_loop (Suc n) cfg out lane vendor_id =
     wbind (bucket_acquire out lane (wk_vendor_qps cfg) (wk_reserved_realtime_qps cfg) vendor_id)
       (\<lambda>lease_epoch. case lease_epoch of
          Some e \<Rightarrow> wreturn (Some e)
        | None \<Rightarrow> wbind (is_paused out) (\<lambda>paused.
            if paused then wreturn None
            else wbind (ask out (\<lambda>_. ())) (\<lambda>_. token_loop n cfg out lane vendor_id)))"

definition token :: "worker_config \<Rightarrow> outside \<Rightarrow> string \<Rightarrow> string \<Rightarrow> int option worker" where
  "token cfg out lane vendor_id = token_loop (wk_patience cfg) cfg out lane vendor_id"

definition refund_token :: "worker_config \<Rightarrow> outside \<Rightarrow> int \<Rightarrow> string \<Rightarrow> unit worker" where
  "refund_token cfg out lease_epoch vendor_id =
     dropping_errors (bucket_refund out (wk_vendor_qps cfg) lease_epoch vendor_id)"

section \<open>Checks before a call\<close>

definition has_gateway :: "worker_config \<Rightarrow> string \<Rightarrow> bool" where
  "has_gateway cfg vendor_id \<longleftrightarrow> vendor_id \<in> set (wk_gateways cfg) \<or> vendor_id = PRIMARY_VENDOR_ID"

definition health_snapshot :: "worker_config \<Rightarrow> outside \<Rightarrow> bool \<Rightarrow> VendorHealth list worker" where
  "health_snapshot cfg out platform_paused =
     wbind (if wk_has_health cfg then ask out (o_health out)
            else wreturn (map (\<lambda>v. \<lparr>vh_vendor_id = v, vh_available = True, vh_pause_reason = None\<rparr>)
                   (wk_router cfg)))
       (\<lambda>snapshot. wreturn (if \<not> platform_paused then snapshot
          else map (\<lambda>h. h\<lparr>vh_available := vh_available h \<and> vh_vendor_id h \<noteq> PRIMARY_VENDOR_ID,
                 vh_pause_reason := (if vh_vendor_id h = PRIMARY_VENDOR_ID
                    then Some ''platform_paused'' else vh_pause_reason h)\<rparr>) snapshot))"

definition reject_recipients :: "outside \<Rightarrow> ChunkPayload \<Rightarrow> bool \<Rightarrow> int \<Rightarrow> bool worker" where
  "reject_recipients out chunk persist_rejection denied =
     wbind (if persist_rejection
            then command out (\<lambda>db. reject_disallowed_recipient db (ck_chunk_id chunk) denied)
            else wreturn ()) (\<lambda>_. wreturn False)"

definition guard_chunk :: "worker_config \<Rightarrow> outside \<Rightarrow> ChunkPayload \<Rightarrow> bool \<Rightarrow> bool worker" where
  "guard_chunk cfg out chunk persist_rejection =
     (if wk_enforce_live_test_recipients cfg \<and> ck_denied_recipient_count chunk \<noteq> 0
      then reject_recipients out chunk persist_rejection (ck_denied_recipient_count chunk)
      else case wk_recipient_guard cfg of
        None \<Rightarrow> wreturn True
      | Some denied \<Rightarrow>
          if denied (ck_phones chunk) = 0 then wreturn True
          else reject_recipients out chunk persist_rejection (denied (ck_phones chunk)))"

definition control_ready :: "worker_config \<Rightarrow> outside \<Rightarrow> bool worker" where
  "control_ready cfg out =
     (if \<not> wk_control_guard cfg then wreturn True
      else wbind (ask out (o_control out)) (\<lambda>state.
        case state of
          None \<Rightarrow> wreturn True
        | Some critical \<Rightarrow>
            wbind (if critical then tell out Pause_control_agent_stale else wreturn ())
              (\<lambda>_. wreturn False)))"

definition market_ready :: "worker_config \<Rightarrow> outside \<Rightarrow> ChunkPayload \<Rightarrow> bool worker" where
  "market_ready cfg out chunk =
     (if ck_category chunk \<noteq> ''market'' \<or> ck_is_test chunk then wreturn True
      else wbind (if wk_has_window cfg then ask out (o_window out) else wreturn ''08:00-21:00'')
        (\<lambda>window. wbind (ask out (o_clock out)) (\<lambda>now.
           wbind (wlift (coerce_market_dispatch (Aware now) window None)) (\<lambda>(state, _, defer_until).
             wbind (set_market_defer defer_until) (\<lambda>_. wreturn (state = D_queued))))))"

definition preflight_before_invoke ::
  "worker_config \<Rightarrow> outside \<Rightarrow> ChunkPayload \<Rightarrow> string \<Rightarrow> bool \<Rightarrow> SubmitOutcome option worker" where
  "preflight_before_invoke cfg out chunk vendor_id authorized =
     wbind (is_paused out) (\<lambda>paused.
       if paused \<or> \<not> has_gateway cfg vendor_id then wreturn (Some O_PAUSED)
       else case first_row (\<lambda>r. vr_vendor_id r = vendor_id) (wk_registry cfg) of
         None \<Rightarrow> wreturn (Some O_PAUSED)
       | Some record \<Rightarrow>
           if \<not> vendor_matches_route record (ck_category chunk)
                  (Some (wk_gateways cfg @ [PRIMARY_VENDOR_ID]))
           then wreturn (Some O_PAUSED)
           else wbind (health_snapshot cfg out False) (\<lambda>health.
             if \<not> list_ex (\<lambda>h. vh_vendor_id h = vendor_id \<and> vh_available h) health
             then wreturn (Some O_PAUSED)
             else wbind (if wk_enforce_live_test_recipients cfg
                         then query out (\<lambda>db. refresh_invoke_payload (wk_env cfg) db (ck_chunk_id chunk))
                         else wreturn chunk) (\<lambda>chunk.
               wbind (guard_chunk cfg out chunk (\<not> authorized)) (\<lambda>allowed.
                 if \<not> allowed then wreturn (Some O_REJECTED)
                 else wbind (control_ready cfg out) (\<lambda>ready.
                   if \<not> ready then wreturn (Some O_PAUSED)
                   else wbind (market_ready cfg out chunk) (\<lambda>ready.
                     wreturn (if ready then None else Some O_PAUSED)))))))"

text \<open>\<open>phones_for_invoke\<close> of dispatch_blacklist.py: at most three rounds of the check, until the policy
  generation is the one that was checked.\<close>

primrec phones_loop ::
  "nat \<Rightarrow> worker_config \<Rightarrow> outside \<Rightarrow> ChunkPayload \<Rightarrow> DispatchDecision \<Rightarrow> DispatchDecision worker" where
  "phones_loop 0 cfg out chunk lst =
     wreturn (decision [] (dd_excluded_count lst) (dd_generation lst) D_STALE)"
| "phones_loop (Suc n) cfg out chunk lst =
     wbind (transaction out (\<lambda>db. decide_dispatch (wk_usage cfg) db chunk)) (\<lambda>d.
       if dd_action d \<noteq> D_SEND \<or> dd_generation d = None then wreturn d
       else wbind (query out read_generation) (\<lambda>g.
         if Some g = dd_generation d then wreturn d else phones_loop n cfg out chunk d))"

definition phones_for_invoke ::
  "worker_config \<Rightarrow> outside \<Rightarrow> ChunkPayload \<Rightarrow> DispatchDecision worker" where
  "phones_for_invoke cfg out chunk = phones_loop 3 cfg out chunk (decision [] 0 None D_STALE)"

definition final_content :: "ChunkPayload \<Rightarrow> pystr" where
  "final_content chunk = ck_sign_name chunk @ ck_content chunk"

text \<open>A message that the broker does not take in time is left to recovery.\<close>

definition enqueue_retry :: "outside \<Rightarrow> retry_message \<Rightarrow> unit worker" where
  "enqueue_retry out r =
     wcatch (tell out (Retry_message r))
       (\<lambda>e. if e \<in> {OtherError ''ExecutorBackpressure'', OtherError ''TimeoutError''}
            then wreturn () else wraise e)"

definition publish_retry :: "outside \<Rightarrow> retry_message option \<Rightarrow> unit worker" where
  "publish_retry out m = (case m of None \<Rightarrow> wreturn () | Some r \<Rightarrow> enqueue_retry out r)"

text \<open>The chunk waits for the next day of the live test, and so does its lane.\<close>

definition wait_for_next_day ::
  "worker_config \<Rightarrow> outside \<Rightarrow> int \<Rightarrow> string \<Rightarrow> datetime \<Rightarrow> unit worker" where
  "wait_for_next_day cfg out chunk_id lane reset_at =
     wbind (transaction out (\<lambda>db. defer_daily_limit (wk_env cfg) db chunk_id lane reset_at)) (\<lambda>r.
     wbind (wlift r) (\<lambda>m.
     wbind (publish_retry out m) (\<lambda>_. tell out (Pause_daily_limit lane reset_at))))"

definition claim_after_token ::
  "worker_config \<Rightarrow> outside \<Rightarrow> ChunkPayload \<Rightarrow> string \<Rightarrow> int \<Rightarrow> SubmissionClaimStatus worker" where
  "claim_after_token cfg out chunk lane retry_index =
     wbind (phones_for_invoke cfg out chunk) (\<lambda>d.
       if dd_action d \<noteq> D_SEND \<or> dd_eligible_phones d = [] then wreturn S_STALE
       else wbind (wlift (calculate_quota_cost (final_content chunk)
                            (int (length (dd_eligible_phones d))))) (\<lambda>segments.
         wbind (transaction out (\<lambda>db. claim_submission (wk_env cfg) db (ck_chunk_id chunk) retry_index
                  segments (wk_enforce_live_test_budget cfg))) (\<lambda>claim.
           if sc_status claim \<noteq> S_DAILY_LIMIT then wreturn (sc_status claim)
           else case sc_reset_at claim of
             None \<Rightarrow> wraise (RuntimeError ''daily-limit claim missing reset_at'')
           | Some reset_at \<Rightarrow>
               wbind (wait_for_next_day cfg out (ck_chunk_id chunk) lane reset_at)
                 (\<lambda>_. wreturn (sc_status claim)))))"

section \<open>Recording a result\<close>

definition persist_attempt ::
  "outside \<Rightarrow> int \<Rightarrow> attempt_outcome \<Rightarrow> bool \<Rightarrow> int option \<Rightarrow> unit worker" where
  "persist_attempt out attempt_id outcome safe code =
     wbind (transaction out (\<lambda>db. complete_vendor_attempt db attempt_id outcome safe code))
       (\<lambda>_. wreturn ())"

definition store_finalize ::
  "worker_config \<Rightarrow> outside \<Rightarrow> ChunkPayload \<Rightarrow> int \<Rightarrow> int \<Rightarrow> finalize_args \<Rightarrow> FinalizeReport worker" where
  "store_finalize cfg out chunk generation attempt_id a w =
     wbind (transaction out (\<lambda>db. finalize_vendor_attempt (o_deadlock out (w_tick w)) (wk_env cfg) db
              attempt_id (ck_chunk_id chunk) generation (a\<lparr>fa_batch_id := Some (ck_batch_id chunk)\<rparr>)))
       (\<lambda>(report, m). wbind (publish_retry out m) (\<lambda>_. wreturn report)) w"

text \<open>\<open>None\<close> when the database does not know the attempt.\<close>

definition finalize_invoke ::
  "worker_config \<Rightarrow> outside \<Rightarrow> ChunkPayload \<Rightarrow> int \<Rightarrow> int \<Rightarrow> finalize_args
     \<Rightarrow> FinalizeReport option worker" where
  "finalize_invoke cfg out chunk generation attempt_id a =
     wbind (wclose attempt_id) (\<lambda>_.
       wcatch (wbind (store_finalize cfg out chunk generation attempt_id a) (\<lambda>r. wreturn (Some r)))
         (\<lambda>e. if is_exception e
              then query out (\<lambda>db. Inr (load_authoritative_next_action db (ck_chunk_id chunk)
                     attempt_id generation))
              else wraise e))"

definition abort_before_http ::
  "worker_config \<Rightarrow> outside \<Rightarrow> ChunkPayload \<Rightarrow> string \<Rightarrow> int \<Rightarrow> int \<Rightarrow> int \<Rightarrow> SubmitOutcome
     \<Rightarrow> SubmitOutcome worker" where
  "abort_before_http cfg out chunk vendor_id generation attempt_id lease_epoch outcome =
     wfinally
       (wbind (finalize_invoke cfg out chunk generation attempt_id
                 (finalize_defaults (if outcome = O_REJECTED then A_rejected else A_paused)))
          (\<lambda>report. wreturn (case report of
             Some r \<Rightarrow> submit_outcome_from_finalize r outcome | None \<Rightarrow> O_UNCERTAIN)))
       (\<lambda>_. refund_token cfg out lease_epoch vendor_id)"

definition record_uncertain ::
  "worker_config \<Rightarrow> outside \<Rightarrow> ChunkPayload \<Rightarrow> int \<Rightarrow> int \<Rightarrow> SubmitOutcome worker" where
  "record_uncertain cfg out chunk generation attempt_id =
     wbind (finalize_invoke cfg out chunk generation attempt_id (finalize_defaults A_uncertain))
       (\<lambda>report. case report of
          Some r \<Rightarrow> wreturn (submit_outcome_from_finalize r O_UNCERTAIN)
        | None \<Rightarrow>
            wbind (persist_attempt out attempt_id A_uncertain False None) (\<lambda>_.
            wbind (command out (\<lambda>db. mark_uncertain db (ck_chunk_id chunk))) (\<lambda>_.
              wreturn O_UNCERTAIN)))"

definition record_submitted ::
  "worker_config \<Rightarrow> outside \<Rightarrow> ChunkPayload \<Rightarrow> int \<Rightarrow> int \<Rightarrow> string \<Rightarrow> SubmitOutcome worker" where
  "record_submitted cfg out chunk generation attempt_id task_id =
     wbind (finalize_invoke cfg out chunk generation attempt_id
              ((finalize_defaults A_submitted)\<lparr>fa_vendor_task_id := Some task_id\<rparr>))
       (\<lambda>report. case report of
          Some r \<Rightarrow>
            (let outcome = submit_outcome_from_finalize r O_SUBMITTED in
             wbind (if outcome = O_SUBMITTED then record_success out else wreturn ())
               (\<lambda>_. wreturn outcome))
        | None \<Rightarrow>
            wbind (wcatch (wbind (command out (\<lambda>db. mark_submitted (wk_env cfg) db (ck_chunk_id chunk) task_id))
                             (\<lambda>_. wreturn True))
                     (\<lambda>e. if is_exception e then wreturn False else wraise e)) (\<lambda>marked.
              if marked
              then wbind (persist_attempt out attempt_id A_submitted False None) (\<lambda>_.
                   wbind (record_success out) (\<lambda>_. wreturn O_SUBMITTED))
              else wbind (persist_attempt out attempt_id A_uncertain False None) (\<lambda>_.
                   wbind (command out (\<lambda>db. mark_uncertain db (ck_chunk_id chunk))) (\<lambda>_.
                     wreturn O_UNCERTAIN))))"

definition apply_terminal_api_error ::
  "outside \<Rightarrow> ChunkPayload \<Rightarrow> int \<Rightarrow> bool \<Rightarrow> SubmitOutcome worker" where
  "apply_terminal_api_error out chunk code persist_chunk =
     (let policy = policy_for code;
          persist = (\<lambda>m. if persist_chunk then m else wreturn ());
          pause = wbind (tell out (Pause_queues code)) (\<lambda>_.
                  wbind (record_failure out code) (\<lambda>_. wreturn O_PAUSED))
      in if balance_blocked policy
         then wbind (persist (command out (\<lambda>db.
                balance_blocked_chunk db (ck_batch_id chunk) (ck_chunk_id chunk)))) (\<lambda>_. pause)
         else case delay_s policy of
           Some d \<Rightarrow>
             wbind (persist (wbind (transaction out (\<lambda>db. delay_chunk db (ck_chunk_id chunk) code d))
                               (publish_retry out))) (\<lambda>_. wreturn O_DELAYED)
         | None \<Rightarrow>
             if pause_queues policy
             then wbind (persist (command out (\<lambda>db. pause_blocked db (ck_chunk_id chunk) code)))
                    (\<lambda>_. pause)
             else wbind (persist (command out (\<lambda>db.
                      mark_failed db (ck_chunk_id chunk) code (utf8 (description policy))))) (\<lambda>_.
                  wbind (record_failure out code) (\<lambda>_. wreturn O_FAILED)))"

section \<open>Fail-over\<close>

definition outcome_text :: "SubmitOutcome \<Rightarrow> string" where
  "outcome_text o' =
     (case o' of O_SUBMITTED \<Rightarrow> ''submitted'' | O_RETRY_SCHEDULED \<Rightarrow> ''retry_scheduled''
      | O_DELAYED \<Rightarrow> ''delayed'' | O_PAUSED \<Rightarrow> ''paused'' | O_REJECTED \<Rightarrow> ''rejected''
      | O_STALE \<Rightarrow> ''stale'' | O_FAILED \<Rightarrow> ''failed'' | O_UNCERTAIN \<Rightarrow> ''uncertain''
      | O_SPLIT \<Rightarrow> ''split'' | O_NO_OP_ALREADY_TERMINAL \<Rightarrow> ''no_op_already_terminal'')"

definition or_default :: "int option \<Rightarrow> int \<Rightarrow> int" where
  "or_default x d = (case x of Some i \<Rightarrow> int_or i d | None \<Rightarrow> d)"

definition claim_args_of ::
  "worker_config \<Rightarrow> ChunkPayload \<Rightarrow> FinalizeReport \<Rightarrow> string \<Rightarrow> int \<Rightarrow> int \<Rightarrow> claim_args" where
  "claim_args_of cfg chunk report vendor_id previous segments =
     \<lparr>cl_expected_route_generation = or_default (fr_route_generation report) (ck_route_generation chunk),
      cl_previous_attempt_id = previous, cl_expected_next_vendor = vendor_id,
      cl_expected_route_policy_version =
        or_default (fr_route_policy_version report) (ck_route_policy_version chunk),
      cl_segments = segments, cl_enforce_live_test_budget = wk_enforce_live_test_budget cfg\<rparr>"

definition store_claim_next ::
  "worker_config \<Rightarrow> outside \<Rightarrow> ChunkPayload \<Rightarrow> FinalizeReport \<Rightarrow> string \<Rightarrow> int \<Rightarrow> InvokeClaim worker" where
  "store_claim_next cfg out chunk report vendor_id previous =
     wbind (wlift (calculate_quota_cost (final_content chunk) (int (length (ck_phones chunk)))))
       (\<lambda>segments.
         wbind (transaction out (\<lambda>db. claim_next_vendor_invoke (wk_env cfg) db (ck_chunk_id chunk)
                  (claim_args_of cfg chunk report vendor_id previous segments))) (\<lambda>claim.
           case (ic_kind claim, ic_authorization claim) of
             (IC_authorized, Some auth) \<Rightarrow>
               wbind (wopen (ia_attempt_id auth, ck_chunk_id chunk, ia_vendor_id auth))
                 (\<lambda>_. wreturn claim)
           | _ \<Rightarrow> wreturn claim))"

definition is_authorized :: "InvokeClaim \<Rightarrow> bool" where
  "is_authorized claim \<longleftrightarrow> ic_kind claim = IC_authorized"

text \<open>The claim under a token, which goes back unless the call is authorised.\<close>

definition claim_under_token ::
  "worker_config \<Rightarrow> outside \<Rightarrow> ChunkPayload \<Rightarrow> FinalizeReport \<Rightarrow> string \<Rightarrow> int \<Rightarrow> int \<Rightarrow> InvokeClaim worker" where
  "claim_under_token cfg out chunk report vendor_id previous lease_epoch =
     wfinally
       (wbind (preflight_before_invoke cfg out chunk vendor_id False) (\<lambda>preflight.
          case preflight of
            Some o' \<Rightarrow> wreturn (claim_denied (''preflight_'' @ outcome_text o'))
          | None \<Rightarrow> store_claim_next cfg out chunk report vendor_id previous))
       (\<lambda>r. if map_option is_authorized r = Some True then wreturn ()
            else refund_token cfg out lease_epoch vendor_id)"

definition defer_denied :: "worker_config \<Rightarrow> outside \<Rightarrow> ChunkPayload \<Rightarrow> string \<Rightarrow> InvokeClaim \<Rightarrow> unit worker" where
  "defer_denied cfg out chunk lane claim =
     (if is_authorized claim \<or> ic_reason claim \<noteq> ''daily_limit'' then wreturn ()
      else case ic_reset_at claim of
        Some reset_at \<Rightarrow> wait_for_next_day cfg out (ck_chunk_id chunk) lane reset_at
      | None \<Rightarrow> wreturn ())"

definition claim_with_lease ::
  "worker_config \<Rightarrow> outside \<Rightarrow> ChunkPayload \<Rightarrow> string \<Rightarrow> FinalizeReport \<Rightarrow> string \<Rightarrow> int \<Rightarrow> int option
     \<Rightarrow> (InvokeClaim \<times> int option) worker" where
  "claim_with_lease cfg out chunk lane report vendor_id previous lease =
     (case lease of
        None \<Rightarrow> wreturn (claim_denied ''token_unavailable'', None)
      | Some lease_epoch \<Rightarrow>
          wbind (claim_under_token cfg out chunk report vendor_id previous lease_epoch) (\<lambda>claim.
          wbind (defer_denied cfg out chunk lane claim) (\<lambda>_. wreturn (claim, Some lease_epoch))))"

definition claim_persisted_failover ::
  "worker_config \<Rightarrow> outside \<Rightarrow> ChunkPayload \<Rightarrow> string \<Rightarrow> FinalizeReport
     \<Rightarrow> (InvokeClaim \<times> int option) worker" where
  "claim_persisted_failover cfg out chunk lane report =
     (case (fr_next_vendor report, fr_previous_attempt_id report) of
        (Some vendor_id, Some previous) \<Rightarrow>
          wbind (preflight_before_invoke cfg out chunk vendor_id False) (\<lambda>preflight.
            case preflight of
              Some o' \<Rightarrow> wreturn (claim_denied (''preflight_'' @ outcome_text o'), None)
            | None \<Rightarrow> wbind (token cfg out lane vendor_id)
                        (claim_with_lease cfg out chunk lane report vendor_id previous))
      | _ \<Rightarrow> wreturn (claim_denied ''missing_next_action'', None))"

text \<open>The parameters of \<open>_invoke_authorized\<close> after the chunk and the lane: provider, generation,
  attempt, \<open>allow_split\<close>, \<open>retry_index\<close> and lease.\<close>

type_synonym invoker =
  "ChunkPayload \<Rightarrow> string \<Rightarrow> string \<Rightarrow> int \<Rightarrow> int \<Rightarrow> bool \<Rightarrow> int \<Rightarrow> int \<Rightarrow> SubmitOutcome worker"

text \<open>What \<open>submit\<close> and the handler of a provider error do with a claim. An authorised claim always
  comes with the lease of its token.\<close>

definition follow_claim ::
  "invoker \<Rightarrow> ChunkPayload \<Rightarrow> string \<Rightarrow> bool \<Rightarrow> int \<Rightarrow> InvokeClaim \<times> int option
     \<Rightarrow> SubmitOutcome worker" where
  "follow_claim invoke chunk lane allow_split retry_index r =
     (let (claim, lease) = r in
      if ic_kind claim = IC_denied \<and> ic_reason claim \<in>
           {''token_unavailable'', ''preflight_paused'', ''recipient_denied'', ''daily_limit''}
      then wreturn O_PAUSED
      else if ic_kind claim = IC_denied \<and> ic_reason claim = ''preflight_rejected''
      then wreturn O_REJECTED
      else if ic_kind claim = IC_already_handled then wreturn O_STALE
      else case (ic_kind claim, ic_authorization claim, lease) of
        (IC_authorized, Some auth, Some lease_epoch) \<Rightarrow>
          invoke chunk lane (ia_vendor_id auth) (ia_generation auth) (ia_attempt_id auth)
            allow_split retry_index lease_epoch
      | _ \<Rightarrow> wreturn O_UNCERTAIN)"

definition follow_failover ::
  "worker_config \<Rightarrow> outside \<Rightarrow> invoker \<Rightarrow> ChunkPayload \<Rightarrow> string \<Rightarrow> bool \<Rightarrow> int \<Rightarrow> FinalizeReport
     \<Rightarrow> SubmitOutcome worker" where
  "follow_failover cfg out invoke chunk lane allow_split retry_index report =
     wbind (claim_persisted_failover cfg out chunk lane report)
       (follow_claim invoke chunk lane allow_split retry_index)"

section \<open>Errors of the provider\<close>

text \<open>Indexing of a tuple, where a negative index counts from the end.\<close>

definition py_index :: "'a list \<Rightarrow> int \<Rightarrow> 'a res" where
  "py_index xs i =
     (if 0 \<le> i \<and> i < int (length xs) then Inr (xs ! nat i)
      else if i < 0 \<and> - int (length xs) \<le> i then Inr (xs ! nat (int (length xs) + i))
      else Inl (OtherError ''IndexError''))"

text \<open>The branches that schedule the chunk again: \<open>retry_scheduled\<close> and \<open>delayed\<close>.\<close>

definition retry_later ::
  "worker_config \<Rightarrow> outside \<Rightarrow> ChunkPayload \<Rightarrow> int \<Rightarrow> int \<Rightarrow> int \<Rightarrow> int \<Rightarrow> int \<Rightarrow> SubmitOutcome worker" where
  "retry_later cfg out chunk generation attempt_id code retry_index delay =
     wbind (finalize_invoke cfg out chunk generation attempt_id
              ((finalize_defaults A_retry_scheduled)\<lparr>fa_vendor_code := Some code,
                 fa_retry_delay_s := Some delay, fa_expected_retry_count := Some retry_index\<rparr>))
       (\<lambda>report. case report of
          Some r \<Rightarrow> wreturn (submit_outcome_from_finalize r O_RETRY_SCHEDULED)
        | None \<Rightarrow>
            wbind (wbind (transaction out (\<lambda>db.
                       schedule_retry db (ck_chunk_id chunk) code retry_index delay))
                     (\<lambda>m. wbind (publish_retry out m) (\<lambda>_. wreturn (m \<noteq> None)))) (\<lambda>scheduled.
              if \<not> scheduled then wreturn O_STALE
              else wbind (persist_attempt out attempt_id A_retry_scheduled False (Some code)) (\<lambda>_.
                     wreturn O_RETRY_SCHEDULED)))"

definition delay_later ::
  "worker_config \<Rightarrow> outside \<Rightarrow> ChunkPayload \<Rightarrow> int \<Rightarrow> int \<Rightarrow> int \<Rightarrow> int \<Rightarrow> SubmitOutcome worker" where
  "delay_later cfg out chunk generation attempt_id code delay =
     wbind (finalize_invoke cfg out chunk generation attempt_id
              ((finalize_defaults A_delayed)\<lparr>fa_vendor_code := Some code,
                 fa_retry_delay_s := Some delay\<rparr>))
       (\<lambda>report. case report of
          Some r \<Rightarrow> wreturn (submit_outcome_from_finalize r O_DELAYED)
        | None \<Rightarrow>
            wbind (wbind (transaction out (\<lambda>db. delay_chunk db (ck_chunk_id chunk) code delay))
                     (publish_retry out)) (\<lambda>_.
            wbind (persist_attempt out attempt_id A_delayed False (Some code)) (\<lambda>_.
              wreturn O_DELAYED)))"

text \<open>The split of a chunk; the children are submitted without another split.\<close>

definition split_and_submit ::
  "worker_config \<Rightarrow> outside \<Rightarrow> (ChunkPayload \<Rightarrow> SubmitOutcome worker) \<Rightarrow> ChunkPayload
     \<Rightarrow> SubmitOutcome worker" where
  "split_and_submit cfg out submit_child chunk =
     wbind (transaction out (\<lambda>db. split_once (wk_env cfg) db chunk)) (\<lambda>children.
       if children = [] then wreturn O_STALE
       else wbind (wfor (\<lambda>child. wbind (submit_child child) (\<lambda>_. wreturn ())) children)
              (\<lambda>_. wreturn O_SPLIT))"

definition terminal_rejection ::
  "worker_config \<Rightarrow> outside \<Rightarrow> invoker \<Rightarrow> ChunkPayload \<Rightarrow> int \<Rightarrow> string \<Rightarrow> int \<Rightarrow> int \<Rightarrow> bool \<Rightarrow> int
     \<Rightarrow> SubmitOutcome worker" where
  "terminal_rejection cfg out invoke chunk code lane generation attempt_id allow_split retry_index =
     (let policy = policy_for code;
          hold_like = (followup_for_policy policy (Some code) = F_hold);
          result = (if hold_like then A_paused else A_rejected)
      in wbind (finalize_invoke cfg out chunk generation attempt_id
                 ((finalize_defaults result)\<lparr>fa_vendor_code := Some code,
                    fa_safe_to_failover := safe_to_failover policy,
                    fa_balance_blocked := balance_blocked policy\<rparr>))
         (\<lambda>report. case report of
            None \<Rightarrow>
              wbind (persist_attempt out attempt_id result (safe_to_failover policy) (Some code))
                (\<lambda>_. apply_terminal_api_error out chunk code True)
          | Some r \<Rightarrow>
              if \<not> followup_allowed r
              then wreturn (submit_outcome_from_finalize r (if hold_like then O_PAUSED else O_FAILED))
              else if hold_like \<or> fr_next_action r \<in> {Some N_retrying, Some N_balance_blocked}
              then wbind (tell out (Pause_queues code)) (\<lambda>_.
                   wbind (record_failure out code) (\<lambda>_. wreturn O_PAUSED))
              else if fr_next_action r = Some N_failover_pending
              then follow_failover cfg out invoke chunk lane allow_split retry_index r
              else if fr_next_action r = Some N_failed
              then wbind (record_failure out code) (\<lambda>_. wreturn O_FAILED)
              else apply_terminal_api_error out chunk code False))"

definition handle_terminal_api_error ::
  "worker_config \<Rightarrow> outside \<Rightarrow> (ChunkPayload \<Rightarrow> SubmitOutcome worker) \<Rightarrow> invoker \<Rightarrow> ChunkPayload \<Rightarrow> int
     \<Rightarrow> string \<Rightarrow> int \<Rightarrow> int \<Rightarrow> bool \<Rightarrow> int \<Rightarrow> SubmitOutcome worker" where
  "handle_terminal_api_error cfg out submit_child invoke chunk code lane generation attempt_id
       allow_split retry_index =
     (let policy = policy_for code in
      if retry_delays_s policy \<noteq> [] \<and> retry_index < int (length (retry_delays_s policy))
      then wbind (wlift (py_index (retry_delays_s policy) retry_index))
             (retry_later cfg out chunk generation attempt_id code retry_index)
      else if shrink_batch_once policy \<and> allow_split
      then split_and_submit cfg out submit_child chunk
      else case delay_s policy of
        Some d \<Rightarrow> delay_later cfg out chunk generation attempt_id code d
      | None \<Rightarrow> terminal_rejection cfg out invoke chunk code lane generation attempt_id
                  allow_split retry_index)"

section \<open>The authorised call\<close>

text \<open>Cleanup after a failed check; its own errors are logged and dropped.\<close>

definition cleanup_before_http ::
  "worker_config \<Rightarrow> outside \<Rightarrow> ChunkPayload \<Rightarrow> string \<Rightarrow> int \<Rightarrow> int \<Rightarrow> int \<Rightarrow> unit worker" where
  "cleanup_before_http cfg out chunk vendor_id generation attempt_id lease_epoch =
     wcatch (wbind (abort_before_http cfg out chunk vendor_id generation attempt_id lease_epoch O_PAUSED)
               (\<lambda>_. wreturn ()))
       (\<lambda>_. wreturn ())"

definition call_provider ::
  "worker_config \<Rightarrow> outside \<Rightarrow> (int \<Rightarrow> SubmitOutcome worker) \<Rightarrow> ChunkPayload \<Rightarrow> string \<Rightarrow> int \<Rightarrow> int
     \<Rightarrow> string list \<Rightarrow> SubmitOutcome worker" where
  "call_provider cfg out on_error chunk vendor_id generation attempt_id phones =
     wbind (gateway_send out attempt_id (ck_chunk_id chunk) vendor_id phones) (\<lambda>ans.
       case ans of
         Task_id t \<Rightarrow> record_submitted cfg out chunk generation attempt_id t
       | Transport_error \<Rightarrow> record_uncertain cfg out chunk generation attempt_id
       | Protocol_error \<Rightarrow> record_uncertain cfg out chunk generation attempt_id
       | Api_error code \<Rightarrow>
           if map_of ERROR_POLICIES code = None
           then record_uncertain cfg out chunk generation attempt_id
           else on_error code
       | Raises e \<Rightarrow>
           wbind (record_uncertain cfg out chunk generation attempt_id) (\<lambda>_. wraise e))"

definition call_checked ::
  "worker_config \<Rightarrow> outside \<Rightarrow> (int \<Rightarrow> SubmitOutcome worker) \<Rightarrow> ChunkPayload \<Rightarrow> string \<Rightarrow> int \<Rightarrow> int
     \<Rightarrow> int \<Rightarrow> DispatchDecision \<Rightarrow> SubmitOutcome worker" where
  "call_checked cfg out on_error chunk vendor_id generation attempt_id lease_epoch d =
     (if dd_action d = D_FROZEN then wbind (wclose attempt_id) (\<lambda>_. wreturn O_STALE)
      else if dd_action d \<noteq> D_SEND \<or> dd_eligible_phones d = []
      then abort_before_http cfg out chunk vendor_id generation attempt_id lease_epoch
             (if dd_action d = D_EMPTY then O_REJECTED else O_PAUSED)
      else call_provider cfg out on_error chunk vendor_id generation attempt_id (dd_eligible_phones d))"

definition fail_without_gateway ::
  "worker_config \<Rightarrow> outside \<Rightarrow> ChunkPayload \<Rightarrow> string \<Rightarrow> int \<Rightarrow> int \<Rightarrow> int \<Rightarrow> SubmitOutcome worker" where
  "fail_without_gateway cfg out chunk vendor_id generation attempt_id lease_epoch =
     wbind (finalize_invoke cfg out chunk generation attempt_id (finalize_defaults A_failed)) (\<lambda>report.
     wbind (refund_token cfg out lease_epoch vendor_id) (\<lambda>_.
       wreturn (case report of
          Some r \<Rightarrow> submit_outcome_from_finalize r O_FAILED | None \<Rightarrow> O_FAILED)))"

definition invoke_body ::
  "worker_config \<Rightarrow> outside \<Rightarrow> (int \<Rightarrow> SubmitOutcome worker) \<Rightarrow> ChunkPayload \<Rightarrow> string \<Rightarrow> int \<Rightarrow> int
     \<Rightarrow> int \<Rightarrow> SubmitOutcome worker" where
  "invoke_body cfg out on_error chunk vendor_id generation attempt_id lease_epoch =
     wbind (wcatch (preflight_before_invoke cfg out chunk vendor_id True)
              (\<lambda>e. wbind (cleanup_before_http cfg out chunk vendor_id generation attempt_id lease_epoch)
                      (\<lambda>_. wraise e)))
       (\<lambda>preflight. case preflight of
          Some o' \<Rightarrow> abort_before_http cfg out chunk vendor_id generation attempt_id lease_epoch o'
        | None \<Rightarrow>
            if \<not> has_gateway cfg vendor_id
            then fail_without_gateway cfg out chunk vendor_id generation attempt_id lease_epoch
            else wbind (wcatch (phones_for_invoke cfg out chunk)
                          (\<lambda>e. wbind (wclose attempt_id) (\<lambda>_. wraise e)))
                   (call_checked cfg out on_error chunk vendor_id generation attempt_id lease_epoch))"

section \<open>Submitting a chunk\<close>

definition begin_invoke ::
  "outside \<Rightarrow> ChunkPayload \<Rightarrow> string \<Rightarrow> string \<Rightarrow> VendorAttemptRow option worker" where
  "begin_invoke out chunk vendor_id reason =
     wcatch (wbind (transaction out (\<lambda>db.
                begin_vendor_invoke db (ck_chunk_id chunk) vendor_id vendor_id reason)) (\<lambda>started.
             wbind (wopen (ar_id started, ck_chunk_id chunk, vendor_id)) (\<lambda>_. wreturn (Some started))))
       (\<lambda>e. if is_runtime_error e then wreturn None else wraise e)"

text \<open>The claim of the chunk under a token; the token goes back unless the chunk was claimed.\<close>

definition claim_first ::
  "worker_config \<Rightarrow> outside \<Rightarrow> ChunkPayload \<Rightarrow> string \<Rightarrow> string \<Rightarrow> int
     \<Rightarrow> (SubmitOutcome + SubmissionClaimStatus) worker" where
  "claim_first cfg out chunk lane vendor_id lease_epoch =
     wfinally
       (wbind (preflight_before_invoke cfg out chunk vendor_id False) (\<lambda>preflight.
          case preflight of
            Some o' \<Rightarrow> wreturn (Inl o')
          | None \<Rightarrow> wbind (claim_after_token cfg out chunk lane (ck_retry_count chunk))
                      (\<lambda>s. wreturn (Inr s))))
       (\<lambda>r. if r = Some (Inr S_CLAIMED) then wreturn ()
            else refund_token cfg out lease_epoch vendor_id)"

definition call_claimed ::
  "outside \<Rightarrow> invoker \<Rightarrow> ChunkPayload \<Rightarrow> string \<Rightarrow> bool \<Rightarrow> string \<Rightarrow> string \<Rightarrow> int
     \<Rightarrow> SubmitOutcome + SubmissionClaimStatus \<Rightarrow> SubmitOutcome worker" where
  "call_claimed out invoke chunk lane allow_split vendor_id reason lease_epoch r =
     (if r = Inr S_CLAIMED
      then wbind (begin_invoke out chunk vendor_id reason) (\<lambda>started. case started of
             None \<Rightarrow> wreturn O_UNCERTAIN
           | Some row \<Rightarrow>
               invoke chunk lane vendor_id (ar_generation row) (ar_id row) allow_split
                 (ck_retry_count chunk) lease_epoch)
      else wreturn (case r of Inl o' \<Rightarrow> o' | Inr s \<Rightarrow> if s = S_DAILY_LIMIT then O_DELAYED else O_STALE))"

definition first_call ::
  "worker_config \<Rightarrow> outside \<Rightarrow> invoker \<Rightarrow> ChunkPayload \<Rightarrow> string \<Rightarrow> bool \<Rightarrow> string \<Rightarrow> string
     \<Rightarrow> SubmitOutcome worker" where
  "first_call cfg out invoke chunk lane allow_split vendor_id reason =
     wbind (preflight_before_invoke cfg out chunk vendor_id False) (\<lambda>preflight.
       case preflight of
         Some o' \<Rightarrow> wreturn o'
       | None \<Rightarrow>
           wbind (token cfg out lane vendor_id) (\<lambda>lease. case lease of
             None \<Rightarrow> wreturn O_PAUSED
           | Some lease_epoch \<Rightarrow>
               wbind (claim_first cfg out chunk lane vendor_id lease_epoch)
                 (call_claimed out invoke chunk lane allow_split vendor_id reason lease_epoch)))"

definition pending_report :: "ChunkPayload \<Rightarrow> FinalizeReport" where
  "pending_report chunk = (finalize_report K_APPLIED A_rejected)
     \<lparr>fr_next_action := Some N_failover_pending, fr_next_vendor := ck_next_vendor chunk,
      fr_route_generation := Some (ck_route_generation chunk),
      fr_previous_attempt_id := ck_failover_from_attempt_id chunk,
      fr_route_policy_version := Some (ck_route_policy_version chunk),
      fr_chunk_status := Some C_failover_pending\<rparr>"

definition route_request ::
  "worker_config \<Rightarrow> ChunkPayload \<Rightarrow> VendorAttempt list \<Rightarrow> VendorHealth list \<Rightarrow> RouteRequest" where
  "route_request cfg chunk attempts health =
     \<lparr>rq_registered = wk_router cfg, rq_attempts = attempts, rq_health = health,
      rq_category = ck_category chunk, rq_policy_version = ck_route_policy_version chunk\<rparr>"

text \<open>The loop of \<open>submit\<close> returns in its first round on every path.\<close>

definition submit_with ::
  "worker_config \<Rightarrow> outside \<Rightarrow> invoker \<Rightarrow> ChunkPayload \<Rightarrow> string \<Rightarrow> bool \<Rightarrow> SubmitOutcome worker" where
  "submit_with cfg out invoke chunk lane allow_split =
     wbind (set_market_defer None) (\<lambda>_.
     wbind (query out (\<lambda>db. Inr (list_vendor_attempts db (ck_chunk_id chunk)))) (\<lambda>attempts.
       if ck_status chunk = C_failover_pending
       then follow_failover cfg out invoke chunk lane allow_split (ck_retry_count chunk)
              (pending_report chunk)
       else wbind (is_paused out) (\<lambda>paused.
         if paused then wreturn O_PAUSED
         else wbind (health_snapshot cfg out paused) (\<lambda>health.
           wbind (wlift (router_decide (wk_router cfg) (route_request cfg chunk attempts health)))
             (\<lambda>d.
               if rd_action d = R_terminal_uncertain then wreturn O_UNCERTAIN
               else case (rd_action d, rd_vendor_id d) of
                 (R_invoke, Some vendor_id) \<Rightarrow>
                   if \<not> has_gateway cfg vendor_id
                   then wbind (command out (\<lambda>db. record_vendor_attempt db (ck_chunk_id chunk) vendor_id
                             (rd_generation d) A_cancelled_before_invoke False None))
                          (\<lambda>_. wreturn O_FAILED)
                   else first_call cfg out invoke chunk lane allow_split vendor_id (rd_reason d)
               | _ \<Rightarrow> wreturn (if rd_action d \<in> {R_hold, R_exhausted} then O_PAUSED else O_FAILED))))))"

primrec invoke_authorized :: "nat \<Rightarrow> worker_config \<Rightarrow> outside \<Rightarrow> invoker" where
  "invoke_authorized 0 cfg out =
     (\<lambda>chunk lane vendor_id generation attempt_id allow_split retry_index lease_epoch. wrunning)"
| "invoke_authorized (Suc n) cfg out =
     (\<lambda>chunk lane vendor_id generation attempt_id allow_split retry_index lease_epoch.
        invoke_body cfg out
          (\<lambda>code. handle_terminal_api_error cfg out
             (\<lambda>child. submit_with cfg out (invoke_authorized n cfg out) child lane False)
             (invoke_authorized n cfg out) chunk code lane generation attempt_id allow_split retry_index)
          chunk vendor_id generation attempt_id lease_epoch)"

definition submit ::
  "nat \<Rightarrow> worker_config \<Rightarrow> outside \<Rightarrow> ChunkPayload \<Rightarrow> string \<Rightarrow> bool \<Rightarrow> SubmitOutcome worker" where
  "submit n cfg out chunk lane allow_split =
     submit_with cfg out (invoke_authorized n cfg out) chunk lane allow_split"

section \<open>Tasks\<close>

definition heartbeat_lane :: "string \<Rightarrow> string" where
  "heartbeat_lane lane = (if lane = ''bulk'' then ''send-bulk'' else ''send-realtime'')"

definition send_queue_paused :: exn where
  "send_queue_paused = RuntimeError ''send queue is paused''"

definition task_result :: "int \<Rightarrow> SubmitOutcome \<Rightarrow> datetime option \<Rightarrow> ChunkTaskResult" where
  "task_result processed outcome next_at =
     \<lparr>ct_processed = processed, ct_outcome = Some outcome, ct_next_attempt_at = next_at\<rparr>"

text \<open>The worker of a task. With the live test the control state must be fresh.\<close>

definition worker_components ::
  "store_env \<Rightarrow> bool \<Rightarrow> int \<Rightarrow> int \<Rightarrow> (db \<Rightarrow> string \<Rightarrow> string \<Rightarrow> int \<Rightarrow> bool) \<Rightarrow> nat \<Rightarrow> worker_config" where
  "worker_components env vendor_live_test vendor_qps reserved du patience =
     \<lparr>wk_env = env, wk_gateways = [PRIMARY_VENDOR_ID], wk_router = [PRIMARY_VENDOR_ID],
      wk_registry = default_vendor_registry, wk_has_health = False, wk_recipient_guard = None,
      wk_control_guard = vendor_live_test, wk_enforce_live_test_budget = vendor_live_test,
      wk_enforce_live_test_recipients = vendor_live_test, wk_vendor_qps = vendor_qps,
      wk_reserved_realtime_qps = reserved, wk_has_window = True, wk_usage = du, wk_patience = patience\<rparr>"

definition require_control :: "worker_config \<Rightarrow> outside \<Rightarrow> unit worker" where
  "require_control cfg out =
     wbind (control_ready cfg out) (\<lambda>ready.
       if ready then wreturn () else wraise (RuntimeError ''live-test control state unavailable''))"

definition run_chunk ::
  "nat \<Rightarrow> worker_config \<Rightarrow> outside \<Rightarrow> int \<Rightarrow> bool \<Rightarrow> ChunkTaskResult worker" where
  "run_chunk n cfg out chunk_id fail_closed_on_pause =
     wbind (require_control cfg out) (\<lambda>_.
     wbind (query out (\<lambda>db. load_chunk (wk_env cfg) db chunk_id)) (\<lambda>loaded. case loaded of
       None \<Rightarrow> wreturn (task_result 0 O_NO_OP_ALREADY_TERMINAL None)
     | Some (chunk, lane) \<Rightarrow>
         wbind (tell out (Heartbeat (heartbeat_lane lane) False)) (\<lambda>_.
         wbind (is_paused out) (\<lambda>paused.
           if paused
           then (if fail_closed_on_pause then wraise send_queue_paused
                 else wreturn (task_result 0 O_PAUSED None))
           else wbind (submit n cfg out chunk lane True) (\<lambda>outcome.
             wbind (if outcome = O_SUBMITTED then tell out (Heartbeat (heartbeat_lane lane) True)
                    else wreturn ()) (\<lambda>_.
             wbind get_market_defer (\<lambda>defer_until.
               wreturn (task_result 1 outcome (if outcome = O_PAUSED then defer_until else None)))))))))"

definition outbox_deferred :: exn where
  "outbox_deferred = OtherError ''OutboxDeferred''"

definition process_chunk ::
  "nat \<Rightarrow> worker_config \<Rightarrow> outside \<Rightarrow> int \<Rightarrow> bool \<Rightarrow> ChunkTaskResult worker" where
  "process_chunk n cfg out chunk_id fail_closed_on_pause =
     wbind (run_chunk n cfg out chunk_id fail_closed_on_pause) (\<lambda>result.
       if fail_closed_on_pause \<and> ct_outcome result = Some O_PAUSED
       then wraise (if ct_next_attempt_at result = None then send_queue_paused else outbox_deferred)
       else wreturn result)"

end
