(* ===== verification/Worker_Safety.thy ===== *)
theory Worker_Safety
  imports Send_Worker
begin

text \<open>
  What a send worker does to the outside, whatever the other workers, the provider and every fault do
  between its interactions: it calls a provider only under an authorisation that is in the database at
  that moment, at most once for each authorisation, and under a token that it took and did not give
  back. The proof follows the program with one rule for each construct of the monad; \<open>idle\<close> and
  \<open>armed\<close> are the two states between interactions.
\<close>

section \<open>Invariant\<close>

text \<open>The row that authorises a call: still open, or closed by the recovery of stale calls.\<close>

definition open_row :: "db \<Rightarrow> authorised \<Rightarrow> bool" where
  "open_row db t \<longleftrightarrow> (\<exists>a\<in>set (db_attempts db). (a_id a, a_chunk_id a, a_vendor_id a) = t
     \<and> a_outcome a \<in> {A_invoking, A_uncertain, A_inconsistent})"

definition call_ok :: "provider_call \<Rightarrow> bool" where
  "call_ok h \<longleftrightarrow> send_inv (hc_db h) \<and> open_row (hc_db h) (hc_attempt_id h, hc_chunk_id h, hc_vendor_id h)"

definition attempt_ids :: "db \<Rightarrow> int set" where
  "attempt_ids db = a_id ` set (db_attempts db)"

definition call_ids :: "world \<Rightarrow> int list" where
  "call_ids w = map hc_attempt_id (w_calls w)"

definition safe_world :: "world \<Rightarrow> bool" where
  "safe_world w \<longleftrightarrow> send_inv (w_db w) \<and> list_all call_ok (w_calls w) \<and> distinct (call_ids w)
     \<and> set (call_ids w) \<subseteq> attempt_ids (w_db w) \<and> w_refunded w + length (w_calls w) \<le> w_granted w"

text \<open>A worker with no open authorisation and \<open>k\<close> unused tokens.\<close>

definition idle :: "nat \<Rightarrow> world \<Rightarrow> bool" where
  "idle k w \<longleftrightarrow> safe_world w \<and> w_open w = [] \<and> w_refunded w + length (w_calls w) + k \<le> w_granted w"

text \<open>A worker that may make one call.\<close>

definition armed :: "authorised \<Rightarrow> world \<Rightarrow> bool" where
  "armed t w \<longleftrightarrow> safe_world w \<and> w_open w = [t] \<and> w_refunded w + length (w_calls w) + 1 \<le> w_granted w
     \<and> open_row (w_db w) t \<and> fst t \<notin> set (call_ids w)"

inductive stage :: "(world \<Rightarrow> bool) \<Rightarrow> bool" where
  "stage (idle k)"
| "stage (armed t)"

text \<open>What others do. They run the transactions of the sending path, and they do not record a result of
  a call that this worker may still make; recovery may close its attempt.\<close>

definition unrecorded :: "authorised list \<Rightarrow> db \<Rightarrow> db \<Rightarrow> bool" where
  "unrecorded ts db db' \<longleftrightarrow> (\<forall>a\<in>set (db_attempts db). \<forall>a'\<in>set (db_attempts db').
     a_id a \<in> fst ` set ts \<and> a_id a' = a_id a
       \<longrightarrow> a_outcome a' = a_outcome a \<or> a_outcome a' \<in> {A_uncertain, A_inconsistent})"

definition others :: "outside \<Rightarrow> bool" where
  "others out \<longleftrightarrow> (\<forall>k ts db. send_inv db \<longrightarrow>
     send_step\<^sup>*\<^sup>* db (o_db out k ts db) \<and> unrecorded ts db (o_db out k ts db))"

lemma later_ids: "send_later db db' \<Longrightarrow> attempt_ids db \<subseteq> attempt_ids db'"
  unfolding send_later_def attempt_ids_def attempt_later_def by (force simp: image_iff)

lemma others_db:
  assumes "others out" "send_inv db"
  shows "send_inv (o_db out k ts db)" "send_later db (o_db out k ts db)"
  using assms sending.run_inv sending.run_rel unfolding others_def by blast+

lemma others_open_row:
  assumes "others out" "send_inv db" "t \<in> set ts" "open_row db t"
  shows "open_row (o_db out k ts db) t"
proof -
  let ?db = "o_db out k ts db"
  from assms(4) obtain a where a: "a \<in> set (db_attempts db)" "(a_id a, a_chunk_id a, a_vendor_id a) = t"
    "a_outcome a \<in> {A_invoking, A_uncertain, A_inconsistent}"
    unfolding open_row_def by blast
  from others_db(2) [OF assms(1,2)] a(1) obtain a' where
    a': "a' \<in> set (db_attempts ?db)" "attempt_later a a'"
    unfolding send_later_def by blast
  have "a_id a \<in> fst ` set ts" using a(2) assms(3) by force
  moreover have "unrecorded ts db ?db" using assms(1,2) unfolding others_def by blast
  ultimately have "a_outcome a' = a_outcome a \<or> a_outcome a' \<in> {A_uncertain, A_inconsistent}"
    using a(1) a' unfolding unrecorded_def attempt_later_def by blast
  then show ?thesis using a a' unfolding open_row_def attempt_later_def by force
qed

text \<open>Changes of the database and of what no invariant mentions.\<close>

lemma safe_world_db:
  assumes "safe_world w" "send_inv db" "send_later (w_db w) db"
  shows "safe_world (w\<lparr>w_db := db\<rparr>)"
  using assms later_ids [OF assms(3)] by (auto simp: safe_world_def call_ids_def)

lemma stage_safe: "stage I \<Longrightarrow> I w \<Longrightarrow> safe_world w"
  by (auto simp: idle_def armed_def elim!: stage.cases)

lemma stage_db:
  assumes "stage I" "I w" "send_inv db" "send_later (w_db w) db" "\<And>t. t \<in> set (w_open w) \<Longrightarrow>
    open_row (w_db w) t \<Longrightarrow> open_row db t"
  shows "I (w\<lparr>w_db := db\<rparr>)"
  using assms(1)
proof cases
  case (1 k)
  then show ?thesis using assms safe_world_db [of w db] by (simp add: idle_def)
next
  case (2 t)
  then show ?thesis using assms safe_world_db [of w db] by (simp add: armed_def call_ids_def)
qed

lemma safe_world_other [simp]:
  "safe_world (w\<lparr>w_tick := n\<rparr>) = safe_world w"
  "safe_world (w\<lparr>w_signals := s\<rparr>) = safe_world w"
  "safe_world (w\<lparr>w_market_defer_until := d\<rparr>) = safe_world w"
  "safe_world (w\<lparr>w_bucket := b\<rparr>) = safe_world w"
  "safe_world (w\<lparr>w_open := ts\<rparr>) = safe_world w"
  by (simp_all add: safe_world_def call_ids_def)

lemma stage_other:
  assumes "stage I"
  shows "I (w\<lparr>w_tick := n\<rparr>) = I w" "I (w\<lparr>w_signals := s\<rparr>) = I w"
    "I (w\<lparr>w_market_defer_until := d\<rparr>) = I w" "I (w\<lparr>w_bucket := b\<rparr>) = I w"
  using assms by (cases; simp add: idle_def armed_def call_ids_def)+

section \<open>Rules\<close>

text \<open>From \<open>I\<close>, a program that returns ends in \<open>Q\<close>, one that raises in \<open>E\<close>, and one that is out of fuel
  has made no wrong call.\<close>

definition ends ::
  "(world \<Rightarrow> bool) \<Rightarrow> 'a worker \<Rightarrow> ('a \<Rightarrow> world \<Rightarrow> bool) \<Rightarrow> (world \<Rightarrow> bool) \<Rightarrow> bool" where
  "ends I m Q E \<longleftrightarrow> (\<forall>w. I w \<longrightarrow>
     (case m w of (Returned x, w') \<Rightarrow> Q x w' | (Raised e, w') \<Rightarrow> E w' | (Running, w') \<Rightarrow> safe_world w'))"

definition keeps :: "(world \<Rightarrow> bool) \<Rightarrow> 'a worker \<Rightarrow> bool" where
  "keeps I m \<longleftrightarrow> ends I m (\<lambda>_. I) I"

lemma ends_return: "(\<And>w. I w \<Longrightarrow> Q x w) \<Longrightarrow> ends I (wreturn x) Q E"
  by (simp add: ends_def wreturn_def)

lemma ends_raise: "(\<And>w. I w \<Longrightarrow> E w) \<Longrightarrow> ends I (wraise e) Q E"
  by (simp add: ends_def wraise_def)

lemma ends_bind:
  assumes "ends I m R E" "\<And>x. ends (R x) (f x) Q E"
  shows "ends I (wbind m f) Q E"
  unfolding ends_def
proof (intro allI impI)
  fix w
  assume "I w"
  obtain r w' where r: "m w = (r, w')" by fastforce
  show "case wbind m f w of (Returned x, w') \<Rightarrow> Q x w' | (Raised e, w') \<Rightarrow> E w' | (Running, w') \<Rightarrow> safe_world w'"
  proof (cases r)
    case (Returned x)
    with \<open>I w\<close> r assms(1) have "R x w'" by (auto simp: ends_def split: prod.splits run.splits)
    with Returned r assms(2) [of x] show ?thesis by (simp add: wbind_def ends_def)
  qed (use \<open>I w\<close> r assms(1) in \<open>auto simp: ends_def wbind_def split: prod.splits run.splits\<close>)
qed

lemma ends_catch:
  assumes "ends I m Q E'" "\<And>e. ends E' (h e) Q E"
  shows "ends I (wcatch m h) Q E"
  unfolding ends_def
proof (intro allI impI)
  fix w
  assume "I w"
  obtain r w' where r: "m w = (r, w')" by fastforce
  show "case wcatch m h w of (Returned x, w') \<Rightarrow> Q x w' | (Raised e, w') \<Rightarrow> E w' | (Running, w') \<Rightarrow> safe_world w'"
  proof (cases r)
    case (Raised e)
    with \<open>I w\<close> r assms(1) have "E' w'" by (auto simp: ends_def split: prod.splits run.splits)
    with Raised r assms(2) [of e] show ?thesis by (simp add: wcatch_def ends_def)
  qed (use \<open>I w\<close> r assms(1) in \<open>auto simp: ends_def wcatch_def split: prod.splits run.splits\<close>)
qed

lemma ends_finally:
  assumes "ends I m R E'" "\<And>x. ends (R x) (f (Some x)) (\<lambda>_. Q x) E" "ends E' (f None) (\<lambda>_. E) E"
  shows "ends I (wfinally m f) Q E"
  unfolding ends_def
proof (intro allI impI)
  fix w
  assume "I w"
  obtain r w' where r: "m w = (r, w')" by fastforce
  have ret: "ends (R x) (wbind (f (Some x)) (\<lambda>_. wreturn x)) Q E" for x
    by (rule ends_bind [OF assms(2)]) (rule ends_return)
  have exc: "ends E' (wbind (f None) (\<lambda>_. wraise e)) Q E" for e
    by (rule ends_bind [OF assms(3)]) (rule ends_raise)
  show "case wfinally m f w of (Returned x, w') \<Rightarrow> Q x w' | (Raised e, w') \<Rightarrow> E w' | (Running, w') \<Rightarrow> safe_world w'"
  proof (cases r)
    case (Returned x)
    with \<open>I w\<close> r assms(1) have "R x w'" by (auto simp: ends_def split: prod.splits run.splits)
    with Returned r ret [of x] show ?thesis by (simp add: wfinally_def ends_def)
  next
    case (Raised e)
    with \<open>I w\<close> r assms(1) have "E' w'" by (auto simp: ends_def split: prod.splits run.splits)
    with Raised r exc [of e] show ?thesis by (simp add: wfinally_def ends_def)
  next
    case Running
    with \<open>I w\<close> r assms(1) show ?thesis by (auto simp: wfinally_def ends_def split: prod.splits run.splits)
  qed
qed

lemma ends_weaken:
  assumes "ends I m Q E" "\<And>w. I' w \<Longrightarrow> I w" "\<And>x w. Q x w \<Longrightarrow> Q' x w" "\<And>w. E w \<Longrightarrow> E' w"
  shows "ends I' m Q' E'"
  unfolding ends_def
proof (intro allI impI)
  fix w
  assume "I' w"
  then have "I w" by (rule assms(2))
  with assms(1) have "case m w of (Returned x, w') \<Rightarrow> Q x w' | (Raised e, w') \<Rightarrow> E w'
    | (Running, w') \<Rightarrow> safe_world w'"
    unfolding ends_def by (elim allE impE)
  then show "case m w of (Returned x, w') \<Rightarrow> Q' x w' | (Raised e, w') \<Rightarrow> E' w'
    | (Running, w') \<Rightarrow> safe_world w'"
    by (cases "m w"; cases "fst (m w)") (auto intro: assms(3,4))
qed

named_theorems kept \<open>programs that keep a stage\<close>

lemma keeps_return [kept]: "keeps I (wreturn x)"
  unfolding keeps_def by (rule ends_return)

lemma keeps_raise [kept]: "keeps I (wraise e)"
  unfolding keeps_def by (rule ends_raise)

lemma keeps_bind [kept]: "keeps I m \<Longrightarrow> (\<And>x. keeps I (f x)) \<Longrightarrow> keeps I (wbind m f)"
  unfolding keeps_def by (rule ends_bind)

lemma keeps_catch [kept]: "keeps I m \<Longrightarrow> (\<And>e. keeps I (h e)) \<Longrightarrow> keeps I (wcatch m h)"
  unfolding keeps_def by (rule ends_catch)

lemma keeps_finally [kept]: "keeps I m \<Longrightarrow> (\<And>x. keeps I (f x)) \<Longrightarrow> keeps I (wfinally m f)"
  unfolding keeps_def by (rule ends_finally)

lemma keeps_lift [kept]: "keeps I (wlift r)"
  by (cases r) (simp_all add: wlift_def kept)

lemma keeps_for [kept]: "(\<And>x. keeps I (f x)) \<Longrightarrow> keeps I (wfor f xs)"
  by (induction xs) (simp_all add: kept)

lemma keeps_running [kept]: "stage I \<Longrightarrow> keeps I wrunning"
  using stage_safe by (auto simp: keeps_def ends_def wrunning_def)

lemma keeps_if [kept]: "keeps I m \<Longrightarrow> keeps I m' \<Longrightarrow> keeps I (if b then m else m')"
  by simp

lemma keeps_option [kept]:
  "keeps I m \<Longrightarrow> (\<And>x. keeps I (f x)) \<Longrightarrow> keeps I (case z of None \<Rightarrow> m | Some x \<Rightarrow> f x)"
  by (cases z) simp_all

lemma keeps_pair [kept]: "(\<And>x y. keeps I (f x y)) \<Longrightarrow> keeps I (case z of (x, y) \<Rightarrow> f x y)"
  by (cases z) simp

section \<open>Interactions\<close>

lemma keeps_ask [kept]: "stage I \<Longrightarrow> keeps I (ask out f)"
  by (auto simp: keeps_def ends_def ask_def Let_def stage_other split: fault.splits)

lemma keeps_tell [kept]: "stage I \<Longrightarrow> keeps I (tell out s)"
  by (auto simp: keeps_def ends_def tell_def Let_def stage_other split: fault.splits)

lemma keeps_market_defer [kept]: "stage I \<Longrightarrow> keeps I (set_market_defer t)" "keeps I get_market_defer"
  by (auto simp: keeps_def ends_def set_market_defer_def get_market_defer_def stage_other)

lemma others_stage:
  assumes "others out" "stage I" "I w"
  shows "I (w\<lparr>w_tick := n, w_db := o_db out k (w_open w) (w_db w)\<rparr>)"
proof -
  have "send_inv (w_db w)" using stage_safe [OF assms(2,3)] by (simp add: safe_world_def)
  note s = others_db [OF assms(1) this] others_open_row [OF assms(1) this]
  have "I (w\<lparr>w_tick := n\<rparr>)" using assms(3) by (simp add: stage_other(1) [OF assms(2)])
  then show ?thesis by (rule stage_db [OF assms(2)]) (simp_all add: s)
qed

text \<open>A transaction, by what its commit does to the stage.\<close>

lemma ends_transaction:
  assumes "others out" "stage I"
    and "\<And>w db x. I w \<Longrightarrow> f (w_db w) = Inr (db, x) \<Longrightarrow> Q x (w\<lparr>w_db := db\<rparr>) \<and> I' (w\<lparr>w_db := db\<rparr>)"
    and "\<And>w. I w \<Longrightarrow> I' w"
  shows "ends I (transaction out f) Q I'"
  unfolding ends_def
proof (intro allI impI)
  fix w
  assume "I w"
  define w1 where "w1 = w\<lparr>w_tick := Suc (w_tick w), w_db := o_db out (w_tick w) (w_open w) (w_db w)\<rparr>"
  have w1: "I w1" unfolding w1_def by (rule others_stage [OF assms(1,2) \<open>I w\<close>])
  have t: "transaction out f w =
    (case o_fault out (w_tick w) of Fault_before e \<Rightarrow> (Raised e, w1)
     | flt \<Rightarrow> (case f (w_db w1) of Inl e \<Rightarrow> (Raised e, w1)
        | Inr (db, x) \<Rightarrow> (case flt of Fault_after e \<Rightarrow> (Raised e, w1\<lparr>w_db := db\<rparr>)
             | _ \<Rightarrow> (Returned x, w1\<lparr>w_db := db\<rparr>))))"
    unfolding w1_def by (cases "o_fault out (w_tick w)") (simp_all add: transaction_def Let_def)
  show "case transaction out f w of (Returned x, w') \<Rightarrow> Q x w' | (Raised e, w') \<Rightarrow> I' w'
      | (Running, w') \<Rightarrow> safe_world w'"
    using w1 assms(3) [OF w1] assms(4) [OF w1]
    by (cases "o_fault out (w_tick w)"; cases "f (w_db w1)") (auto simp: t split: prod.splits)
qed

lemma step_stage:
  assumes "idle k w" "send_step (w_db w) db"
  shows "idle k (w\<lparr>w_db := db\<rparr>)"
proof -
  have "send_inv (w_db w)" using assms(1) by (simp add: idle_def safe_world_def)
  then have "send_inv db" "send_later (w_db w) db"
    using assms(2) sending.step_inv sending.step_rel by blast+
  then show ?thesis using stage_db [OF stage.intros(1) assms(1)] assms(1) by (simp add: idle_def)
qed

lemma keeps_transaction:
  assumes "others out" "\<And>db db' x. f db = Inr (db', x) \<Longrightarrow> send_step db db'"
  shows "keeps (idle k) (transaction out f)"
  unfolding keeps_def
  by (rule ends_transaction [OF assms(1) stage.intros(1)]) (auto intro: step_stage assms(2))

lemma keeps_frame:
  assumes "others out" "stage I" "\<And>db db' x. f db = Inr (db', x) \<Longrightarrow> same_view db db'"
  shows "keeps I (transaction out f)"
  unfolding keeps_def
proof (rule ends_transaction [OF assms(1,2)])
  fix w db x
  assume I: "I w" and "f (w_db w) = Inr (db, x)"
  from assms(3) [OF this(2)] have v: "same_view (w_db w) db" .
  then have "send_step (w_db w) db" by (rule send_step.outside)
  moreover have "send_inv (w_db w)" using stage_safe [OF assms(2) I] by (simp add: safe_world_def)
  ultimately have "send_inv db" "send_later (w_db w) db"
    using sending.step_inv sending.step_rel by blast+
  moreover have "open_row db t = open_row (w_db w) t" for t
    using v by (simp add: open_row_def same_view_def)
  ultimately have "I (w\<lparr>w_db := db\<rparr>)" by (intro stage_db [OF assms(2) I]) simp_all
  then show "I (w\<lparr>w_db := db\<rparr>) \<and> I (w\<lparr>w_db := db\<rparr>)" by (intro conjI)
qed simp

lemma keeps_query [kept]: "others out \<Longrightarrow> stage I \<Longrightarrow> keeps I (query out f)"
  unfolding query_def by (rule keeps_frame) (auto simp: rbind_Inr_iff same_view_def)

lemma keeps_command:
  assumes "others out" "\<And>db db'. f db = Inr db' \<Longrightarrow> send_step db db'"
  shows "keeps (idle k) (command out f)"
  unfolding command_def
  by (rule keeps_transaction [OF assms(1)]) (auto simp: rbind_Inr_iff intro: assms(2))

text \<open>Tokens.\<close>

lemma ends_acquire:
  "ends (idle 0) (bucket_acquire out lane qps res v)
     (\<lambda>r. case r of None \<Rightarrow> idle 0 | Some _ \<Rightarrow> idle 1) (idle 0)"
  by (auto simp: ends_def bucket_acquire_def Let_def idle_def safe_world_def call_ids_def
      split: fault.splits prod.splits sum.splits option.splits)

lemma ends_refund: "ends (idle 1) (bucket_refund out qps l v) (\<lambda>_. idle 0) (idle 0)"
  by (auto simp: ends_def bucket_refund_def Let_def idle_def safe_world_def call_ids_def
      split: fault.splits prod.splits sum.splits)

text \<open>Authorisations.\<close>

lemma ends_close: "ends (armed t) (wclose (fst t)) (\<lambda>_. idle 1) E"
  by (auto simp: ends_def wclose_def armed_def idle_def)

lemma keeps_close [kept]: "keeps (idle k) (wclose i)"
  by (auto simp: keeps_def ends_def wclose_def idle_def)

lemma ends_send:
  assumes "others out"
  shows "ends (armed (i, c, v)) (gateway_send out i c v phones) (\<lambda>_. idle 0) E"
  unfolding ends_def
proof (intro allI impI)
  fix w
  assume a: "armed (i, c, v) w"
  let ?db = "o_db out (w_tick w) (w_open w) (w_db w)"
  have "armed (i, c, v) (w\<lparr>w_tick := w_tick w, w_db := ?db\<rparr>)"
    by (rule others_stage [OF assms stage.intros(2) a])
  then have w: "safe_world (w\<lparr>w_db := ?db\<rparr>)" "open_row ?db (i, c, v)" and "w_open w = [(i, c, v)]"
    and r: "w_refunded w + length (w_calls w) + 1 \<le> w_granted w" "i \<notin> set (call_ids w)"
    by (auto simp: armed_def call_ids_def)
  moreover have "i \<in> attempt_ids ?db" using w(2) by (force simp: open_row_def attempt_ids_def)
  ultimately show "case gateway_send out i c v phones w of (Returned x, w') \<Rightarrow> idle 0 w' | (Raised e, w') \<Rightarrow> E w'
      | (Running, w') \<Rightarrow> safe_world w'"
    by (auto simp: gateway_send_def Let_def idle_def safe_world_def call_ids_def call_ok_def)
qed

section \<open>Parts of the worker\<close>

lemma idle_less: "idle (Suc 0) w \<Longrightarrow> idle 0 w"
  by (simp add: idle_def)

declare stage.intros [kept]

lemma split_once_step: "split_once env db chunk = Inr (db', cs) \<Longrightarrow> send_step db db'"
  by (auto simp: split_once_def rbind_Inr_iff same_view_def intro: send_step.split send_step.outside
      split: if_splits)

lemma keeps_commands [kept]:
  assumes "others out"
  shows "keeps (idle k) (command out (\<lambda>db. mark_uncertain db c))"
    "keeps (idle k) (command out (\<lambda>db. mark_submitted env db c t))"
    "keeps (idle k) (command out (\<lambda>db. mark_failed db c code msg))"
    "keeps (idle k) (command out (\<lambda>db. reject_disallowed_recipient db c n))"
    "keeps (idle k) (command out (\<lambda>db. balance_blocked_chunk db b c))"
    "keeps (idle k) (command out (\<lambda>db. pause_blocked db c code))"
    "keeps (idle k) (command out (\<lambda>db. record_vendor_attempt db c v g A_cancelled_before_invoke sf vcode))"
  by (rule keeps_command [OF assms], rule send_step.intros, assumption)+

lemma keeps_transactions [kept]:
  assumes "others out"
  shows "keeps (idle k) (transaction out (\<lambda>db. claim_submission env db c n seg enf))"
    "keeps (idle k) (transaction out (\<lambda>db. defer_daily_limit env db c lane at))"
    "keeps (idle k) (transaction out (\<lambda>db. schedule_retry db c code n d))"
    "keeps (idle k) (transaction out (\<lambda>db. delay_chunk db c code d))"
    "keeps (idle k) (transaction out (\<lambda>db. complete_vendor_attempt db i oc sf vcode))"
    "keeps (idle k) (transaction out (\<lambda>db. split_once env db chunk))"
  by (rule keeps_transaction [OF assms], rule send_step.intros split_once_step, assumption)+

lemma keeps_finalize [kept]:
  "others out \<Longrightarrow> keeps (idle k) (transaction out (\<lambda>db. finalize_vendor_attempt dl env db i c g a))"
  by (rule keeps_transaction) (auto intro: send_step.finalize)

lemma keeps_decide [kept]:
  "others out \<Longrightarrow> stage I \<Longrightarrow> keeps I (transaction out (\<lambda>db. decide_dispatch du db chunk))"
  by (rule keeps_frame) (auto simp: dispatch_keeps_def dest: decide_dispatch_frame)

lemma keeps_dropping [kept]: "keeps I m \<Longrightarrow> keeps I (dropping_errors m)"
  unfolding dropping_errors_def by (intro kept)

lemma keeps_reports [kept]:
  assumes "stage I"
  shows "keeps I (record_failure out code)" "keeps I (record_success out)" "keeps I (is_paused out)"
    "keeps I (health_snapshot cfg out p)" "keeps I (control_ready cfg out)" "keeps I (market_ready cfg out chunk)"
    "keeps I (publish_retry out m)"
  unfolding record_failure_def record_success_def is_paused_def health_snapshot_def control_ready_def
    market_ready_def publish_retry_def enqueue_retry_def
  by (intro kept assms)+

lemma keeps_guard_chunk [kept]:
  assumes "others out"
  shows "keeps (idle k) (guard_chunk cfg out chunk p)" "stage I \<Longrightarrow> keeps I (guard_chunk cfg out chunk False)"
  unfolding guard_chunk_def reject_recipients_def by (simp_all add: kept assms)

lemma keeps_preflight [kept]:
  assumes "others out"
  shows "keeps (idle k) (preflight_before_invoke cfg out chunk v au)"
    "stage I \<Longrightarrow> keeps I (preflight_before_invoke cfg out chunk v True)"
  unfolding preflight_before_invoke_def by (simp_all add: kept assms)

lemma keeps_phones_loop: "others out \<Longrightarrow> stage I \<Longrightarrow> keeps I (phones_loop n cfg out chunk l)"
  by (induction n arbitrary: l) (simp_all add: kept)

lemma keeps_phones [kept]: "others out \<Longrightarrow> stage I \<Longrightarrow> keeps I (phones_for_invoke cfg out chunk)"
  unfolding phones_for_invoke_def by (rule keeps_phones_loop)

lemma keeps_wait [kept]: "others out \<Longrightarrow> keeps (idle k) (wait_for_next_day cfg out c lane t)"
  unfolding wait_for_next_day_def by (intro kept)

lemma keeps_claim_after_token [kept]:
  "others out \<Longrightarrow> keeps (idle k) (claim_after_token cfg out chunk lane n)"
  unfolding claim_after_token_def by (intro kept)

lemma keeps_tick: "(\<And>n. keeps I (m n)) \<Longrightarrow> keeps I (\<lambda>w. m (w_tick w) w)"
  by (simp add: keeps_def ends_def)

lemma keeps_store_finalize [kept]:
  "others out \<Longrightarrow> keeps (idle k) (store_finalize cfg out chunk g i a)"
  unfolding store_finalize_def by (rule keeps_tick) (intro kept)

lemma keeps_finalize_invoke [kept]:
  "others out \<Longrightarrow> keeps (idle k) (finalize_invoke cfg out chunk g i a)"
  unfolding finalize_invoke_def by (intro kept)

lemma keeps_results [kept]:
  assumes "others out"
  shows "keeps (idle k) (persist_attempt out i oc sf code)"
    "keeps (idle k) (record_uncertain cfg out chunk g i)"
    "keeps (idle k) (record_submitted cfg out chunk g i t)"
    "keeps (idle k) (apply_terminal_api_error out chunk vcode p)"
    "keeps (idle k) (retry_later cfg out chunk g i vcode n d)"
    "keeps (idle k) (delay_later cfg out chunk g i vcode d)"
  unfolding persist_attempt_def record_uncertain_def record_submitted_def apply_terminal_api_error_def
    retry_later_def delay_later_def Let_def
  by (intro kept assms)+

section \<open>Tokens and authorisations\<close>

lemmas keepsD = keeps_def [THEN iffD1]

lemma ends_token_loop:
  "ends (idle 0) (token_loop n cfg out lane v) (\<lambda>r. case r of None \<Rightarrow> idle 0 | Some _ \<Rightarrow> idle 1) (idle 0)"
proof (induction n)
  case 0
  show ?case by (simp add: ends_def wrunning_def idle_def)
next
  case (Suc n)
  have wait: "keeps (idle 0) (is_paused out)" "keeps (idle 0) (ask out (\<lambda>_. ()))" by (intro kept)+
  show ?case unfolding token_loop.simps
  proof (rule ends_bind [OF ends_acquire])
    fix lease :: "int option"
    show "ends (case lease of None \<Rightarrow> idle 0 | Some _ \<Rightarrow> idle 1)
        (case lease of Some e \<Rightarrow> wreturn (Some e)
         | None \<Rightarrow> wbind (is_paused out) (\<lambda>paused. if paused then wreturn None
             else wbind (ask out (\<lambda>_. ())) (\<lambda>_. token_loop n cfg out lane v)))
        (\<lambda>r. case r of None \<Rightarrow> idle 0 | Some _ \<Rightarrow> idle 1) (idle 0)"
    proof (cases lease)
      case None
      have "ends (idle 0) (if paused then wreturn None
          else wbind (ask out (\<lambda>_. ())) (\<lambda>_. token_loop n cfg out lane v))
        (\<lambda>r. case r of None \<Rightarrow> idle 0 | Some _ \<Rightarrow> idle 1) (idle 0)" for paused
        using ends_bind [OF keepsD [OF wait(2)] Suc.IH] by (cases paused) (simp_all add: ends_return)
      then show ?thesis unfolding None option.case by (rule ends_bind [OF keepsD [OF wait(1)]])
    qed (simp add: ends_return)
  qed
qed

lemma ends_token:
  "ends (idle 0) (token cfg out lane v) (\<lambda>r. case r of None \<Rightarrow> idle 0 | Some _ \<Rightarrow> idle 1) (idle 0)"
  unfolding token_def by (rule ends_token_loop)

lemma ends_refund_token: "ends (idle 1) (refund_token cfg out l v) (\<lambda>_. idle 0) (idle 0)"
  unfolding refund_token_def dropping_errors_def
  by (rule ends_catch [OF ends_refund]) (auto simp: ends_return ends_raise)

lemma ends_finalize_armed:
  assumes "others out"
  shows "ends (armed t) (finalize_invoke cfg out chunk g (fst t) a) (\<lambda>_. idle 1) (idle 1)"
  unfolding finalize_invoke_def
  by (rule ends_bind [OF ends_close], rule keepsD, intro kept assms)

lemma ends_abort:
  assumes "others out"
  shows "ends (armed t) (abort_before_http cfg out chunk v g (fst t) l oc) (\<lambda>_. idle 0) (idle 0)"
  unfolding abort_before_http_def
  by (rule ends_finally [OF ends_bind [OF ends_finalize_armed [OF assms]]])
     (rule keepsD, intro kept, rule ends_refund_token, rule ends_refund_token)

lemma ends_cleanup:
  assumes "others out"
  shows "ends (armed t) (cleanup_before_http cfg out chunk v g (fst t) l) (\<lambda>_. idle 0) (idle 0)"
  unfolding cleanup_before_http_def
  by (rule ends_catch [OF ends_bind [OF ends_abort [OF assms]]]) (rule ends_return, assumption)+

text \<open>A new attempt has a number that no call has used.\<close>

lemma armed_insert:
  assumes "idle 1 w" "send_step (w_db w) db" "row \<in> set (db_attempts db)" "a_id row \<notin> attempt_ids (w_db w)"
    and "a_outcome row = A_invoking"
  shows "armed (a_id row, a_chunk_id row, a_vendor_id row)
    (w\<lparr>w_db := db, w_open := [(a_id row, a_chunk_id row, a_vendor_id row)]\<rparr>)"
proof -
  have "idle 1 (w\<lparr>w_db := db\<rparr>)" by (rule step_stage [OF assms(1,2)])
  moreover have "open_row db (a_id row, a_chunk_id row, a_vendor_id row)"
    using assms(3,5) by (auto simp: open_row_def)
  moreover have "a_id row \<notin> set (call_ids w)"
    using assms(1,4) by (auto simp: idle_def safe_world_def)
  ultimately show ?thesis by (simp add: armed_def idle_def call_ids_def)
qed

lemma insert_attempt_result:
  assumes "insert_attempt db c v g oc ad re sf code st = Inr (db', row)"
  shows "db_attempts db' = db_attempts db @ [row]" "a_chunk_id row = c" "a_vendor_id row = v"
    "a_outcome row = oc" "a_id row \<notin> attempt_ids db"
proof -
  have "a_id row = serial (map a_id (db_attempts db))" and
    "db_attempts db' = db_attempts db @ [row]" "a_chunk_id row = c" "a_vendor_id row = v" "a_outcome row = oc"
    using assms by (auto simp: insert_attempt_def Let_def write_attempts_def rbind_Inr_iff split: if_splits)
  moreover have "serial (map a_id (db_attempts db)) \<notin> set (map a_id (db_attempts db))" by (rule serial_fresh)
  ultimately show "db_attempts db' = db_attempts db @ [row]" "a_chunk_id row = c" "a_vendor_id row = v"
    "a_outcome row = oc" "a_id row \<notin> attempt_ids db" by (simp_all add: attempt_ids_def)
qed

lemma begin_vendor_invoke_result:
  assumes "begin_vendor_invoke db c v ad re = Inr (db', row)"
  shows "\<exists>r\<in>set (db_attempts db'). (a_id r, a_chunk_id r, a_vendor_id r) = (ar_id row, c, v)
    \<and> a_outcome r = A_invoking \<and> a_id r \<notin> attempt_ids db"
proof -
  obtain g re' db1 r where i: "insert_attempt db c v g A_invoking ad re' False None (Some (db_now db)) = Inr (db1, r)"
    and d: "db' = set_route db1 c v g" "row = attempt_row r"
    using assms by (auto simp: begin_vendor_invoke_def Let_def rbind_Inr_iff split: option.splits if_splits)
  note k = insert_attempt_result [OF i]
  have "db_attempts db' = db_attempts db1" by (simp add: d set_route_def set_chunks_def)
  with k d(2) show ?thesis by (auto simp: attempt_row_def)
qed

lemma claim_next_result:
  assumes "claim_next_vendor_invoke env db i a = Inr (db', cl)" "ic_kind cl = IC_authorized"
  shows "\<exists>auth. ic_authorization cl = Some auth \<and> (\<exists>r\<in>set (db_attempts db').
    (a_id r, a_chunk_id r, a_vendor_id r) = (ia_attempt_id auth, i, ia_vendor_id auth)
    \<and> a_outcome r = A_invoking \<and> a_id r \<notin> attempt_ids db)"
proof -
  obtain x v where x: "lock_send_context db i = Some x" and n: "claim_next_on env db x a v = Inr (db', cl)"
    using assms unfolding claim_next_vendor_invoke_def claim_transaction_def
    by (auto simp: rbind_Inr_iff claim_denied_def split: sum.splits option.splits if_splits)
  obtain db1 stop where b: "claim_budget env db (lc_chunk x) a = Inr (db1, stop)"
    and s: "(case stop of Some claim \<Rightarrow> Inr (db1, claim)
      | None \<Rightarrow> authorize_next db1 (lc_chunk x) a v) = Inr (db', cl)"
    using n assms(2) unfolding claim_next_on_def Let_def
    by (auto simp: rbind_Inr_iff claim_denied_def claim_with_def split: option.splits if_splits)
  have "stop = None"
    using b s assms(2) by (auto simp: claim_budget_def rbind_Inr_iff claim_denied_def split: if_splits option.splits)
  with s have au: "authorize_next db1 (lc_chunk x) a v = Inr (db', cl)" by simp
  then obtain db2 r where ins: "insert_attempt db1 (c_id (lc_chunk x)) v (cl_expected_route_generation a + 1) A_invoking v (Some ''safe_failover'')
      False None (Some (db_now db1)) = Inr (db2, r)"
    and att: "db_attempts db' = db_attempts db2" and cl: "cl = claim_with IC_authorized r (cl_expected_route_policy_version a) ''authorized''"
    unfolding authorize_next_def Let_def
    by (auto simp: rbind_Inr_iff update_chunk_def set_chunks_def split: option.splits if_splits)
  have "attempt_ids db1 = attempt_ids db" using claim_budget_safe [OF b] by (simp add: attempt_ids_def)
  moreover have "c_id (lc_chunk x) = i" using lock_send_context_SomeD [OF x] by simp
  ultimately show ?thesis
    using insert_attempt_result [OF ins] att cl by (auto simp: claim_with_def)
qed

text \<open>A committed authorisation, before its call is counted as open.\<close>

definition ready :: "authorised \<Rightarrow> world \<Rightarrow> bool" where
  "ready t w \<longleftrightarrow> w_open w = [] \<and> armed t (w\<lparr>w_open := [t]\<rparr>)"

lemma ends_open: "ends (ready t) (wopen t) (\<lambda>_. armed t) E"
  by (auto simp: ends_def wopen_def ready_def)

lemma ready_insert:
  assumes "idle 1 w" "send_step (w_db w) db" "\<exists>r\<in>set (db_attempts db).
    (a_id r, a_chunk_id r, a_vendor_id r) = t \<and> a_outcome r = A_invoking \<and> a_id r \<notin> attempt_ids (w_db w)"
  shows "ready t (w\<lparr>w_db := db\<rparr>)"
  using assms armed_insert [OF assms(1,2)] by (auto simp: ready_def idle_def)

lemma ends_begin:
  assumes "others out"
  shows "ends (idle 1) (begin_invoke out chunk v re)
    (\<lambda>r. case r of None \<Rightarrow> idle 1 | Some row \<Rightarrow> armed (ar_id row, ck_chunk_id chunk, v)) (idle 1)"
  unfolding begin_invoke_def
proof (rule ends_catch)
  show "ends (idle 1) (wbind (transaction out (\<lambda>db. begin_vendor_invoke db (ck_chunk_id chunk) v v re))
      (\<lambda>started. wbind (wopen (ar_id started, ck_chunk_id chunk, v)) (\<lambda>_. wreturn (Some started))))
    (\<lambda>r. case r of None \<Rightarrow> idle 1 | Some row \<Rightarrow> armed (ar_id row, ck_chunk_id chunk, v)) (idle 1)"
  proof (rule ends_bind [OF ends_transaction [OF assms stage.intros(1)]])
    fix w db row
    assume "idle 1 w" "begin_vendor_invoke (w_db w) (ck_chunk_id chunk) v v re = Inr (db, row)"
    then show "ready (ar_id row, ck_chunk_id chunk, v) (w\<lparr>w_db := db\<rparr>) \<and> idle 1 (w\<lparr>w_db := db\<rparr>)"
      by (intro conjI ready_insert step_stage begin_vendor_invoke_result send_step.begin_invoke)
  next
    fix row :: VendorAttemptRow
    show "ends (ready (ar_id row, ck_chunk_id chunk, v))
        (wbind (wopen (ar_id row, ck_chunk_id chunk, v)) (\<lambda>_. wreturn (Some row)))
        (\<lambda>r. case r of None \<Rightarrow> idle 1 | Some row \<Rightarrow> armed (ar_id row, ck_chunk_id chunk, v)) (idle 1)"
      by (rule ends_bind [OF ends_open]) (simp add: ends_return)
  qed
qed (auto simp: ends_return ends_raise)

definition claimed :: "ChunkPayload \<Rightarrow> nat \<Rightarrow> InvokeClaim \<Rightarrow> world \<Rightarrow> bool" where
  "claimed chunk k claim = (case (is_authorized claim, ic_authorization claim) of
     (True, Some auth) \<Rightarrow> armed (ia_attempt_id auth, ck_chunk_id chunk, ia_vendor_id auth)
   | _ \<Rightarrow> idle k)"

lemma claimed_denied [simp]: "claimed chunk k (claim_denied r) = idle k" "\<not> is_authorized (claim_denied r)"
  by (simp_all add: claimed_def is_authorized_def claim_denied_def)

lemma claimed_not [simp]: "\<not> is_authorized claim \<Longrightarrow> claimed chunk k claim = idle k"
  by (simp add: claimed_def)

lemma ends_claim_next:
  assumes "others out"
  shows "ends (idle 1) (store_claim_next cfg out chunk report v prev)
    (\<lambda>cl w. claimed chunk 1 cl w \<and> (is_authorized cl \<longrightarrow> ic_authorization cl \<noteq> None)) (idle 1)"
  unfolding store_claim_next_def
proof (rule ends_bind [OF keepsD [OF keeps_lift]])
  fix seg
  let ?t = "\<lambda>auth. (ia_attempt_id auth, ck_chunk_id chunk, ia_vendor_id auth)"
  let ?R = "\<lambda>cl w. idle 1 w \<and> (is_authorized cl \<longrightarrow> (\<exists>auth. ic_authorization cl = Some auth \<and> ready (?t auth) w))"
  let ?f = "\<lambda>db. claim_next_vendor_invoke (wk_env cfg) db (ck_chunk_id chunk) (claim_args_of cfg chunk report v prev seg)"
  let ?Q = "\<lambda>cl w. claimed chunk 1 cl w \<and> (is_authorized cl \<longrightarrow> ic_authorization cl \<noteq> None)"
  show "ends (idle 1) (wbind (transaction out ?f) (\<lambda>claim. case (ic_kind claim, ic_authorization claim) of
             (IC_authorized, Some auth) \<Rightarrow> wbind (wopen (?t auth)) (\<lambda>_. wreturn claim)
           | _ \<Rightarrow> wreturn claim)) ?Q (idle 1)"
  proof (rule ends_bind [OF ends_transaction [OF assms stage.intros(1)]])
    fix w db cl
    assume i: "idle 1 w" and c: "?f (w_db w) = Inr (db, cl)"
    have s: "send_step (w_db w) db" by (rule send_step.claim_next [OF c])
    have "\<exists>auth. ic_authorization cl = Some auth \<and> ready (?t auth) (w\<lparr>w_db := db\<rparr>)" if "is_authorized cl"
      using claim_next_result [OF c] that ready_insert [OF i s] unfolding is_authorized_def by blast
    then show "?R cl (w\<lparr>w_db := db\<rparr>) \<and> idle 1 (w\<lparr>w_db := db\<rparr>)" using step_stage [OF i s] by simp
  next
    fix cl
    show "ends (?R cl) (case (ic_kind cl, ic_authorization cl) of
             (IC_authorized, Some auth) \<Rightarrow> wbind (wopen (?t auth)) (\<lambda>_. wreturn cl)
           | _ \<Rightarrow> wreturn cl) ?Q (idle 1)"
    proof (cases "is_authorized cl \<and> ic_authorization cl \<noteq> None")
      case True
      then obtain auth where a: "ic_kind cl = IC_authorized" "ic_authorization cl = Some auth"
        by (auto simp: is_authorized_def)
      have "ends (ready (?t auth)) (wbind (wopen (?t auth)) (\<lambda>_. wreturn cl)) ?Q (idle 1)"
        by (rule ends_bind [OF ends_open]) (simp add: ends_return claimed_def a is_authorized_def)
      then show ?thesis unfolding a prod.case InvokeClaimKind.case option.case
        by (rule ends_weaken) (auto simp: a is_authorized_def)
    next
      case False
      then have "ends (?R cl) (wreturn cl) ?Q (idle 1)" by (intro ends_return) (auto simp: claimed_def)
      with False show ?thesis by (auto simp: is_authorized_def split: InvokeClaimKind.splits option.splits)
    qed
  qed simp
qed

text \<open>The result of a claim, with the lease of its token.\<close>

definition leased :: "ChunkPayload \<Rightarrow> InvokeClaim \<times> int option \<Rightarrow> world \<Rightarrow> bool" where
  "leased chunk r w \<longleftrightarrow> claimed chunk 0 (fst r) w
     \<and> (is_authorized (fst r) \<longrightarrow> ic_authorization (fst r) \<noteq> None \<and> snd r \<noteq> None)"

lemma ends_claim_under_token:
  assumes "others out"
  shows "ends (idle 1) (claim_under_token cfg out chunk report v prev l) (\<lambda>cl. leased chunk (cl, Some l)) (idle 0)"
  unfolding claim_under_token_def
proof (rule ends_finally [OF ends_bind [OF keepsD [OF keeps_preflight(1) [OF assms]]]])
  fix p
  show "ends (idle 1) (case p of Some o' \<Rightarrow> wreturn (claim_denied (''preflight_'' @ outcome_text o'))
       | None \<Rightarrow> store_claim_next cfg out chunk report v prev)
      (\<lambda>cl w. claimed chunk 1 cl w \<and> (is_authorized cl \<longrightarrow> ic_authorization cl \<noteq> None)) (idle 1)"
    using ends_claim_next [OF assms] by (cases p) (auto intro!: ends_return)
next
  fix cl
  show "ends (\<lambda>w. claimed chunk 1 cl w \<and> (is_authorized cl \<longrightarrow> ic_authorization cl \<noteq> None))
      (if map_option is_authorized (Some cl) = Some True then wreturn () else refund_token cfg out l v)
      (\<lambda>_. leased chunk (cl, Some l)) (idle 0)"
  proof (cases "is_authorized cl")
    case True
    then show ?thesis by (auto simp: leased_def claimed_def intro!: ends_return)
  next
    case False
    have "ends (idle 1) (refund_token cfg out l v) (\<lambda>_. idle 0) (idle 0)" by (rule ends_refund_token)
    then show ?thesis using False by (auto simp: leased_def elim!: ends_weaken)
  qed
next
  show "ends (idle 1) (if map_option is_authorized None = Some True then wreturn () else refund_token cfg out l v)
    (\<lambda>_. idle 0) (idle 0)"
    using ends_refund_token by simp
qed

lemma ends_claim_with_lease:
  assumes "others out"
  shows "ends (case l of None \<Rightarrow> idle 0 | Some _ \<Rightarrow> idle 1) (claim_with_lease cfg out chunk lane report v prev l)
    (leased chunk) (idle 0)"
proof (cases l)
  case None
  then show ?thesis by (simp add: claim_with_lease_def leased_def ends_return)
next
  case (Some e)
  have "ends (leased chunk (cl, Some e)) (wbind (defer_denied cfg out chunk lane cl) (\<lambda>_. wreturn (cl, Some e)))
      (leased chunk) (idle 0)" for cl
  proof (cases "is_authorized cl")
    case True
    have "ends (leased chunk (cl, Some e)) (wreturn ()) (\<lambda>_. leased chunk (cl, Some e)) (idle 0)"
      by (rule ends_return)
    moreover have "defer_denied cfg out chunk lane cl = wreturn ()" using True by (simp add: defer_denied_def)
    ultimately show ?thesis by (auto intro: ends_bind ends_return)
  next
    case False
    have "keeps (idle 0) (defer_denied cfg out chunk lane cl)"
      unfolding defer_denied_def by (intro kept assms)
    from keepsD [OF this] have "ends (idle 0)
        (wbind (defer_denied cfg out chunk lane cl) (\<lambda>_. wreturn (cl, Some e))) (leased chunk) (idle 0)"
      by (rule ends_bind) (simp add: leased_def False ends_return)
    then show ?thesis by (rule ends_weaken) (auto simp: leased_def False)
  qed
  from ends_bind [OF ends_claim_under_token [OF assms] this] Some show ?thesis
    by (simp add: claim_with_lease_def)
qed

lemma ends_claim_persisted:
  assumes "others out"
  shows "ends (idle 0) (claim_persisted_failover cfg out chunk lane report) (leased chunk) (idle 0)"
proof (cases "fr_next_vendor report = None \<or> fr_previous_attempt_id report = None")
  case True
  then show ?thesis
    by (auto simp: claim_persisted_failover_def leased_def intro!: ends_return split: option.splits)
next
  case False
  then obtain v prev where e: "fr_next_vendor report = Some v" "fr_previous_attempt_id report = Some prev" by auto
  note t = ends_bind [OF ends_token ends_claim_with_lease [OF assms]]
  show ?thesis
    unfolding claim_persisted_failover_def e prod.case option.case
  proof (rule ends_bind [OF keepsD [OF keeps_preflight(1) [OF assms]]])
    fix p
    show "ends (idle 0) (case p of
           Some o' \<Rightarrow> wreturn (claim_denied (''preflight_'' @ outcome_text o'), None)
         | None \<Rightarrow> wbind (token cfg out lane v) (claim_with_lease cfg out chunk lane report v prev))
       (leased chunk) (idle 0)"
      using t by (cases p) (auto simp: leased_def intro!: ends_return)
  qed
qed

section \<open>Submission\<close>

text \<open>What an authorised call does: it makes at most the call it was authorised for, and leaves nothing
  open.\<close>

definition good_invoker :: "invoker \<Rightarrow> bool" where
  "good_invoker invoke \<longleftrightarrow> (\<forall>chunk lane v g i al n l.
     ends (armed (i, ck_chunk_id chunk, v)) (invoke chunk lane v g i al n l) (\<lambda>_. idle 0) (idle 0))"

lemma ends_follow_claim:
  assumes "good_invoker invoke"
  shows "ends (leased chunk r) (follow_claim invoke chunk lane al n r) (\<lambda>_. idle 0) (idle 0)"
proof (cases "is_authorized (fst r) \<and> ic_authorization (fst r) \<noteq> None \<and> snd r \<noteq> None")
  case True
  then obtain cl l auth where r: "r = (cl, Some l)" "ic_kind cl = IC_authorized" "ic_authorization cl = Some auth"
    by (cases r) (auto simp: is_authorized_def)
  have "follow_claim invoke chunk lane al n r
      = invoke chunk lane (ia_vendor_id auth) (ia_generation auth) (ia_attempt_id auth) al n l"
    by (simp add: follow_claim_def r)
  moreover have "leased chunk r = armed (ia_attempt_id auth, ck_chunk_id chunk, ia_vendor_id auth)"
    by (rule ext) (simp add: leased_def claimed_def r is_authorized_def)
  ultimately show ?thesis using assms by (simp add: good_invoker_def)
next
  case False
  then have l: "leased chunk r w \<Longrightarrow> idle 0 w \<and> \<not> is_authorized (fst r)" for w
    by (auto simp: leased_def)
  show ?thesis
  proof (cases "is_authorized (fst r)")
    case True
    then show ?thesis using l by (auto simp: ends_def)
  next
    case na: False
    then have "\<exists>x. follow_claim invoke chunk lane al n r = wreturn x"
      by (cases r) (auto simp: follow_claim_def is_authorized_def Let_def split: InvokeClaimKind.splits)
    then show ?thesis using l by (auto intro!: ends_return)
  qed
qed

lemma keeps_follow_failover [kept]:
  assumes "others out" "good_invoker invoke"
  shows "keeps (idle 0) (follow_failover cfg out invoke chunk lane al n r)"
  unfolding keeps_def follow_failover_def
  by (rule ends_bind [OF ends_claim_persisted [OF assms(1)] ends_follow_claim [OF assms(2)]])

lemma keeps_terminal_rejection [kept]:
  assumes "others out" "good_invoker invoke"
  shows "keeps (idle 0) (terminal_rejection cfg out invoke chunk code lane g i al n)"
  unfolding terminal_rejection_def Let_def by (intro kept assms)

lemma keeps_handle_terminal [kept]:
  assumes "others out" "good_invoker invoke" "\<And>child. keeps (idle 0) (submit_child child)"
  shows "keeps (idle 0) (handle_terminal_api_error cfg out submit_child invoke chunk code lane g i al n)"
  unfolding handle_terminal_api_error_def split_and_submit_def Let_def by (intro kept assms)

lemma ends_call_provider:
  assumes "others out" "\<And>code. keeps (idle 0) (on_error code)"
  shows "ends (armed (i, ck_chunk_id chunk, v)) (call_provider cfg out on_error chunk v g i phones)
    (\<lambda>_. idle 0) (idle 0)"
  unfolding call_provider_def
proof (rule ends_bind [OF ends_send [OF assms(1)]])
  fix a
  have "keeps (idle 0) (record_uncertain cfg out chunk g i)"
    "keeps (idle 0) (record_submitted cfg out chunk g i t)" for t
    by (intro kept assms)+
  then have "keeps (idle 0) (case a of Task_id t \<Rightarrow> record_submitted cfg out chunk g i t
       | Transport_error \<Rightarrow> record_uncertain cfg out chunk g i
       | Protocol_error \<Rightarrow> record_uncertain cfg out chunk g i
       | Api_error code \<Rightarrow> if map_of ERROR_POLICIES code = None
           then record_uncertain cfg out chunk g i else on_error code
       | Raises e \<Rightarrow> wbind (record_uncertain cfg out chunk g i) (\<lambda>_. wraise e))"
    by (cases a) (simp_all add: kept assms(2))
  then show "ends (idle 0) (case a of Task_id t \<Rightarrow> record_submitted cfg out chunk g i t
       | Transport_error \<Rightarrow> record_uncertain cfg out chunk g i
       | Protocol_error \<Rightarrow> record_uncertain cfg out chunk g i
       | Api_error code \<Rightarrow> if map_of ERROR_POLICIES code = None
           then record_uncertain cfg out chunk g i else on_error code
       | Raises e \<Rightarrow> wbind (record_uncertain cfg out chunk g i) (\<lambda>_. wraise e)) (\<lambda>_. idle 0) (idle 0)"
    by (rule keepsD)
qed

lemma ends_close_then:
  "ends (armed (i, c, v)) (wbind (wclose i) (\<lambda>_. wreturn x)) (\<lambda>_. idle 0) E"
  "ends (armed (i, c, v)) (wbind (wclose i) (\<lambda>_. wraise e)) Q (idle 0)"
proof -
  note c = ends_bind [OF ends_close [of "(i, c, v)", unfolded fst_conv]]
  show "ends (armed (i, c, v)) (wbind (wclose i) (\<lambda>_. wreturn x)) (\<lambda>_. idle 0) E"
    by (rule c) (simp add: ends_return idle_less)
  show "ends (armed (i, c, v)) (wbind (wclose i) (\<lambda>_. wraise e)) Q (idle 0)"
    by (rule c) (simp add: ends_raise idle_less)
qed

lemma ends_call_checked:
  assumes "others out" "\<And>code. keeps (idle 0) (on_error code)"
  shows "ends (armed (i, ck_chunk_id chunk, v)) (call_checked cfg out on_error chunk v g i l d)
    (\<lambda>_. idle 0) (idle 0)"
proof -
  have "ends (armed (i, ck_chunk_id chunk, v)) (abort_before_http cfg out chunk v g i l oc) (\<lambda>_. idle 0) (idle 0)" for oc
    using ends_abort [OF assms(1), of "(i, ck_chunk_id chunk, v)"] by simp
  then show ?thesis unfolding call_checked_def
    by (auto intro: ends_close_then(1) ends_call_provider assms)
qed

lemma ends_fail_without_gateway:
  assumes "others out"
  shows "ends (armed (i, c, v)) (fail_without_gateway cfg out chunk v g i l) (\<lambda>_. idle 0) (idle 0)"
  unfolding fail_without_gateway_def
proof (rule ends_bind)
  show "ends (armed (i, c, v)) (finalize_invoke cfg out chunk g i (finalize_defaults A_failed)) (\<lambda>_. idle 1) (idle 0)"
    using ends_weaken [OF ends_finalize_armed [OF assms, of "(i, c, v)"]] idle_less by simp
  show "ends (idle 1) (wbind (refund_token cfg out l v) (\<lambda>_. wreturn x)) (\<lambda>_. idle 0) (idle 0)" for x
    by (rule ends_bind [OF ends_refund_token]) (rule ends_return)
qed

lemma ends_invoke_body:
  assumes "others out" "\<And>code. keeps (idle 0) (on_error code)"
  shows "ends (armed (i, ck_chunk_id chunk, v)) (invoke_body cfg out on_error chunk v g i l)
    (\<lambda>_. idle 0) (idle 0)"
proof -
  let ?t = "(i, ck_chunk_id chunk, v)"
  have pre: "ends (armed ?t) (wcatch (preflight_before_invoke cfg out chunk v True)
      (\<lambda>e. wbind (cleanup_before_http cfg out chunk v g i l) (\<lambda>_. wraise e))) (\<lambda>_. armed ?t) (idle 0)"
  proof (rule ends_catch)
    show "ends (armed ?t) (preflight_before_invoke cfg out chunk v True) (\<lambda>_. armed ?t) (armed ?t)"
      by (rule keepsD) (intro kept assms(1))
    show "ends (armed ?t) (wbind (cleanup_before_http cfg out chunk v g i l) (\<lambda>_. wraise e)) (\<lambda>_. armed ?t) (idle 0)" for e
      by (rule ends_bind [OF ends_cleanup [OF assms(1), of ?t, unfolded fst_conv] ends_raise])
  qed
  have "ends (armed ?t) (wcatch (phones_for_invoke cfg out chunk)
      (\<lambda>e. wbind (wclose i) (\<lambda>_. wraise e))) (\<lambda>_. armed ?t) (idle 0)"
    by (rule ends_catch [OF keepsD [OF keeps_phones [OF assms(1) stage.intros(2)]] ends_close_then(2)])
  note call = ends_bind [OF this ends_call_checked [OF assms]]
  show ?thesis
    unfolding invoke_body_def
    by (rule ends_bind [OF pre])
       (auto intro: call ends_abort [OF assms(1), of ?t, unfolded fst_conv]
          ends_fail_without_gateway [OF assms(1)] split: option.split)
qed

lemma ends_claim_first:
  assumes "others out"
  shows "ends (idle 1) (claim_first cfg out chunk lane v l)
    (\<lambda>r. if r = Inr S_CLAIMED then idle 1 else idle 0) (idle 0)"
  unfolding claim_first_def
proof (rule ends_finally)
  show "ends (idle 1) (wbind (preflight_before_invoke cfg out chunk v False) (\<lambda>preflight. case preflight of
      Some o' \<Rightarrow> wreturn (Inl o')
    | None \<Rightarrow> wbind (claim_after_token cfg out chunk lane (ck_retry_count chunk)) (\<lambda>s. wreturn (Inr s))))
    (\<lambda>_. idle 1) (idle 1)"
    by (rule keepsD) (intro kept assms)
  fix r :: "SubmitOutcome + SubmissionClaimStatus"
  show "ends (idle 1) (if Some r = Some (Inr S_CLAIMED) then wreturn () else refund_token cfg out l v)
    (\<lambda>_. if r = Inr S_CLAIMED then idle 1 else idle 0) (idle 0)"
    by (cases "r = Inr S_CLAIMED") (simp_all only: ends_return ends_refund_token if_True if_False option.inject refl)
qed (simp only: ends_refund_token option.distinct if_False)

lemma ends_call_claimed:
  assumes "others out" "good_invoker invoke"
  shows "ends (if r = Inr S_CLAIMED then idle 1 else idle 0)
    (call_claimed out invoke chunk lane al v re l r) (\<lambda>_. idle 0) (idle 0)"
proof (cases "r = Inr S_CLAIMED")
  case True
  have "ends (case started of None \<Rightarrow> idle 1 | Some row \<Rightarrow> armed (ar_id row, ck_chunk_id chunk, v))
      (case started of None \<Rightarrow> wreturn O_UNCERTAIN
       | Some row \<Rightarrow> invoke chunk lane v (ar_generation row) (ar_id row) al (ck_retry_count chunk) l)
      (\<lambda>_. idle 0) (idle 0)" for started
    using assms(2) by (cases started) (auto simp: good_invoker_def idle_less intro: ends_return)
  moreover have "ends (idle 1) (begin_invoke out chunk v re)
    (\<lambda>r. case r of None \<Rightarrow> idle 1 | Some row \<Rightarrow> armed (ar_id row, ck_chunk_id chunk, v)) (idle 0)"
    by (rule ends_weaken [OF ends_begin [OF assms(1)]]) (auto simp: idle_less)
  ultimately show ?thesis using True by (auto simp: call_claimed_def intro: ends_bind)
qed (auto simp: call_claimed_def intro: ends_return)

lemma keeps_first_call [kept]:
  assumes "others out" "good_invoker invoke"
  shows "keeps (idle 0) (first_call cfg out invoke chunk lane al v re)"
proof -
  have "ends (case lease of None \<Rightarrow> idle 0 | Some _ \<Rightarrow> idle 1) (case lease of None \<Rightarrow> wreturn O_PAUSED
      | Some l \<Rightarrow> wbind (claim_first cfg out chunk lane v l) (call_claimed out invoke chunk lane al v re l))
      (\<lambda>_. idle 0) (idle 0)" for lease
    using ends_bind [OF ends_claim_first [OF assms(1)] ends_call_claimed [OF assms]]
    by (cases lease) (auto intro: ends_return)
  from ends_bind [OF ends_token this]
  have "keeps (idle 0) (wbind (token cfg out lane v) (\<lambda>lease. case lease of None \<Rightarrow> wreturn O_PAUSED
      | Some l \<Rightarrow> wbind (claim_first cfg out chunk lane v l) (call_claimed out invoke chunk lane al v re l)))"
    unfolding keeps_def .
  moreover have "keeps (idle 0) (preflight_before_invoke cfg out chunk v False)" by (intro kept assms)
  ultimately show ?thesis
    unfolding first_call_def by (rule keeps_bind [OF _ keeps_option [OF _ keeps_return], rotated])
qed

lemma keeps_submit_with [kept]:
  assumes "others out" "good_invoker invoke"
  shows "keeps (idle 0) (submit_with cfg out invoke chunk lane al)"
proof -
  have "keeps (idle 0) (case (rd_action d, rd_vendor_id d) of
                 (R_invoke, Some vendor_id) \<Rightarrow>
                   if \<not> has_gateway cfg vendor_id
                   then wbind (command out (\<lambda>db. record_vendor_attempt db (ck_chunk_id chunk) vendor_id
                             (rd_generation d) A_cancelled_before_invoke False None))
                          (\<lambda>_. wreturn O_FAILED)
                   else first_call cfg out invoke chunk lane al vendor_id (rd_reason d)
               | _ \<Rightarrow> wreturn (if rd_action d \<in> {R_hold, R_exhausted} then O_PAUSED else O_FAILED))" for d
    by (cases "rd_action d"; cases "rd_vendor_id d") (simp_all add: kept assms)
  then show ?thesis
    unfolding submit_with_def
    by (intro keeps_bind keeps_if keeps_return kept(1) keeps_market_defer keeps_query keeps_lift
        keeps_follow_failover keeps_reports assms stage.intros)
qed

lemma good_invoke_authorized:
  assumes "others out"
  shows "good_invoker (invoke_authorized n cfg out)"
proof (induction n)
  case 0
  show ?case by (auto simp: good_invoker_def ends_def wrunning_def armed_def)
next
  case (Suc n)
  show ?case unfolding good_invoker_def invoke_authorized.simps
    by (intro allI ends_invoke_body kept assms Suc.IH)
qed

lemma keeps_process_chunk:
  assumes "others out"
  shows "keeps (idle 0) (process_chunk n cfg out chunk_id fc)"
  unfolding process_chunk_def run_chunk_def require_control_def submit_def
  by (intro kept assms good_invoke_authorized)

end
