(* ===== verification/Worker_Run.thy ===== *)
theory Worker_Run
  imports Worker_Safety
begin

text \<open>
  A task of the worker from its first to its last interaction: the chunk of two recipients is claimed,
  the call is authorised, made and recorded. Nobody disturbs it. With it, the properties of the worker
  at a concrete run.
\<close>

section \<open>A run\<close>

definition no_usage :: "db \<Rightarrow> string \<Rightarrow> string \<Rightarrow> int \<Rightarrow> bool" where
  "no_usage = (\<lambda>_ _ _ _. False)"

definition example_config :: worker_config where
  "example_config = worker_components example_env False 5 2 no_usage 3"

definition quiet :: outside where
  "quiet = \<lparr>o_db = (\<lambda>_ _ db. db), o_fault = (\<lambda>_. No_fault), o_bucket = (\<lambda>_ _ v. v),
     o_redis_ms = (\<lambda>_. 1000), o_paused = (\<lambda>_. False), o_health = (\<lambda>_. []),
     o_answer = (\<lambda>_. Task_id ''t1''), o_control = (\<lambda>_. None), o_window = (\<lambda>_. ''08:00-21:00''),
     o_clock = (\<lambda>_. 0), o_deadlock = (\<lambda>_ _. False)\<rparr>"

definition example_world :: world where
  "example_world = \<lparr>w_db = example_send, w_bucket = (\<lambda>_. Absent), w_tick = 0, w_open = [], w_calls = [],
     w_granted = 0, w_refunded = 0, w_market_defer_until = None, w_signals = []\<rparr>"

definition example_job :: ChunkPayload where
  "example_job = \<lparr>ck_chunk_id = 7, ck_batch_id = 1, ck_custom_id = ''b1'',
     ck_phones = [''13800000001'', ''13800000002''], ck_content = [72, 105], ck_template_id = [],
     ck_sign_name = [91, 65, 93], ck_retry_count = 0, ck_denied_recipient_count = 0,
     ck_selected_vendor = ''zhihui'', ck_route_generation = 1, ck_category = ''notice'',
     ck_status = C_pending, ck_next_vendor = None, ck_route_policy_version = 1,
     ck_failover_from_attempt_id = None, ck_is_test = False\<rparr>"

definition example_decision :: DispatchDecision where
  "example_decision = \<lparr>dd_eligible_phones = [''13800000001'', ''13800000002''],
     dd_excluded_count = 0, dd_generation = Some 1, dd_action = D_SEND\<rparr>"

text \<open>The interactions of a worker that nobody disturbs.\<close>

lemma quiet_others: "others quiet"
proof -
  have "unrecorded ts db db" if "send_inv db" for ts db
  proof -
    have "distinct (map a_id (db_attempts db))" using that by (simp add: send_inv_def attempts_ok_def)
    then show ?thesis by (auto simp: unrecorded_def distinct_map dest: inj_onD)
  qed
  then show ?thesis by (simp add: others_def quiet_def)
qed

lemma quiet_ask: "ask quiet f w = (Returned (f (w_tick w)), w\<lparr>w_tick := Suc (w_tick w)\<rparr>)"
  by (simp add: ask_def quiet_def Let_def)

lemma quiet_tell: "tell quiet s w
    = (Returned (), w\<lparr>w_tick := Suc (w_tick w), w_signals := w_signals w @ [s]\<rparr>)"
  by (simp add: tell_def quiet_def Let_def)

lemma quiet_transaction:
  "f (w_db w) = Inr (db, x) \<Longrightarrow> transaction quiet f w = (Returned x, w\<lparr>w_tick := Suc (w_tick w), w_db := db\<rparr>)"
  by (simp add: transaction_def quiet_def Let_def)

lemma quiet_query: "f (w_db w) = Inr x \<Longrightarrow> query quiet f w = (Returned x, w\<lparr>w_tick := Suc (w_tick w)\<rparr>)"
  by (simp add: query_def quiet_transaction [where db = "w_db w" and x = x])

lemma quiet_paused: "is_paused quiet w = (Returned False, w\<lparr>w_tick := Suc (w_tick w)\<rparr>)"
  by (simp add: is_paused_def quiet_ask) (simp add: quiet_def)

lemma then_run: "m w = (Returned x, w') \<Longrightarrow> wbind m f w = f x w'"
  by (simp add: wbind_def)

lemma catch_run: "m w = (Returned x, w') \<Longrightarrow> wcatch m h w = (Returned x, w')"
  by (simp add: wcatch_def)

lemma quiet_preflight:
  "preflight_before_invoke example_config quiet example_job ''zhihui'' au w
     = (Returned None, w\<lparr>w_tick := Suc (w_tick w)\<rparr>)"
  unfolding preflight_before_invoke_def then_run [OF quiet_paused]
  by (simp add: has_gateway_def PRIMARY_VENDOR_ID_def example_config_def worker_components_def
      default_vendor_registry_def first_row_def vendor_matches_route_def example_job_def
      health_snapshot_def guard_chunk_def control_ready_def market_ready_def wbind_def wreturn_def)

lemma quiet_phones:
  assumes "decide_dispatch no_usage (w_db w) example_job = Inr (db, example_decision)" "read_generation db = Inr 1"
  shows "phones_for_invoke example_config quiet example_job w
    = (Returned example_decision, w\<lparr>w_tick := Suc (Suc (w_tick w)), w_db := db\<rparr>)"
proof -
  have c: "wk_usage example_config = no_usage" by (simp add: example_config_def worker_components_def)
  note t = quiet_transaction [of "\<lambda>db. decide_dispatch no_usage db example_job", OF assms(1)]
  have q: "query quiet read_generation (w\<lparr>w_tick := Suc (w_tick w), w_db := db\<rparr>)
      = (Returned 1, w\<lparr>w_tick := Suc (Suc (w_tick w)), w_db := db\<rparr>)"
    by (simp add: quiet_query assms(2))
  show ?thesis
    using t q by (simp add: phones_for_invoke_def numeral_3_eq_3 c wbind_def wreturn_def example_decision_def)
qed

lemma quiet_token:
  assumes "w_bucket w ''zhihui'' = Absent"
  obtains v e where "token example_config quiet ''realtime'' ''zhihui'' w
    = (Returned (Some e), w\<lparr>w_tick := Suc (w_tick w), w_bucket := (w_bucket w)(''zhihui'' := v),
        w_granted := Suc (w_granted w)\<rparr>)"
proof -
  have "case acquire ''realtime'' 5 2 1000 Absent of (_, Inr (Some _)) \<Rightarrow> True | _ \<Rightarrow> False" by code_simp
  then obtain v e where a: "acquire ''realtime'' 5 2 1000 Absent = (v, Inr (Some e))"
    by (auto split: prod.splits sum.splits option.splits)
  have "bucket_acquire quiet ''realtime'' 5 2 ''zhihui'' w
      = (Returned (Some e), w\<lparr>w_tick := Suc (w_tick w), w_bucket := (w_bucket w)(''zhihui'' := v),
        w_granted := Suc (w_granted w)\<rparr>)"
    by (simp add: bucket_acquire_def quiet_def assms Let_def a)
  then show ?thesis
    by (intro that [of e v])
      (simp add: token_def example_config_def worker_components_def numeral_3_eq_3 wreturn_def wbind_def)
qed

text \<open>The transactions of the run, one after the other.\<close>

lemma example_transactions:
  obtains db1 db2 cl db3 db4 db5 r where
    "decide_dispatch no_usage example_send example_job = Inr (db1, example_decision)" "read_generation db1 = Inr 1"
    "claim_submission example_env db1 7 0 2 False = Inr (db2, cl)" "sc_status cl = S_CLAIMED"
    "begin_vendor_invoke db2 7 ''zhihui'' ''zhihui'' ''primary''
       = Inr (db3, \<lparr>ar_id = 1, ar_generation = 1, ar_vendor_id = ''zhihui'', ar_outcome = A_invoking\<rparr>)"
    "decide_dispatch no_usage db3 example_job = Inr (db4, example_decision)" "read_generation db4 = Inr 1"
    "finalize_vendor_attempt (\<lambda>_. False) example_env db4 1 7 1 ((finalize_defaults A_submitted)
       \<lparr>fa_vendor_task_id := Some ''t1'', fa_batch_id := Some 1\<rparr>) = Inr (db5, r, None)"
    "submit_outcome_from_finalize r O_SUBMITTED = O_SUBMITTED"
proof -
  have "(case decide_dispatch no_usage example_send example_job of Inl _ \<Rightarrow> False | Inr (db1, d1) \<Rightarrow>
      d1 = example_decision \<and> read_generation db1 = Inr 1 \<and>
      (case claim_submission example_env db1 7 0 2 False of Inl _ \<Rightarrow> False | Inr (db2, cl) \<Rightarrow>
        sc_status cl = S_CLAIMED \<and>
      (case begin_vendor_invoke db2 7 ''zhihui'' ''zhihui'' ''primary'' of Inl _ \<Rightarrow> False | Inr (db3, row) \<Rightarrow>
        row = \<lparr>ar_id = 1, ar_generation = 1, ar_vendor_id = ''zhihui'', ar_outcome = A_invoking\<rparr> \<and>
      (case decide_dispatch no_usage db3 example_job of Inl _ \<Rightarrow> False | Inr (db4, d2) \<Rightarrow>
        d2 = example_decision \<and> read_generation db4 = Inr 1 \<and>
      (case finalize_vendor_attempt (\<lambda>_. False) example_env db4 1 7 1 ((finalize_defaults A_submitted)
           \<lparr>fa_vendor_task_id := Some ''t1'', fa_batch_id := Some 1\<rparr>) of Inl _ \<Rightarrow> False | Inr (db5, r, m) \<Rightarrow>
        m = None \<and> submit_outcome_from_finalize r O_SUBMITTED = O_SUBMITTED)))))"
    by code_simp
  then show ?thesis
    by (auto split: sum.splits prod.splits intro: that)
qed

lemma quiet_send: "gateway_send quiet i c v ps w = (Returned (Task_id ''t1''),
    w\<lparr>w_tick := Suc (w_tick w), w_db := w_db w, w_open := filter (\<lambda>a. fst a \<noteq> i) (w_open w),
      w_calls := w_calls w @ [\<lparr>hc_attempt_id = i, hc_chunk_id = c, hc_vendor_id = v, hc_phones = ps,
        hc_db = w_db w\<rparr>]\<rparr>)"
  by (simp add: gateway_send_def quiet_def Let_def)

lemma quiet_deadlock: "o_deadlock quiet k = (\<lambda>_. False)"
  by (simp add: quiet_def)

lemma example_config_simps:
  "wk_env example_config = example_env" "wk_enforce_live_test_budget example_config = False"
  "wk_control_guard example_config = False" "wk_router example_config = [''zhihui'']"
  "wk_has_health example_config = False" "has_gateway example_config ''zhihui''"
  by (simp_all add: example_config_def worker_components_def has_gateway_def PRIMARY_VENDOR_ID_def)

lemma example_job_simps:
  "ck_chunk_id example_job = 7" "ck_batch_id example_job = 1" "ck_retry_count example_job = 0"
  "ck_status example_job = C_pending" "ck_category example_job = ''notice''"
  "ck_route_policy_version example_job = 1"
  by (simp_all add: example_job_def)

lemma quiet_submitted:
  assumes "finalize_vendor_attempt (\<lambda>_. False) example_env (w_db w) 1 7 1 ((finalize_defaults A_submitted)
       \<lparr>fa_vendor_task_id := Some ''t1'', fa_batch_id := Some 1\<rparr>) = Inr (db, r, None)"
    and "submit_outcome_from_finalize r O_SUBMITTED = O_SUBMITTED"
  shows "\<exists>w'. record_submitted example_config quiet example_job 1 1 ''t1'' w = (Returned O_SUBMITTED, w')
    \<and> w_calls w' = w_calls w \<and> w_granted w' = w_granted w \<and> w_refunded w' = w_refunded w"
proof -
  let ?w1 = "w\<lparr>w_open := filter (\<lambda>a. fst a \<noteq> 1) (w_open w)\<rparr>"
  have t: "transaction quiet (\<lambda>db. finalize_vendor_attempt (\<lambda>_. False) example_env db 1 7 1
      ((finalize_defaults A_submitted)\<lparr>fa_vendor_task_id := Some ''t1'', fa_batch_id := Some 1\<rparr>)) ?w1
    = (Returned (r, None), ?w1\<lparr>w_tick := Suc (w_tick w), w_db := db\<rparr>)"
    using assms(1) by (simp add: quiet_transaction)
  show ?thesis
    using t assms(2)
    by (simp add: record_submitted_def finalize_invoke_def store_finalize_def wbind_def wclose_def wcatch_def
        quiet_deadlock example_config_simps example_job_simps publish_retry_def wreturn_def Let_def
        record_success_def dropping_errors_def quiet_tell)
qed

lemma quiet_invoke:
  assumes "decide_dispatch no_usage (w_db w) example_job = Inr (db, example_decision)" "read_generation db = Inr 1"
    and "finalize_vendor_attempt (\<lambda>_. False) example_env db 1 7 1 ((finalize_defaults A_submitted)
       \<lparr>fa_vendor_task_id := Some ''t1'', fa_batch_id := Some 1\<rparr>) = Inr (db', r, None)"
    and "submit_outcome_from_finalize r O_SUBMITTED = O_SUBMITTED"
  shows "\<exists>w'. invoke_authorized (Suc 0) example_config quiet example_job ''realtime'' ''zhihui'' 1 1 al n l w
      = (Returned O_SUBMITTED, w')
    \<and> w_calls w' = w_calls w @ [\<lparr>hc_attempt_id = 1, hc_chunk_id = 7, hc_vendor_id = ''zhihui'',
        hc_phones = [''13800000001'', ''13800000002''], hc_db = db\<rparr>]
    \<and> w_granted w' = w_granted w \<and> w_refunded w' = w_refunded w"
proof -
  define w1 where "w1 = w\<lparr>w_tick := Suc (w_tick w)\<rparr>"
  have p: "phones_for_invoke example_config quiet example_job w1
    = (Returned example_decision, w1\<lparr>w_tick := Suc (Suc (w_tick w1)), w_db := db\<rparr>)"
    by (rule quiet_phones) (use assms(1,2) in \<open>simp_all add: w1_def\<close>)
  define w2 where "w2 = w1\<lparr>w_tick := Suc (Suc (w_tick w1)), w_db := db\<rparr>"
  define w3 where "w3 = snd (gateway_send quiet 1 7 ''zhihui'' [''13800000001'', ''13800000002''] w2)"
  have g: "gateway_send quiet 1 7 ''zhihui'' [''13800000001'', ''13800000002''] w2 = (Returned (Task_id ''t1''), w3)"
    by (simp add: w3_def quiet_send)
  have w3: "w_db w3 = db" "w_granted w3 = w_granted w" "w_refunded w3 = w_refunded w"
    "w_calls w3 = w_calls w @ [\<lparr>hc_attempt_id = 1, hc_chunk_id = 7, hc_vendor_id = ''zhihui'',
        hc_phones = [''13800000001'', ''13800000002''], hc_db = db\<rparr>]"
    by (simp_all add: w3_def w2_def w1_def quiet_send)
  obtain w' where s: "record_submitted example_config quiet example_job 1 1 ''t1'' w3 = (Returned O_SUBMITTED, w')"
    "w_calls w' = w_calls w3" "w_granted w' = w_granted w3" "w_refunded w' = w_refunded w3"
    using quiet_submitted [of w3, unfolded w3, OF assms(3,4)] w3 by auto
  have "call_checked example_config quiet e example_job ''zhihui'' 1 1 l example_decision w2 = (Returned O_SUBMITTED, w')" for e
    using g s(1) by (simp add: call_checked_def example_decision_def call_provider_def wbind_def example_job_simps)
  moreover have "wcatch (phones_for_invoke example_config quiet example_job) h w1 = (Returned example_decision, w2)" for h
    using p by (simp add: wcatch_def w2_def)
  moreover have "wcatch (preflight_before_invoke example_config quiet example_job ''zhihui'' True) h w = (Returned None, w1)" for h
    by (simp add: wcatch_def quiet_preflight w1_def)
  ultimately have "invoke_body example_config quiet e example_job ''zhihui'' 1 1 l w = (Returned O_SUBMITTED, w')" for e
    by (simp add: invoke_body_def wbind_def example_config_simps)
  then show ?thesis using s w3 by (simp add: invoke_authorized.simps)
qed

lemma quiet_claim_first:
  assumes "decide_dispatch no_usage (w_db w) example_job = Inr (db1, example_decision)" "read_generation db1 = Inr 1"
    and "claim_submission example_env db1 7 0 2 False = Inr (db2, cl)" "sc_status cl = S_CLAIMED"
  shows "claim_first example_config quiet example_job ''realtime'' ''zhihui'' l w
    = (Returned (Inr S_CLAIMED), w\<lparr>w_tick := w_tick w + 4, w_db := db2\<rparr>)"
proof -
  define w1 where "w1 = w\<lparr>w_tick := Suc (w_tick w)\<rparr>"
  have p: "phones_for_invoke example_config quiet example_job w1
    = (Returned example_decision, w1\<lparr>w_tick := Suc (Suc (w_tick w1)), w_db := db1\<rparr>)"
    by (rule quiet_phones) (use assms(1,2) in \<open>simp_all add: w1_def\<close>)
  have q: "calculate_quota_cost (final_content example_job) 2 = Inr 2" by code_simp
  have t: "transaction quiet (\<lambda>db. claim_submission example_env db 7 0 2 False)
      (w1\<lparr>w_tick := Suc (Suc (w_tick w1)), w_db := db1\<rparr>)
    = (Returned cl, w1\<lparr>w_tick := Suc (Suc (Suc (w_tick w1))), w_db := db2\<rparr>)"
    using assms(3) by (simp add: quiet_transaction)
  have d: "length (dd_eligible_phones example_decision) = 2" "dd_action example_decision = D_SEND"
    "dd_eligible_phones example_decision \<noteq> []"
    by (simp_all add: example_decision_def)
  have "claim_after_token example_config quiet example_job ''realtime'' 0 w1
      = (Returned S_CLAIMED, w1\<lparr>w_tick := Suc (Suc (Suc (w_tick w1))), w_db := db2\<rparr>)"
    using p q t assms(4)
    by (simp add: claim_after_token_def wbind_def d wlift_def wreturn_def example_config_simps example_job_simps)
  moreover have "preflight_before_invoke example_config quiet example_job ''zhihui'' False w = (Returned None, w1)"
    by (simp add: quiet_preflight w1_def)
  ultimately show ?thesis
    by (simp add: claim_first_def wfinally_def wbind_def wreturn_def example_job_simps w1_def eval_nat_numeral)
qed

lemma example_route:
  "router_decide [''zhihui''] (route_request example_config example_job []
     [\<lparr>vh_vendor_id = ''zhihui'', vh_available = True, vh_pause_reason = None\<rparr>])
   = Inr \<lparr>rd_action = R_invoke, rd_vendor_id = Some ''zhihui'', rd_reason = ''primary'',
       rd_generation = 1, rd_policy_version = 1\<rparr>"
  by code_simp

lemma quiet_submit:
  assumes "w_db w = example_send" "w_bucket w ''zhihui'' = Absent"
  shows "\<exists>w' db. submit (Suc 0) example_config quiet example_job ''realtime'' al w = (Returned O_SUBMITTED, w')
    \<and> w_calls w' = w_calls w @ [\<lparr>hc_attempt_id = 1, hc_chunk_id = 7, hc_vendor_id = ''zhihui'',
        hc_phones = [''13800000001'', ''13800000002''], hc_db = db\<rparr>]
    \<and> w_granted w' = Suc (w_granted w) \<and> w_refunded w' = w_refunded w"
proof -
  obtain db1 db2 cl db3 db4 db5 r where x:
    "decide_dispatch no_usage example_send example_job = Inr (db1, example_decision)" "read_generation db1 = Inr 1"
    "claim_submission example_env db1 7 0 2 False = Inr (db2, cl)" "sc_status cl = S_CLAIMED"
    "begin_vendor_invoke db2 7 ''zhihui'' ''zhihui'' ''primary''
       = Inr (db3, \<lparr>ar_id = 1, ar_generation = 1, ar_vendor_id = ''zhihui'', ar_outcome = A_invoking\<rparr>)"
    "decide_dispatch no_usage db3 example_job = Inr (db4, example_decision)" "read_generation db4 = Inr 1"
    "finalize_vendor_attempt (\<lambda>_. False) example_env db4 1 7 1 ((finalize_defaults A_submitted)
       \<lparr>fa_vendor_task_id := Some ''t1'', fa_batch_id := Some 1\<rparr>) = Inr (db5, r, None)"
    "submit_outcome_from_finalize r O_SUBMITTED = O_SUBMITTED"
    by (rule example_transactions)
  define w1 where "w1 = w\<lparr>w_market_defer_until := None, w_tick := Suc (Suc (Suc (w_tick w)))\<rparr>"
  have w1: "w_db w1 = example_send" "w_bucket w1 ''zhihui'' = Absent" "w_calls w1 = w_calls w"
    "w_granted w1 = w_granted w" "w_refunded w1 = w_refunded w"
    using assms by (simp_all add: w1_def)
  obtain v e where tk: "token example_config quiet ''realtime'' ''zhihui'' w1
    = (Returned (Some e), w1\<lparr>w_tick := Suc (w_tick w1), w_bucket := (w_bucket w1)(''zhihui'' := v),
        w_granted := Suc (w_granted w1)\<rparr>)"
    by (rule quiet_token [OF w1(2)])
  define w2 where "w2 = w1\<lparr>w_tick := Suc (w_tick w1), w_bucket := (w_bucket w1)(''zhihui'' := v),
        w_granted := Suc (w_granted w1)\<rparr>"
  have c: "claim_first example_config quiet example_job ''realtime'' ''zhihui'' e w2
    = (Returned (Inr S_CLAIMED), w2\<lparr>w_tick := w_tick w2 + 4, w_db := db2\<rparr>)"
    by (rule quiet_claim_first [OF _ x(2-4)]) (simp add: w2_def w1(1) x(1))
  define w3 where "w3 = w2\<lparr>w_tick := w_tick w2 + 4, w_db := db2\<rparr>"
  define w4 where "w4 = w3\<lparr>w_tick := Suc (w_tick w3), w_db := db3, w_open := (1, 7, ''zhihui'') # w_open w3\<rparr>"
  have "w_db w3 = db2" by (simp add: w3_def)
  then have b: "begin_invoke quiet example_job ''zhihui'' ''primary'' w3 = (Returned (Some
      \<lparr>ar_id = 1, ar_generation = 1, ar_vendor_id = ''zhihui'', ar_outcome = A_invoking\<rparr>), w4)"
    using x(5) by (simp add: begin_invoke_def wcatch_def wbind_def example_job_simps wopen_def wreturn_def w4_def
        quiet_transaction [where db = db3 and x = "\<lparr>ar_id = 1, ar_generation = 1, ar_vendor_id = ''zhihui'',
          ar_outcome = A_invoking\<rparr>"])
  have w4: "w_db w4 = db3" "w_calls w4 = w_calls w" "w_granted w4 = Suc (w_granted w)" "w_refunded w4 = w_refunded w"
    using w1 by (simp_all add: w4_def w3_def w2_def)
  obtain w' where i: "invoke_authorized (Suc 0) example_config quiet example_job ''realtime'' ''zhihui'' 1 1 al 0 e w4
      = (Returned O_SUBMITTED, w')"
    "w_calls w' = w_calls w @ [\<lparr>hc_attempt_id = 1, hc_chunk_id = 7, hc_vendor_id = ''zhihui'',
        hc_phones = [''13800000001'', ''13800000002''], hc_db = db4\<rparr>]"
    "w_granted w' = Suc (w_granted w)" "w_refunded w' = w_refunded w"
    using quiet_invoke [of w4 db4 db5 r al 0 e, unfolded w4, OF x(6-9)] by blast
  define inv where "inv = invoke_authorized (Suc 0) example_config quiet"
  have i0: "inv example_job ''realtime'' ''zhihui'' 1 1 al 0 e w4 = (Returned O_SUBMITTED, w')"
    using i(1) unfolding inv_def .
  have "first_call example_config quiet inv example_job ''realtime'' al ''zhihui'' ''primary''
      (w\<lparr>w_market_defer_until := None, w_tick := Suc (Suc (w_tick w))\<rparr>) = (Returned O_SUBMITTED, w')"
    using tk c b i0
    by (simp add: first_call_def wbind_def quiet_preflight w1_def [symmetric] w2_def [symmetric]
        w3_def [symmetric] call_claimed_def example_job_simps)
  moreover have "list_vendor_attempts example_send 7 = []" by code_simp
  ultimately have "submit_with example_config quiet inv example_job ''realtime'' al w = (Returned O_SUBMITTED, w')"
    using assms(1) example_route
    by (simp add: submit_with_def wbind_def set_market_defer_def quiet_query example_job_simps quiet_paused
        health_snapshot_def example_config_simps wreturn_def wlift_def)
  then show ?thesis using i(2-4) unfolding submit_def inv_def by blast
qed

lemma example_process:
  "\<exists>w' db. process_chunk (Suc 0) example_config quiet 7 True example_world
      = (Returned (task_result 1 O_SUBMITTED None), w')
    \<and> w_calls w' = [\<lparr>hc_attempt_id = 1, hc_chunk_id = 7, hc_vendor_id = ''zhihui'',
        hc_phones = [''13800000001'', ''13800000002''], hc_db = db\<rparr>]
    \<and> w_granted w' = 1 \<and> w_refunded w' = 0"
proof -
  have l: "load_chunk example_env example_send 7 = Inr (Some (example_job, ''realtime''))" by code_simp
  define w1 where "w1 = example_world\<lparr>w_tick := 3, w_signals := [Heartbeat ''send-realtime'' False]\<rparr>"
  obtain w2 db where s: "submit (Suc 0) example_config quiet example_job ''realtime'' True w1 = (Returned O_SUBMITTED, w2)"
    "w_calls w2 = [\<lparr>hc_attempt_id = 1, hc_chunk_id = 7, hc_vendor_id = ''zhihui'',
        hc_phones = [''13800000001'', ''13800000002''], hc_db = db\<rparr>]"
    "w_granted w2 = 1" "w_refunded w2 = 0"
    using quiet_submit [of w1 True] by (auto simp: w1_def example_world_def)
  have "run_chunk (Suc 0) example_config quiet 7 True example_world
      = (Returned (task_result 1 O_SUBMITTED None), w2\<lparr>w_tick := Suc (w_tick w2),
          w_signals := w_signals w2 @ [Heartbeat ''send-realtime'' True]\<rparr>)"
    using s(1) l
    by (simp add: run_chunk_def wbind_def require_control_def control_ready_def example_config_simps wreturn_def
        quiet_query quiet_tell quiet_paused heartbeat_lane_def get_market_defer_def w1_def example_world_def
        eval_nat_numeral)
  then show ?thesis using s by (simp add: process_chunk_def wbind_def task_result_def wreturn_def)
qed

section \<open>Properties\<close>

lemma process_chunk_safe:
  assumes "others out" "send_inv (w_db w)" "w_calls w = []" "w_open w = []" "w_refunded w \<le> w_granted w"
    and "process_chunk n cfg out chunk_id fc w = (r, w')"
  shows "safe_world w'"
proof -
  have "idle 0 w" using assms(2-5) by (simp add: idle_def safe_world_def call_ids_def)
  from keeps_process_chunk [OF assms(1), THEN keepsD, unfolded ends_def, rule_format, OF this,
      of n cfg chunk_id fc, unfolded assms(6)]
  show ?thesis by (cases r) (simp_all add: idle_def)
qed

lemma call_ok_row:
  assumes "call_ok h"
  shows "\<exists>a\<in>set (db_attempts (hc_db h)). a_id a = hc_attempt_id h
      \<and> a_chunk_id a = hc_chunk_id h \<and> a_vendor_id a = hc_vendor_id h
      \<and> a_outcome a \<in> {A_invoking, A_uncertain, A_inconsistent}
      \<and> (\<forall>x\<in>set (db_attempts (hc_db h)). a_chunk_id x = hc_chunk_id h \<and> x \<noteq> a
           \<longrightarrow> a_outcome x \<notin> set BLOCKING_ATTEMPT_OUTCOMES)"
proof -
  obtain a where a: "a \<in> set (db_attempts (hc_db h))"
    "(a_id a, a_chunk_id a, a_vendor_id a) = (hc_attempt_id h, hc_chunk_id h, hc_vendor_id h)"
    "a_outcome a \<in> {A_invoking, A_uncertain, A_inconsistent}"
    using assms unfolding call_ok_def open_row_def by blast
  have "distinct (map a_chunk_id (filter blocking (db_attempts (hc_db h))))"
    using assms by (simp add: call_ok_def send_inv_def attempts_ok_def)
  moreover have "blocking a" using a(3) by (auto simp: blocking_def BLOCKING_ATTEMPT_OUTCOMES_def)
  ultimately have "\<not> blocking x" if "x \<in> set (db_attempts (hc_db h))" "a_chunk_id x = a_chunk_id a" "x \<noteq> a" for x
    using that a(1) by (auto simp: distinct_map inj_on_def)
  then show ?thesis using a by (intro bexI [of _ a]) (auto simp: blocking_def)
qed

text \<open>C3: every call to a provider is authorised. Whatever other workers, recovery, the rest of the
  platform, the provider and every fault do between the interactions of a task, and however far the task
  has got: each call it made was for an attempt that was in the database at that moment with the
  provider and the chunk of the call, no other attempt of the chunk was open or may have reached a
  provider, and no two calls were for the same attempt.\<close>

theorem every_call_is_authorised:
  assumes "others out" "send_inv (w_db w)" "w_calls w = []" "w_open w = []" "w_refunded w \<le> w_granted w"
    and "process_chunk n cfg out chunk_id fc w = (r, w')"
  shows "distinct (map hc_attempt_id (w_calls w')) \<and>
    (\<forall>h\<in>set (w_calls w'). \<exists>a\<in>set (db_attempts (hc_db h)). a_id a = hc_attempt_id h
      \<and> a_chunk_id a = hc_chunk_id h \<and> a_vendor_id a = hc_vendor_id h
      \<and> a_outcome a \<in> {A_invoking, A_uncertain, A_inconsistent}
      \<and> (\<forall>x\<in>set (db_attempts (hc_db h)). a_chunk_id x = hc_chunk_id h \<and> x \<noteq> a
           \<longrightarrow> a_outcome x \<notin> set BLOCKING_ATTEMPT_OUTCOMES))"
proof -
  have s: "safe_world w'" by (rule process_chunk_safe [OF assms])
  have "\<exists>a\<in>set (db_attempts (hc_db h)). a_id a = hc_attempt_id h
      \<and> a_chunk_id a = hc_chunk_id h \<and> a_vendor_id a = hc_vendor_id h
      \<and> a_outcome a \<in> {A_invoking, A_uncertain, A_inconsistent}
      \<and> (\<forall>x\<in>set (db_attempts (hc_db h)). a_chunk_id x = hc_chunk_id h \<and> x \<noteq> a
           \<longrightarrow> a_outcome x \<notin> set BLOCKING_ATTEMPT_OUTCOMES)" if "h \<in> set (w_calls w')" for h
  proof (rule call_ok_row)
    show "call_ok h" using s that by (simp add: safe_world_def list_all_iff)
  qed
  then show ?thesis using s by (simp add: safe_world_def call_ids_def)
qed

theorem every_call_is_authorised_witness:
  "\<exists>r w' h a. process_chunk (Suc 0) example_config quiet 7 True example_world = (r, w') \<and> w_calls w' = [h]
     \<and> a \<in> set (db_attempts (hc_db h)) \<and> a_id a = 1 \<and> a_chunk_id a = 7 \<and> a_vendor_id a = ''zhihui''"
proof -
  obtain w' db where p: "process_chunk (Suc 0) example_config quiet 7 True example_world
      = (Returned (task_result 1 O_SUBMITTED None), w')"
    and c: "w_calls w' = [\<lparr>hc_attempt_id = 1, hc_chunk_id = 7, hc_vendor_id = ''zhihui'',
        hc_phones = [''13800000001'', ''13800000002''], hc_db = db\<rparr>]"
    using example_process by blast
  have "send_inv (w_db example_world)" "w_calls example_world = []" "w_open example_world = []"
    "w_refunded example_world \<le> w_granted example_world"
    using example_send_inv by (simp_all add: example_world_def)
  from every_call_is_authorised [OF quiet_others this p] c p show ?thesis by auto
qed

text \<open>C4: every call to a provider uses up a token. Over a task, the calls it made and the tokens it gave
  back are together at most the tokens it was granted, whatever happens around it.\<close>

theorem every_call_has_a_token:
  assumes "others out" "send_inv (w_db w)" "w_calls w = []" "w_open w = []" "w_refunded w \<le> w_granted w"
    and "process_chunk n cfg out chunk_id fc w = (r, w')"
  shows "length (w_calls w') + w_refunded w' \<le> w_granted w'"
  using process_chunk_safe [OF assms] by (simp add: safe_world_def)

theorem every_call_has_a_token_witness:
  "\<exists>r w'. process_chunk (Suc 0) example_config quiet 7 True example_world = (r, w') \<and> length (w_calls w') = 1
     \<and> 1 \<le> w_granted w'"
proof -
  obtain r w' where p: "process_chunk (Suc 0) example_config quiet 7 True example_world = (r, w')"
    and c: "length (w_calls w') = 1"
    using example_process by auto
  have "send_inv (w_db example_world)" "w_calls example_world = []" "w_open example_world = []"
    "w_refunded example_world \<le> w_granted example_world"
    using example_send_inv by (simp_all add: example_world_def)
  from every_call_has_a_token [OF quiet_others this p] c p show ?thesis by auto
qed

section \<open>The policy at the moment of the call\<close>

text \<open>Between the interactions of a worker the blacklist changes only by the transactions of its
  repository.\<close>

definition policy_others :: "outside \<Rightarrow> bool" where
  "policy_others out \<longleftrightarrow> (\<forall>k ts db. blacklist_step\<^sup>*\<^sup>* db (o_db out k ts db))"

lemma transaction_Returned:
  assumes "transaction out f w = (Returned x, w')"
  shows "\<exists>db. f (o_db out (w_tick w) (w_open w) (w_db w)) = Inr (db, x) \<and> w_db w' = db"
  using assms by (auto simp: transaction_def Let_def split: fault.splits sum.splits prod.splits)

lemma query_Returned:
  assumes "query out f w = (Returned x, w')"
  shows "f (w_db w') = Inr x \<and> w_db w' = o_db out (w_tick w) (w_open w) (w_db w)"
  using transaction_Returned [OF assms [unfolded query_def]] by (auto simp: rbind_Inr_iff)

lemma wbind_Returned:
  assumes "wbind m f w = (Returned y, w')"
  obtains x w1 where "m w = (Returned x, w1)" "f x w1 = (Returned y, w')"
  using assms by (auto simp: wbind_def split: prod.splits run.splits)

lemma decide_dispatch_policy:
  "decide_dispatch du db chunk = Inr (db', d) \<Longrightarrow> blacklist_step db db'"
  by (rule blacklist_step.other) (use decide_dispatch_frame in \<open>auto simp: dispatch_keeps_def\<close>)

lemma decide_dispatch_generation:
  assumes "decide_dispatch du db chunk = Inr (db', d)" "dd_generation d = Some g"
  shows "g = db_blacklist_generation db'"
proof -
  have "read_generation db = Inr g"
    using assms unfolding decide_dispatch_def dispatch_checked_def Let_def
    by (auto simp: rbind_Inr_iff split: option.splits if_splits)
  then show ?thesis
    using decide_dispatch_frame [OF assms(1)] by (auto simp: read_generation_def dispatch_keeps_def split: if_splits)
qed

lemma decide_dispatch_unlisted:
  assumes "decide_dispatch du db chunk = Inr (db', d)" "dd_action d = D_SEND" "dd_generation d = Some g"
  shows "\<exists>ms. dd_eligible_phones d = map m_phone ms \<and> ms \<noteq> [] \<and> set ms \<subseteq> set (pending_messages db (ck_chunk_id chunk))
    \<and> (\<forall>m\<in>set ms. \<not> listed db' (m_phone_hmac m))"
proof -
  obtain c batch where "find_chunk db (ck_chunk_id chunk) = Some c"
    and k: "dispatch_checked du db c batch chunk (pending_messages db (c_id c)) = Inr (db', d)"
    using assms unfolding decide_dispatch_def Let_def
    by (auto simp: rbind_Inr_iff split: option.splits if_splits)
  then have c: "c_id c = ck_chunk_id chunk" by (auto dest: find_chunk_SomeD)
  define ms where "ms = filter (\<lambda>m. m_id m \<notin> set (map m_id (filter (\<lambda>m. listed db (m_phone_hmac m))
      (pending_messages db (c_id c))))) (pending_messages db (c_id c))"
  have "dd_eligible_phones d = map m_phone ms \<and> ms \<noteq> []"
    using k assms(2) unfolding dispatch_checked_def Let_def ms_def
    by (auto simp: rbind_Inr_iff decision_def split: if_splits)
  moreover have "set ms \<subseteq> set (pending_messages db (c_id c))"
    "\<forall>m\<in>set ms. \<not> listed db (m_phone_hmac m)" by (auto simp: ms_def)
  moreover have "listed db' = listed db"
    using decide_dispatch_frame [OF assms(1)] by (auto simp: listed_def dispatch_keeps_def)
  ultimately show ?thesis using c by auto
qed

definition checked_now :: "worker_config \<Rightarrow> ChunkPayload \<Rightarrow> db \<Rightarrow> DispatchDecision \<Rightarrow> db \<Rightarrow> bool" where
  "checked_now cfg chunk db0 d dbn \<longleftrightarrow> (\<exists>db db'. blacklist_step\<^sup>*\<^sup>* db0 db
     \<and> decide_dispatch (wk_usage cfg) db chunk = Inr (db', d) \<and> blacklist_step\<^sup>*\<^sup>* db' dbn
     \<and> dd_generation d = Some (db_blacklist_generation dbn)
     \<and> db_blacklist_generation dbn = db_blacklist_generation db')"

lemma phones_loop_checked:
  assumes "policy_others out" "phones_loop n cfg out chunk l w = (Returned d, w')"
    and "dd_action d = D_SEND" "dd_generation d = Some g"
  shows "checked_now cfg chunk (w_db w) d (w_db w')"
  using assms(2)
proof (induction n arbitrary: l w)
  case 0
  then show ?case using assms(3) by (auto simp: wreturn_def decision_def)
next
  case (Suc n)
  from Suc.prems obtain d1 w1 where t: "transaction out (\<lambda>db. decide_dispatch (wk_usage cfg) db chunk) w = (Returned d1, w1)"
    and k: "(if dd_action d1 \<noteq> D_SEND \<or> dd_generation d1 = None then wreturn d1
       else wbind (query out read_generation) (\<lambda>g.
         if Some g = dd_generation d1 then wreturn d1 else phones_loop n cfg out chunk d1)) w1 = (Returned d, w')"
    unfolding phones_loop.simps by (rule wbind_Returned)
  let ?db = "o_db out (w_tick w) (w_open w) (w_db w)"
  have s: "blacklist_step\<^sup>*\<^sup>* (w_db w) ?db" using assms(1) by (simp add: policy_others_def)
  have dec: "decide_dispatch (wk_usage cfg) ?db chunk = Inr (w_db w1, d1)"
    using transaction_Returned [OF t] by auto
  have other: "blacklist_step ?db (w_db w1)" by (rule decide_dispatch_policy [OF dec])
  have ok: "\<not> (dd_action d1 \<noteq> D_SEND \<or> dd_generation d1 = None)"
  proof
    assume a: "dd_action d1 \<noteq> D_SEND \<or> dd_generation d1 = None"
    with k have "d = d1" by (simp add: wreturn_def)
    with a assms(3,4) show False by auto
  qed
  from k obtain g1 w2 where q: "query out read_generation w1 = (Returned g1, w2)"
    and e: "(\<lambda>g. if Some g = dd_generation d1 then wreturn d1 else phones_loop n cfg out chunk d1) g1 w2 = (Returned d, w')"
    unfolding if_not_P [OF ok] by (rule wbind_Returned)
  have s2: "blacklist_step\<^sup>*\<^sup>* (w_db w1) (w_db w2)" and g: "read_generation (w_db w2) = Inr g1"
    using query_Returned [OF q] assms(1) by (auto simp: policy_others_def)
  show ?case
  proof (cases "Some g1 = dd_generation d1")
    case True
    with e have d: "d = d1" "w' = w2" by (auto simp: wreturn_def)
    have "g1 = db_blacklist_generation (w_db w2)" using g by (simp add: read_generation_def split: if_splits)
    moreover have "dd_generation d1 = Some (db_blacklist_generation (w_db w1))"
      using True decide_dispatch_generation [OF dec] by (metis)
    ultimately show ?thesis using s dec s2 True d unfolding checked_now_def by auto
  next
    case False
    with e have "phones_loop n cfg out chunk d1 w2 = (Returned d, w')" by simp
    from Suc.IH [OF this] have "checked_now cfg chunk (w_db w2) d (w_db w')" .
    moreover have "blacklist_step\<^sup>*\<^sup>* (w_db w) (w_db w2)" using s other s2 by auto
    ultimately show ?thesis unfolding checked_now_def by (meson rtranclp_trans)
  qed
qed

text \<open>C37: the blacklist is current when a chunk goes to the provider. The check that allows the call reads
  the policy, withdraws numbers and reads the generation again. When it lets numbers through, each
  belongs to a message that was waiting in the chunk at the check, and none of them is blacklisted in
  the state that the last read saw, however the blacklist changed between the interactions.\<close>

theorem blacklist_check_is_current:
  assumes "policy_others out" "phones_for_invoke cfg out chunk w = (Returned d, w')"
    and "dd_action d = D_SEND" "dd_generation d = Some g"
  shows "g = db_blacklist_generation (w_db w') \<and>
    (\<exists>db db' ms. blacklist_step\<^sup>*\<^sup>* (w_db w) db \<and> decide_dispatch (wk_usage cfg) db chunk = Inr (db', d)
      \<and> blacklist_step\<^sup>*\<^sup>* db' (w_db w') \<and> dd_eligible_phones d = map m_phone ms \<and> ms \<noteq> []
      \<and> set ms \<subseteq> set (pending_messages db (ck_chunk_id chunk))
      \<and> (\<forall>m\<in>set ms. \<not> listed (w_db w') (m_phone_hmac m)))"
proof -
  obtain db db' where s: "blacklist_step\<^sup>*\<^sup>* (w_db w) db" "decide_dispatch (wk_usage cfg) db chunk = Inr (db', d)"
    "blacklist_step\<^sup>*\<^sup>* db' (w_db w')" "dd_generation d = Some (db_blacklist_generation (w_db w'))"
    "db_blacklist_generation (w_db w') = db_blacklist_generation db'"
    using phones_loop_checked [OF assms(1) assms(2) [unfolded phones_for_invoke_def] assms(3,4)]
    unfolding checked_now_def by blast
  have "listed (w_db w') = listed db'" using policy.run_content [OF s(3,5)] by (auto simp: listed_def)
  moreover obtain ms where "dd_eligible_phones d = map m_phone ms" "ms \<noteq> []"
    "set ms \<subseteq> set (pending_messages db (ck_chunk_id chunk))" "\<forall>m\<in>set ms. \<not> listed db' (m_phone_hmac m)"
    using decide_dispatch_unlisted [OF s(2) assms(3,4)] by blast
  ultimately show ?thesis using s assms(4) by auto
qed

lemma example_check:
  obtains db where "decide_dispatch no_usage example_send example_job = Inr (db, example_decision)"
    "read_generation db = Inr 1"
  using example_transactions by blast

theorem blacklist_check_is_current_witness:
  "\<exists>w'. phones_for_invoke example_config quiet example_job example_world = (Returned example_decision, w')
     \<and> db_blacklist_generation (w_db w') = 1"
proof -
  obtain db where "decide_dispatch no_usage (w_db example_world) example_job = Inr (db, example_decision)"
    "read_generation db = Inr 1"
    by (rule example_check) (simp add: example_world_def)
  from quiet_phones [OF this] obtain w' where p: "phones_for_invoke example_config quiet example_job example_world
      = (Returned example_decision, w')" by blast
  have "policy_others quiet" by (simp add: policy_others_def quiet_def)
  from blacklist_check_is_current [OF this p, of 1] p show ?thesis by (auto simp: example_decision_def)
qed

section \<open>Waiting for a token\<close>

lemma acquire_tick:
  "w_tick (snd (bucket_acquire out lane q rs v w)) = Suc (w_tick w)"
  "fst (bucket_acquire out lane q rs v w) \<noteq> Running"
  by (auto simp: bucket_acquire_def Let_def split: fault.splits prod.splits sum.splits)

lemma token_loop_paused:
  assumes "o_paused out (w_tick w + 3 * j + 1)" "j < n"
  shows "fst (token_loop n cfg out lane v w) \<noteq> Running
    \<and> w_tick (snd (token_loop n cfg out lane v w)) \<le> w_tick w + 3 * j + 2"
  using assms
proof (induction n arbitrary: w j)
  case 0
  then show ?case by simp
next
  case (Suc n)
  let ?m = "bucket_acquire out lane (wk_vendor_qps cfg) (wk_reserved_realtime_qps cfg) v"
  obtain r w1 where m: "?m w = (r, w1)" by fastforce
  have t1: "w_tick w1 = Suc (w_tick w)" "r \<noteq> Running" 
    using acquire_tick [of out lane "wk_vendor_qps cfg" "wk_reserved_realtime_qps cfg" v w] by (simp_all add: m)
  show ?case
  proof (cases "r = Returned None")
    case False
    then have "token_loop (Suc n) cfg out lane v w = (r, w1)"
      using m t1(2) by (cases r) (auto simp: wbind_def wreturn_def split: option.splits)
    then show ?thesis using t1 by simp
  next
    case True
    obtain r2 w2 where p: "is_paused out w1 = (r2, w2)" by fastforce
    have t2: "w_tick w2 = Suc (Suc (w_tick w))" "r2 = Returned (o_paused out (Suc (w_tick w))) \<or> (\<exists>e. r2 = Raised e)"
      using p t1 by (auto simp: is_paused_def ask_def Let_def split: fault.splits)
    show ?thesis
    proof (cases "r2 = Returned False")
      case False
      then have "fst (token_loop (Suc n) cfg out lane v w) \<noteq> Running \<and> snd (token_loop (Suc n) cfg out lane v w) = w2"
        using m p t2(2) True by (cases r2) (auto simp: wbind_def wreturn_def)
      then show ?thesis using t2 by simp
    next
      case go: True
      then have "j \<noteq> 0" using Suc.prems(1) t2(2) by (cases j) auto
      then obtain i where j: "j = Suc i" by (cases j) auto
      obtain r3 w3 where q: "ask out (\<lambda>_. ()) w2 = (r3, w3)" by fastforce
      have t3: "w_tick w3 = w_tick w + 3" "r3 \<noteq> Running"
        using q t2 by (auto simp: ask_def Let_def split: fault.splits)
      show ?thesis
      proof (cases "r3 = Returned ()")
        case True
        then have "token_loop (Suc n) cfg out lane v w = token_loop n cfg out lane v w3"
          using m p q go \<open>r = Returned None\<close> by (simp add: wbind_def)
        moreover have "o_paused out (w_tick w3 + 3 * i + 1)" "i < n"
          using Suc.prems by (simp_all add: t3 j algebra_simps)
        ultimately show ?thesis using Suc.IH [of w3 i] t3 by (simp add: j)
      next
        case False
        then have "fst (token_loop (Suc n) cfg out lane v w) \<noteq> Running \<and> snd (token_loop (Suc n) cfg out lane v w) = w3"
          using m p q go \<open>r = Returned None\<close> t3(2) by (cases r3) (auto simp: wbind_def)
        then show ?thesis using t3 j by simp
      qed
    qed
  qed
qed

text \<open>C38: a worker that waits for a token stops when its lane is paused. If the lane is found paused in some
  round of the wait, the wait is over by then: it has ended with a token, without one, or with an
  exception, after at most three interactions for each round. The bound on the rounds in the model does
  not cut it off.\<close>

theorem token_wait_ends:
  assumes "o_paused out (w_tick w + 3 * j + 1)" "j < wk_patience cfg"
  shows "fst (token cfg out lane vendor_id w) \<noteq> Running
    \<and> w_tick (snd (token cfg out lane vendor_id w)) \<le> w_tick w + 3 * j + 2"
  unfolding token_def by (rule token_loop_paused [OF assms])

definition drained :: outside where
  "drained = quiet\<lparr>o_bucket := (\<lambda>_ _ _. Hash \<lparr>bk_tokens = Some 0, bk_last_ms = Some 1000, bk_expires_at = 5000\<rparr>),
     o_paused := (\<lambda>k. 3 < k)\<rparr>"

theorem token_wait_ends_witness:
  "fst (token example_config drained ''bulk'' ''zhihui'' example_world) \<noteq> Running
     \<and> w_tick (snd (token example_config drained ''bulk'' ''zhihui'' example_world)) \<le> 5"
  using token_wait_ends [of drained example_world 1 example_config "''bulk''" "''zhihui''"]
  by (simp add: drained_def example_world_def example_config_def worker_components_def)

end
