(* ===== verification/Spec2Isabelle.thy ===== *)
theory Spec2Isabelle
  imports Send_Finalize Send_Planning Recovery_Progress Blacklist_Set Worker_Run
begin

text \<open>
  A verification development for the enterprise SMS platform (src/backend/app).

  Parts modelled so far: the provider error table (\<open>Vendor_Codes\<close>, vendor/codes.py), the provider
  routing decision (\<open>Vendor_Routing\<close>, vendor/routing.py) and the fail-over rules
  (\<open>Vendor_Failover\<close>, vendor/failover.py).
\<close>

end
